(* ===== verification/Prelude.thy ===== *)
theory Prelude
  imports Main "HOL-Library.Word"
begin

text \<open>
  Shared vocabulary of the development.

  A Go function that returns \<open>(T, error)\<close> and may read or change the outside world is an
  \<^emph>\<open>action\<close>: a function from the state to a result (\<open>Inl\<close> the error, \<open>Inr\<close> the value) and the
  next state. \<open>andthen\<close> is the idiom "call, return early if \<open>err != nil\<close>, continue";
  \<open>attempt\<close> is the idiom "call, then branch on \<open>err\<close> oneself". An error does not undo the
  state: what a failing call already changed stays changed, as in the program.

  \<open>keeps P m\<close> says that the action \<open>m\<close> preserves the state predicate \<open>P\<close> whatever it returns,
  \<open>frame f m\<close> that it leaves the part \<open>f\<close> of the state alone. Both are compositional; their
  rules are collected in \<open>keeps_rules\<close> and \<open>frame_rules\<close>.
\<close>

named_theorems act_simps "evaluation of actions"
named_theorems keeps_rules "introduction rules for keeps"
named_theorems frame_rules "introduction rules for frame"
named_theorems never_rules "introduction rules for never"

section \<open>Actions\<close>

type_synonym ('s, 'e, 'a) act = "'s \<Rightarrow> ('e + 'a) \<times> 's"

definition ret :: "'a \<Rightarrow> ('s, 'e, 'a) act" where
  "ret a s = (Inr a, s)"

definition raise :: "'e \<Rightarrow> ('s, 'e, 'a) act" where
  "raise e s = (Inl e, s)"

definition lift :: "'e + 'a \<Rightarrow> ('s, 'e, 'a) act" where
  "lift r s = (r, s)"

definition attempt :: "('s, 'e, 'a) act \<Rightarrow> ('e + 'a \<Rightarrow> ('s, 'f, 'b) act) \<Rightarrow> ('s, 'f, 'b) act" where
  "attempt m k s = (case m s of (r, s') \<Rightarrow> k r s')"

definition andthen :: "('s, 'e, 'a) act \<Rightarrow> ('a \<Rightarrow> ('s, 'e, 'b) act) \<Rightarrow> ('s, 'e, 'b) act" where
  "andthen m k = attempt m (\<lambda>r. case r of Inl e \<Rightarrow> raise e | Inr a \<Rightarrow> k a)"

definition map_err :: "('e \<Rightarrow> 'f) \<Rightarrow> ('s, 'e, 'a) act \<Rightarrow> ('s, 'f, 'a) act" where
  "map_err g m = attempt m (\<lambda>r. case r of Inl e \<Rightarrow> raise (g e) | Inr a \<Rightarrow> ret a)"

definition unless_raise :: "bool \<Rightarrow> 'e \<Rightarrow> ('s, 'e, 'a) act \<Rightarrow> ('s, 'e, 'a) act" where
  "unless_raise b e m = (if b then m else raise e)"

lemma ret_simp [act_simps, simp]: "ret a s = (Inr a, s)"
  by (simp add: ret_def)

lemma raise_simp [act_simps, simp]: "raise e s = (Inl e, s)"
  by (simp add: raise_def)

lemma lift_simp [act_simps, simp]: "lift r s = (r, s)"
  by (simp add: lift_def)

lemma attempt_simp [act_simps]: "attempt m k s = k (fst (m s)) (snd (m s))"
  by (simp add: attempt_def split_beta)

lemma andthen_simp [act_simps]:
  "andthen m k s = (case m s of (Inl e, s') \<Rightarrow> (Inl e, s') | (Inr a, s') \<Rightarrow> k a s')"
  by (simp add: andthen_def attempt_def split: prod.split sum.split)

lemma map_err_simp [act_simps]:
  "map_err g m s = (case m s of (Inl e, s') \<Rightarrow> (Inl (g e), s') | (Inr a, s') \<Rightarrow> (Inr a, s'))"
  by (simp add: map_err_def attempt_def split: prod.split sum.split)

lemma unless_raise_simp [act_simps]:
  "unless_raise b e m s = (if b then m s else (Inl e, s))"
  by (simp add: unless_raise_def)

text \<open>Inversion of a finished action: what a result says about the calls that made it.\<close>

lemma andthen_Inr:
  "andthen m k s = (Inr b, t) \<longleftrightarrow> (\<exists>a s'. m s = (Inr a, s') \<and> k a s' = (Inr b, t))"
  by (auto simp: andthen_simp split: prod.splits sum.splits)

lemma andthen_Inl:
  "andthen m k s = (Inl e, t) \<longleftrightarrow>
     m s = (Inl e, t) \<or> (\<exists>a s'. m s = (Inr a, s') \<and> k a s' = (Inl e, t))"
  by (auto simp: andthen_simp split: prod.splits sum.splits)

lemma attempt_eq:
  "attempt m k s = (r, t) \<longleftrightarrow> (\<exists>q s'. m s = (q, s') \<and> k q s' = (r, t))"
  by (auto simp: attempt_def split: prod.splits)

lemma attempt_case:
  "attempt m (case_sum f g) s = (r, t) \<longleftrightarrow>
     (\<exists>e s'. m s = (Inl e, s') \<and> f e s' = (r, t)) \<or> (\<exists>a s'. m s = (Inr a, s') \<and> g a s' = (r, t))"
  by (auto simp: attempt_def split: prod.splits sum.splits)

lemma map_err_Inr: "map_err g m s = (Inr a, t) \<longleftrightarrow> m s = (Inr a, t)"
  by (auto simp: map_err_simp split: prod.splits sum.splits)

lemma map_err_Inl: "map_err g m s = (Inl e, t) \<longleftrightarrow> (\<exists>d. m s = (Inl d, t) \<and> e = g d)"
  by (auto simp: map_err_simp split: prod.splits sum.splits)

lemma unless_raise_Inr: "unless_raise b e m s = (Inr a, t) \<longleftrightarrow> b \<and> m s = (Inr a, t)"
  by (simp add: unless_raise_def)

lemma unless_raise_Inl:
  "unless_raise b e m s = (Inl d, t) \<longleftrightarrow> (if b then m s = (Inl d, t) else d = e \<and> t = s)"
  by (auto simp: unless_raise_def)

lemma lift_Inr: "lift r s = (Inr a, t) \<longleftrightarrow> r = Inr a \<and> t = s"
  by auto

lemmas act_inv = andthen_Inr andthen_Inl map_err_Inr map_err_Inl unless_raise_Inr unless_raise_Inl

text \<open>The associativity of sequencing, used to peel one call off a handler.\<close>

lemma andthen_assoc: "andthen (andthen m k) h = andthen m (\<lambda>a. andthen (k a) h)"
  by (rule ext) (simp add: andthen_simp split: prod.split sum.split)

lemma andthen_ret_left: "andthen (ret a) k = k a"
  by (rule ext) (simp add: andthen_simp)

section \<open>Preservation\<close>

definition keeps :: "('s \<Rightarrow> bool) \<Rightarrow> ('s, 'e, 'a) act \<Rightarrow> bool" where
  "keeps P m \<longleftrightarrow> (\<forall>s. P s \<longrightarrow> P (snd (m s)))"

definition frame :: "('s \<Rightarrow> 'v) \<Rightarrow> ('s, 'e, 'a) act \<Rightarrow> bool" where
  "frame f m \<longleftrightarrow> (\<forall>s. f (snd (m s)) = f s)"

lemma keepsD: "keeps P m \<Longrightarrow> m s = (r, t) \<Longrightarrow> P s \<Longrightarrow> P t"
  unfolding keeps_def by (metis snd_conv)

lemma frameD: "frame f m \<Longrightarrow> m s = (r, t) \<Longrightarrow> f t = f s"
  unfolding frame_def by (metis snd_conv)

lemma keeps_ret [keeps_rules]: "keeps P (ret a)"
  by (simp add: keeps_def)

lemma keeps_raise [keeps_rules]: "keeps P (raise e)"
  by (simp add: keeps_def)

lemma keeps_lift [keeps_rules]: "keeps P (lift r)"
  by (simp add: keeps_def)

lemma keeps_attempt [keeps_rules]: "keeps P m \<Longrightarrow> (\<And>r. keeps P (k r)) \<Longrightarrow> keeps P (attempt m k)"
  by (auto simp: keeps_def attempt_simp)

lemma keeps_case_sum [keeps_rules]:
  "(\<And>e. keeps P (f e)) \<Longrightarrow> (\<And>a. keeps P (g a)) \<Longrightarrow> keeps P (case r of Inl e \<Rightarrow> f e | Inr a \<Rightarrow> g a)"
  by (cases r) auto

lemma keeps_case_option [keeps_rules]:
  "keeps P m \<Longrightarrow> (\<And>a. keeps P (g a)) \<Longrightarrow> keeps P (case r of None \<Rightarrow> m | Some a \<Rightarrow> g a)"
  by (cases r) auto

lemma keeps_case_prod [keeps_rules]:
  "(\<And>a b. keeps P (g a b)) \<Longrightarrow> keeps P (case r of (a, b) \<Rightarrow> g a b)"
  by (cases r) auto

lemma keeps_if [keeps_rules]: "keeps P m \<Longrightarrow> keeps P n \<Longrightarrow> keeps P (if b then m else n)"
  by auto

lemma keeps_let [keeps_rules]: "(\<And>x. keeps P (f x)) \<Longrightarrow> keeps P (let x = a in f x)"
  by simp

lemma keeps_andthen [keeps_rules]: "keeps P m \<Longrightarrow> (\<And>a. keeps P (k a)) \<Longrightarrow> keeps P (andthen m k)"
  unfolding andthen_def by (intro keeps_rules)

lemma keeps_map_err [keeps_rules]: "keeps P m \<Longrightarrow> keeps P (map_err g m)"
  unfolding map_err_def by (intro keeps_rules)

lemma keeps_unless_raise [keeps_rules]: "keeps P m \<Longrightarrow> keeps P (unless_raise b e m)"
  unfolding unless_raise_def by (intro keeps_rules)

lemma frame_keeps: "frame f m \<longleftrightarrow> (\<forall>v. keeps (\<lambda>s. f s = v) m)"
  by (auto simp: frame_def keeps_def)

lemma frame_imp_keeps: "frame f m \<Longrightarrow> keeps (\<lambda>s. P (f s)) m"
  by (auto simp: frame_def keeps_def)

lemma frame_ret [frame_rules]: "frame f (ret a)"
  by (simp add: frame_def)

lemma frame_raise [frame_rules]: "frame f (raise e)"
  by (simp add: frame_def)

lemma frame_lift [frame_rules]: "frame f (lift r)"
  by (simp add: frame_def)

lemma frame_attempt [frame_rules]: "frame f m \<Longrightarrow> (\<And>r. frame f (k r)) \<Longrightarrow> frame f (attempt m k)"
  by (auto simp: frame_def attempt_simp)

lemma frame_andthen [frame_rules]: "frame f m \<Longrightarrow> (\<And>a. frame f (k a)) \<Longrightarrow> frame f (andthen m k)"
  by (auto simp: frame_keeps intro: keeps_andthen)

lemma frame_map_err [frame_rules]: "frame f m \<Longrightarrow> frame f (map_err g m)"
  by (auto simp: frame_keeps intro: keeps_map_err)

lemma frame_unless_raise [frame_rules]: "frame f m \<Longrightarrow> frame f (unless_raise b e m)"
  by (auto simp: frame_keeps intro: keeps_unless_raise)

lemma frame_case_sum [frame_rules]:
  "(\<And>e. frame f (g e)) \<Longrightarrow> (\<And>a. frame f (h a)) \<Longrightarrow> frame f (case r of Inl e \<Rightarrow> g e | Inr a \<Rightarrow> h a)"
  by (cases r) auto

lemma frame_case_option [frame_rules]:
  "frame f m \<Longrightarrow> (\<And>a. frame f (g a)) \<Longrightarrow> frame f (case r of None \<Rightarrow> m | Some a \<Rightarrow> g a)"
  by (cases r) auto

lemma frame_if [frame_rules]: "frame f m \<Longrightarrow> frame f n \<Longrightarrow> frame f (if b then m else n)"
  by auto

lemma frame_let [frame_rules]: "(\<And>x. frame f (g x)) \<Longrightarrow> frame f (let x = a in g x)"
  by simp

section \<open>Failing without a trace\<close>

text \<open>
  \<open>never E m\<close>: no error of the kind \<open>E\<close> comes out of \<open>m\<close>. \<open>on_error E P m\<close>: when one does, \<open>P\<close> still
  holds. An operation is taken apart at its first effect: before it, everything keeps \<open>P\<close>; from it
  on, no such error comes any more.
\<close>

definition never :: "('e \<Rightarrow> bool) \<Rightarrow> ('s, 'e, 'a) act \<Rightarrow> bool" where
  "never E m \<longleftrightarrow> (\<forall>s e t. m s = (Inl e, t) \<longrightarrow> \<not> E e)"

definition on_error :: "('e \<Rightarrow> bool) \<Rightarrow> ('s \<Rightarrow> bool) \<Rightarrow> ('s, 'e, 'a) act \<Rightarrow> bool" where
  "on_error E P m \<longleftrightarrow> (\<forall>s e t. P s \<longrightarrow> m s = (Inl e, t) \<longrightarrow> E e \<longrightarrow> P t)"

lemma never_ret [never_rules]: "never E (ret a)"
  by (simp add: never_def)

lemma never_raise [never_rules]: "\<not> E e \<Longrightarrow> never E (raise e)"
  by (simp add: never_def)

lemma never_andthen [never_rules]: "never E m \<Longrightarrow> (\<And>a. never E (k a)) \<Longrightarrow> never E (andthen m k)"
  unfolding never_def by (auto simp: andthen_Inl) blast

lemma never_attempt [never_rules]: "(\<And>r. never E (k r)) \<Longrightarrow> never E (attempt m k)"
  unfolding never_def by (auto simp: attempt_eq)

lemma never_map_err [never_rules]: "(\<And>e. \<not> E (g e)) \<Longrightarrow> never E (map_err g m)"
  unfolding never_def by (auto simp: map_err_Inl)

lemma never_if [never_rules]: "never E m \<Longrightarrow> never E n \<Longrightarrow> never E (if b then m else n)"
  by auto

lemma never_case_sum [never_rules]:
  "(\<And>e. never E (f e)) \<Longrightarrow> (\<And>a. never E (g a)) \<Longrightarrow> never E (case r of Inl e \<Rightarrow> f e | Inr a \<Rightarrow> g a)"
  by (cases r) auto

lemma on_error_keeps: "keeps P m \<Longrightarrow> on_error E P m"
  unfolding on_error_def keeps_def by (metis snd_conv)

lemma on_error_never: "never E m \<Longrightarrow> on_error E P m"
  unfolding on_error_def never_def by blast

lemma on_error_andthen:
  "keeps P m \<Longrightarrow> (\<And>a. on_error E P (k a)) \<Longrightarrow> on_error E P (andthen m k)"
  unfolding on_error_def by (auto simp: andthen_Inl dest: keepsD)

lemma on_error_last:
  "on_error E P m \<Longrightarrow> (\<And>a. never E (k a)) \<Longrightarrow> on_error E P (andthen m k)"
  unfolding on_error_def never_def by (auto simp: andthen_Inl) blast

lemma on_error_attempt:
  "keeps P m \<Longrightarrow> (\<And>r. on_error E P (k r)) \<Longrightarrow> on_error E P (attempt m k)"
  unfolding on_error_def by (auto simp: attempt_eq dest: keepsD)

lemma on_error_if: "on_error E P m \<Longrightarrow> on_error E P n \<Longrightarrow> on_error E P (if b then m else n)"
  by auto

lemma on_error_case_sum:
  "(\<And>e. on_error E P (f e)) \<Longrightarrow> (\<And>a. on_error E P (g a)) \<Longrightarrow>
     on_error E P (case r of Inl e \<Rightarrow> f e | Inr a \<Rightarrow> g a)"
  by (cases r) auto

lemma on_errorD: "on_error E P m \<Longrightarrow> P s \<Longrightarrow> m s = (Inl e, t) \<Longrightarrow> E e \<Longrightarrow> P t"
  unfolding on_error_def by blast

section \<open>Loops over a slice\<close>

text \<open>\<open>for _, x := range xs { if err := f(x); err != nil { return err } }\<close>\<close>

fun for_each :: "('a \<Rightarrow> ('s, 'e, unit) act) \<Rightarrow> 'a list \<Rightarrow> ('s, 'e, unit) act" where
  "for_each f [] = ret ()"
| "for_each f (x # xs) = andthen (f x) (\<lambda>_. for_each f xs)"

text \<open>A loop that carries an accumulator and may return early with an error.\<close>

fun fold_act :: "('a \<Rightarrow> 'b \<Rightarrow> ('s, 'e, 'b) act) \<Rightarrow> 'a list \<Rightarrow> 'b \<Rightarrow> ('s, 'e, 'b) act" where
  "fold_act f [] b = ret b"
| "fold_act f (x # xs) b = andthen (f x b) (\<lambda>b'. fold_act f xs b')"

lemma keeps_for_each [keeps_rules]:
  "(\<And>x. x \<in> set xs \<Longrightarrow> keeps P (f x)) \<Longrightarrow> keeps P (for_each f xs)"
  by (induction xs) (auto intro: keeps_rules)

lemma keeps_fold_act [keeps_rules]:
  "(\<And>x b. x \<in> set xs \<Longrightarrow> keeps P (f x b)) \<Longrightarrow> keeps P (fold_act f xs b)"
  by (induction xs arbitrary: b) (auto intro: keeps_rules)

lemma frame_for_each [frame_rules]:
  "(\<And>x. x \<in> set xs \<Longrightarrow> frame g (f x)) \<Longrightarrow> frame g (for_each f xs)"
  by (induction xs) (auto intro: frame_rules)

lemma frame_fold_act [frame_rules]:
  "(\<And>x b. x \<in> set xs \<Longrightarrow> frame g (f x b)) \<Longrightarrow> frame g (fold_act f xs b)"
  by (induction xs arbitrary: b) (auto intro: frame_rules)

section \<open>Lists as tables\<close>

lemma find_Some_set: "find P xs = Some x \<Longrightarrow> x \<in> set xs \<and> P x"
  by (induction xs) (auto split: if_splits)

lemma find_None_set: "find P xs = None \<longleftrightarrow> (\<forall>x \<in> set xs. \<not> P x)"
  by (induction xs) auto

lemma find_unique:
  "distinct (map f xs) \<Longrightarrow> x \<in> set xs \<Longrightarrow> find (\<lambda>y. f y = f x) xs = Some x"
  by (induction xs) (auto simp: rev_image_eqI)

lemma distinct_map_inj: "distinct (map f xs) \<Longrightarrow> x \<in> set xs \<Longrightarrow> y \<in> set xs \<Longrightarrow> f x = f y \<Longrightarrow> x = y"
  by (auto simp: distinct_map dest: inj_onD)

lemma find_cong_set: "(\<And>x. x \<in> set xs \<Longrightarrow> P x = Q x) \<Longrightarrow> find P xs = find Q xs"
  by (induction xs) auto

end
