(* ===== verification/GoText.thy ===== *)
theory GoText
  imports Prelude
begin

text \<open>
  Go strings and the parts of \<open>strings\<close> and \<open>unicode/utf8\<close> the program uses.

  A Go string is a sequence of bytes, and so is a HOL \<open>string\<close> (a \<open>char\<close> has eight bits), so a
  Go string is modelled as it is; \<open>len(s)\<close> is \<open>length s\<close>. UTF-8 decoding is written out as
  \<open>utf8.DecodeRune\<close> does it: a byte that starts no valid encoding is a rune of its own, U+FFFD of
  width one. The lower-case mapping of the Unicode tables is a parameter, \<open>ul\<close>, used for
  runes beyond ASCII only; every ASCII byte is mapped here.
\<close>

type_synonym rune = nat

definition byte :: "char \<Rightarrow> nat" where
  "byte c = of_char c"

definition RuneError :: rune where
  "RuneError = 65533"

definition in_range :: "nat \<Rightarrow> nat \<Rightarrow> nat \<Rightarrow> bool" where
  "in_range lo hi b \<longleftrightarrow> lo \<le> b \<and> b \<le> hi"

text \<open>The range the second byte of a multi-byte encoding must lie in, by its first byte.\<close>

definition second_range :: "nat \<Rightarrow> nat \<times> nat" where
  "second_range b =
     (if b = 224 then (160, 191) else if b = 237 then (128, 159)
      else if b = 240 then (144, 191) else if b = 244 then (128, 143) else (128, 191))"

definition cont :: "nat \<Rightarrow> bool" where
  "cont b \<longleftrightarrow> in_range 128 191 b"

text \<open>\<open>utf8.DecodeRune\<close> on a non-empty list of bytes: the rune and its width.\<close>

fun decode_bytes :: "nat list \<Rightarrow> rune \<times> nat" where
  "decode_bytes [] = (RuneError, 0)"
| "decode_bytes (a # rest) =
     (if a < 128 then (a, 1)
      else if in_range 194 223 a then
        (case rest of
           b # _ \<Rightarrow> if cont b then ((a - 192) * 64 + (b - 128), 2) else (RuneError, 1)
         | _ \<Rightarrow> (RuneError, 1))
      else if in_range 224 239 a then
        (case rest of
           b # c # _ \<Rightarrow>
             if in_range (fst (second_range a)) (snd (second_range a)) b \<and> cont c
             then ((a - 224) * 4096 + (b - 128) * 64 + (c - 128), 3) else (RuneError, 1)
         | _ \<Rightarrow> (RuneError, 1))
      else if in_range 240 244 a then
        (case rest of
           b # c # d # _ \<Rightarrow>
             if in_range (fst (second_range a)) (snd (second_range a)) b \<and> cont c \<and> cont d
             then ((a - 240) * 262144 + (b - 128) * 4096 + (c - 128) * 64 + (d - 128), 4)
             else (RuneError, 1)
         | _ \<Rightarrow> (RuneError, 1))
      else (RuneError, 1))"

lemma decode_bytes_width: "0 < snd (decode_bytes (a # rest))"
  by (auto split: list.split)

lemma decode_bytes_ascii: "a < 128 \<Longrightarrow> decode_bytes (a # rest) = (a, 1)"
  by simp

lemma decode_bytes_pos: "decode_bytes (a # rest) = (r, n) \<Longrightarrow> 0 < n"
  by (metis decode_bytes_width snd_conv)

declare decode_bytes.simps [simp del]

text \<open>A string as its runes, each with the bytes it was decoded from: \<open>for _, r := range s\<close>.\<close>

function runes :: "string \<Rightarrow> (rune \<times> string) list" where
  "runes [] = []"
| "runes (c # cs) =
     (let (r, n) = decode_bytes (map byte (c # cs))
      in (r, take n (c # cs)) # runes (drop n (c # cs)))"
  by pat_completeness auto
termination
  by (relation "measure length")
    (auto dest!: sym [of "(_, _)"] simp: decode_bytes_pos)

text \<open>The width of the first rune, and the equation and induction rule over it.\<close>

definition width :: "string \<Rightarrow> nat" where
  "width s = snd (decode_bytes (map byte s))"

lemma width_pos: "0 < width (c # cs)"
  by (simp add: width_def decode_bytes_width)

lemma runes_Cons:
  "runes (c # cs) =
     (fst (decode_bytes (map byte (c # cs))), take (width (c # cs)) (c # cs))
     # runes (drop (width (c # cs)) (c # cs))"
  by (simp add: width_def Let_def split_beta)

lemma runes_induct [case_names Nil Cons]:
  assumes "P []" and "\<And>c cs. P (drop (width (c # cs)) (c # cs)) \<Longrightarrow> P (c # cs)"
  shows "P s"
proof (induction s rule: length_induct)
  case (1 s)
  show ?case
  proof (cases s)
    case (Cons c cs)
    have "length (drop (width (c # cs)) (c # cs)) < length s"
      using Cons width_pos [of c cs] by (simp del: drop_eq_Nil)
    with 1 Cons show ?thesis using assms(2) by blast
  qed (simp add: assms(1))
qed

declare runes.simps(2) [simp del]

lemma runes_concat: "concat (map snd (runes s)) = s"
  by (induction s rule: runes_induct) (simp_all add: runes_Cons)

lemma byte_bound: "byte c < 256"
  by (simp add: byte_def)

definition ascii :: "string \<Rightarrow> bool" where
  "ascii s \<longleftrightarrow> list_all (\<lambda>c. byte c < 128) s"

lemma runes_ascii: "ascii s \<Longrightarrow> runes s = map (\<lambda>c. (byte c, [c])) s"
  by (induction s) (simp_all add: ascii_def runes_Cons width_def decode_bytes_ascii)

text \<open>\<open>utf8.ValidString\<close>: no byte stands for itself as U+FFFD.\<close>

definition valid_utf8 :: "string \<Rightarrow> bool" where
  "valid_utf8 s \<longleftrightarrow> list_all (\<lambda>p. \<not> (fst p = RuneError \<and> length (snd p) = 1)) (runes s)"

text \<open>\<open>len([]rune(s))\<close>\<close>

definition rune_count :: "string \<Rightarrow> nat" where
  "rune_count s = length (runes s)"

lemma rune_count_ascii: "ascii s \<Longrightarrow> rune_count s = length s"
  by (simp add: rune_count_def runes_ascii)

lemma runes_snd_nonempty: "p \<in> set (runes s) \<Longrightarrow> snd p \<noteq> []"
proof (induction s rule: runes_induct)
  case (Cons c cs)
  have "take (width (c # cs)) (c # cs) \<noteq> []"
    using width_pos [of c cs] by simp
  with Cons show ?case by (auto simp: runes_Cons)
qed simp

lemma length_le_concat: "(\<And>y. y \<in> set ys \<Longrightarrow> y \<noteq> []) \<Longrightarrow> length ys \<le> length (concat ys)"
proof (induction ys)
  case (Cons y ys)
  then have "length ys \<le> length (concat ys)" "y \<noteq> []" by auto
  then show ?case by (cases y) auto
qed simp

lemma rune_count_le_length: "rune_count s \<le> length s"
proof -
  have "length (map snd (runes s)) \<le> length (concat (map snd (runes s)))"
    by (rule length_le_concat) (auto dest: runes_snd_nonempty)
  then show ?thesis by (simp add: rune_count_def runes_concat)
qed

text \<open>\<open>utf8.AppendRune\<close>\<close>

definition encode_rune :: "rune \<Rightarrow> string" where
  "encode_rune r = map char_of
     (if r < 128 then [r]
      else if r < 2048 then [192 + r div 64, 128 + r mod 64]
      else if r < 65536 then [224 + r div 4096, 128 + r div 64 mod 64, 128 + r mod 64]
      else [240 + r div 262144, 128 + r div 4096 mod 64, 128 + r div 64 mod 64, 128 + r mod 64])"

section \<open>The strings package\<close>

text \<open>\<open>unicode.IsSpace\<close>\<close>

definition is_space :: "rune \<Rightarrow> bool" where
  "is_space r \<longleftrightarrow>
     in_range 9 13 r \<or> r = 32 \<or> r = 133 \<or> r = 160 \<or> r = 5760 \<or> in_range 8192 8202 r
     \<or> r = 8232 \<or> r = 8233 \<or> r = 8239 \<or> r = 8287 \<or> r = 12288"

definition dropWhile_end :: "('a \<Rightarrow> bool) \<Rightarrow> 'a list \<Rightarrow> 'a list" where
  "dropWhile_end P xs = rev (dropWhile P (rev xs))"

definition TrimSpace :: "string \<Rightarrow> string" where
  "TrimSpace s = concat (map snd
     (dropWhile_end (is_space \<circ> fst) (dropWhile (is_space \<circ> fst) (runes s))))"

definition lower_byte :: "char \<Rightarrow> char" where
  "lower_byte c = (if in_range 65 90 (byte c) then char_of (byte c + 32) else c)"

text \<open>
  \<open>strings.ToLower\<close>: byte by byte on an ASCII string, rune by rune otherwise; re-encoding
  turns every invalid byte into U+FFFD.
\<close>

definition lower_rune :: "(rune \<Rightarrow> rune) \<Rightarrow> rune \<Rightarrow> rune" where
  "lower_rune ul r = (if r < 128 then byte (lower_byte (char_of r)) else ul r)"

definition ToLower :: "(rune \<Rightarrow> rune) \<Rightarrow> string \<Rightarrow> string" where
  "ToLower ul s =
     (if ascii s then map lower_byte s
      else concat (map (\<lambda>p. encode_rune (lower_rune ul (fst p))) (runes s)))"

definition HasPrefix :: "string \<Rightarrow> string \<Rightarrow> bool" where
  "HasPrefix s p \<longleftrightarrow> take (length p) s = p"

definition HasSuffix :: "string \<Rightarrow> string \<Rightarrow> bool" where
  "HasSuffix s p \<longleftrightarrow> length p \<le> length s \<and> drop (length s - length p) s = p"

fun Contains :: "string \<Rightarrow> string \<Rightarrow> bool" where
  "Contains [] p = (p = [])"
| "Contains (c # cs) p = (HasPrefix (c # cs) p \<or> Contains cs p)"

definition TrimSuffix :: "string \<Rightarrow> string \<Rightarrow> string" where
  "TrimSuffix s p = (if HasSuffix s p then take (length s - length p) s else s)"

definition CutPrefix :: "string \<Rightarrow> string \<Rightarrow> string option" where
  "CutPrefix s p = (if HasPrefix s p then Some (drop (length p) s) else None)"

text \<open>\<open>before, after, found := strings.Cut(s, sep)\<close>; \<open>None\<close> when the separator is absent.\<close>

fun Cut :: "string \<Rightarrow> string \<Rightarrow> (string \<times> string) option" where
  "Cut [] p = (if p = [] then Some ([], []) else None)"
| "Cut (c # cs) p =
     (if HasPrefix (c # cs) p then Some ([], drop (length p) (c # cs))
      else map_option (\<lambda>(a, b). (c # a, b)) (Cut cs p))"

text \<open>\<open>strings.Split\<close> with a separator of one character.\<close>

fun Split :: "char \<Rightarrow> string \<Rightarrow> string list" where
  "Split d [] = [[]]"
| "Split d (c # cs) =
     (if c = d then [] # Split d cs
      else (case Split d cs of [] \<Rightarrow> [[c]] | w # ws \<Rightarrow> (c # w) # ws))"

text \<open>
  \<open>strings.EqualFold(s, t)\<close> for an ASCII \<open>t\<close> without the letters k and s, the only two that
  fold to a rune beyond ASCII.
\<close>

definition EqualFold_ascii :: "string \<Rightarrow> string \<Rightarrow> bool" where
  "EqualFold_ascii s t \<longleftrightarrow> map lower_byte s = map lower_byte t"

section \<open>Lemmas\<close>

lemma Split_nonempty: "Split d s \<noteq> []"
  by (induction s) (auto split: list.split)

lemma Split_no_sep: "d \<notin> set s \<Longrightarrow> Split d s = [s]"
  by (induction s) auto

lemma Split_append: "d \<notin> set s \<Longrightarrow> Split d (s @ d # t) = s # Split d t"
  by (induction s) auto

lemma HasPrefix_append: "HasPrefix (p @ s) p"
  by (simp add: HasPrefix_def)

lemma HasPrefix_iff: "HasPrefix s p \<longleftrightarrow> (\<exists>t. s = p @ t)"
  by (metis HasPrefix_def HasPrefix_append append_take_drop_id)

lemma HasSuffix_iff: "HasSuffix s p \<longleftrightarrow> (\<exists>t. s = t @ p)"
  by (metis HasSuffix_def append_eq_conv_conj append_take_drop_id diff_add_inverse2 le_add2 length_append)

lemma CutPrefix_Some: "CutPrefix s p = Some t \<longleftrightarrow> s = p @ t"
  by (auto simp: CutPrefix_def HasPrefix_iff)

lemma Cut_sound: "Cut s p = Some (a, b) \<Longrightarrow> s = a @ p @ b"
proof (induction s p arbitrary: a b rule: Cut.induct)
  case (2 c cs p)
  then show ?case
    by (cases "HasPrefix (c # cs) p") (auto simp: HasPrefix_iff)
qed (auto split: if_splits)

lemma byte_inj: "byte c = byte d \<longleftrightarrow> c = d"
  by (simp add: byte_def)

lemma byte_char_of: "n < 256 \<Longrightarrow> byte (char_of n) = n"
  by (simp add: byte_def)

lemma char_of_byte: "char_of (byte c) = c"
  by (simp add: byte_def)

lemma lower_byte_ascii: "byte (lower_byte c) < 128 \<longleftrightarrow> byte c < 128"
  by (auto simp: lower_byte_def in_range_def byte_char_of)

lemma lower_byte_idem: "lower_byte (lower_byte c) = lower_byte c"
  by (auto simp: lower_byte_def in_range_def byte_char_of)

lemma ascii_map_lower: "ascii (map lower_byte s) \<longleftrightarrow> ascii s"
  by (simp add: ascii_def list_all_iff lower_byte_ascii)

lemma dropWhile_end_id: "xs = [] \<or> \<not> P (last xs) \<Longrightarrow> dropWhile_end P xs = xs"
  by (cases xs rule: rev_cases) (auto simp: dropWhile_end_def)

lemma TrimSpace_ascii:
  "ascii s \<Longrightarrow> TrimSpace s = dropWhile_end (is_space \<circ> byte) (dropWhile (is_space \<circ> byte) s)"
  by (simp add: TrimSpace_def runes_ascii dropWhile_map dropWhile_end_def rev_map o_def)

text \<open>A string of ASCII bytes none of which is a space is left alone by trimming.\<close>

lemma TrimSpace_id:
  assumes "ascii s" "list_all (\<lambda>c. \<not> is_space (byte c)) s"
  shows "TrimSpace s = s"
proof -
  have "dropWhile (is_space \<circ> byte) s = s"
    using assms(2) by (cases s) auto
  moreover have "s = [] \<or> \<not> (is_space \<circ> byte) (last s)"
    using assms(2) by (auto simp: list_all_iff)
  ultimately show ?thesis
    using assms(1) by (simp add: TrimSpace_ascii dropWhile_end_id)
qed

end
