(* ===== verification/Runtime.thy ===== *)
theory Runtime
  imports GoText
begin

text \<open>
  What the program takes from outside its own source, as one record of functions that every
  definition using it receives as an argument: the Unicode tables and \<open>net/mail\<close> of the Go
  library, the server's pattern match \<open>ILIKE\<close>, \<open>github.com/google/uuid\<close>, \<open>golang.org/x/crypto/argon2\<close>, SHA-256, the random source,
  the value of a float conversion that overflows \<open>int64\<close> (the language leaves it open), and the
  JWT library. Nothing is assumed about them here; a theorem that relies on their
  documented behaviour names it as a hypothesis (the predicates at the end of this theory).

  Times are Unix nanoseconds (\<open>int\<close>), durations nanoseconds (\<open>int\<close>). UUIDs are their 128-bit
  value; the program only compares them.
\<close>

type_synonym instant = int
type_synonym duration = int
type_synonym uuid = nat

definition Nanosecond :: duration where "Nanosecond = 1"
definition Second :: duration where "Second = 1000000000"
definition Minute :: duration where "Minute = 60 * Second"
definition Hour :: duration where "Hour = 60 * Minute"

text \<open>\<open>time.Time{}\<close>, January 1, year 1 UTC, as Unix nanoseconds.\<close>

definition zero_time :: instant where
  "zero_time = - 62135596800 * 1000000000"

text \<open>\<open>t.Unix()\<close> and \<open>time.Unix(s, 0)\<close>\<close>

definition Unix :: "instant \<Rightarrow> int" where
  "Unix t = t div Second"

definition from_unix :: "int \<Rightarrow> instant" where
  "from_unix s = s * Second"

text \<open>
  The claims of an access token: \<open>Claims\<close> of \<open>pkg/token\<close> with the registered claims of the JWT
  library it embeds. The numeric dates are Unix seconds.
\<close>

record claims =
  cl_session :: string
  cl_role :: string
  cl_auth_time :: int
  cl_issuer :: string
  cl_subject :: string
  cl_audience :: "string list"
  cl_expires :: "int option"
  cl_issued :: "int option"
  cl_not_before :: "int option"
  cl_id :: string

text \<open>The zero value \<open>Claims{}\<close>.\<close>

definition no_claims :: claims where
  "no_claims = \<lparr>cl_session = [], cl_role = [], cl_auth_time = 0, cl_issuer = [], cl_subject = [],
     cl_audience = [], cl_expires = None, cl_issued = None, cl_not_before = None, cl_id = []\<rparr>"

text \<open>
  Options of \<open>jwt.ParseWithClaims\<close> the program sets, and the ways it can fail that the program
  tells apart: \<open>ErrTokenExpired\<close>, the error of the key function, anything else.
\<close>

record parse_options =
  po_methods :: "string list"
  po_issuer :: string
  po_audience :: string
  po_exp_required :: bool

datatype jwt_error = JwtExpired | JwtKeyFunc | JwtOther string

record ext =
  unicode_lower :: "rune \<Rightarrow> rune"
  ilike :: "string \<Rightarrow> string \<Rightarrow> bool"
  mail_parse :: "string \<Rightarrow> string option"
  uuid_parse :: "string \<Rightarrow> uuid option"
  uuid_text :: "uuid \<Rightarrow> string"
  uuid_new :: "nat \<Rightarrow> uuid"
  rand_read :: "nat \<Rightarrow> nat \<Rightarrow> string option"
  sha256 :: "string \<Rightarrow> string"
  argon2_idkey :: "string \<Rightarrow> string \<Rightarrow> nat \<Rightarrow> nat \<Rightarrow> nat \<Rightarrow> nat \<Rightarrow> string option"
  ed25519_public :: "string \<Rightarrow> string"
  float_overflow :: "nat \<Rightarrow> int"
  jwt_sign :: "string \<Rightarrow> string \<Rightarrow> claims \<Rightarrow> string option"
  jwt_parse :: "parse_options \<Rightarrow> (string \<Rightarrow> string option) \<Rightarrow> instant \<Rightarrow> string \<Rightarrow> jwt_error + claims"

text \<open>
  Documented behaviour that theorems name: the text of a UUID parses back to it; the generator
  does not repeat itself; argon2 yields a key of the length asked for and panics (\<open>None\<close>) only on
  a cost of zero; SHA-256 is treated as free of collisions; a token the library
  signed with a key parses, while it is valid, to the claims that were signed, and whatever it
  parses carries the issuer, audience and an expiry that has not passed.
\<close>

definition uuid_law :: "ext \<Rightarrow> bool" where
  "uuid_law e \<longleftrightarrow> (\<forall>u. uuid_parse e (uuid_text e u) = Some u)"

definition uuid_fresh :: "ext \<Rightarrow> bool" where
  "uuid_fresh e \<longleftrightarrow> inj (uuid_new e)"

lemma uuid_text_inj: "uuid_law e \<Longrightarrow> uuid_text e u = uuid_text e v \<longleftrightarrow> u = v"
  by (metis option.inject uuid_law_def)

definition argon2_law :: "ext \<Rightarrow> bool" where
  "argon2_law e \<longleftrightarrow>
     (\<forall>pw salt t m p n. 1 \<le> t \<and> 1 \<le> p \<longrightarrow> (\<exists>k. argon2_idkey e pw salt t m p n = Some k \<and> length k = n))"

definition jwt_parse_sound :: "ext \<Rightarrow> bool" where
  "jwt_parse_sound e \<longleftrightarrow>
     (\<forall>opts kf now raw c. jwt_parse e opts kf now raw = Inr c \<longrightarrow>
        cl_issuer c = po_issuer opts \<and> po_audience opts \<in> set (cl_audience c) \<and>
        (po_exp_required opts \<longrightarrow> (\<exists>x. cl_expires c = Some x \<and> now < from_unix x)))"

end
