(* ===== verification/Domain.thy ===== *)
theory Domain
  imports Runtime
begin

text \<open>
  Package \<open>internal/domain\<close>: sentinel errors, users, sessions, roles and permissions, identifier
  normalisation, audit entries and outbox events.
\<close>

section \<open>Errors\<close>

text \<open>
  Storage errors as \<open>pgx\<close> reports them: no row, an SQLSTATE from the server, or a connection
  failure. A sentinel error is a constructor; \<open>fmt.Errorf("...: %w", err)\<close> is \<open>Wrap\<close>, through
  which \<open>errors.Is\<close> sees. \<open>Opaque\<close> is an error without an identity.
\<close>

datatype pg_error = NoRows | PgError string | ConnError

datatype error =
    ErrNotFound | ErrAlreadyExists | ErrInvalidInput | ErrUnauthorized | ErrForbidden
  | ErrUserNotFound | ErrUserAlreadyExists | ErrInvalidCredentials | ErrUserBlocked | ErrUserDeleted
  | ErrPasswordTooWeak | ErrInvalidIdentifier | ErrNoIdentifier | ErrRegistrationClosed
  | ErrLastAdmin | ErrSelfDemote
  | ErrSessionNotFound | ErrSessionExpired | ErrRefreshReused
  | ErrRoleNotFound | ErrRoleAlreadyExists | ErrRoleInUse | ErrRoleProtected | ErrRankTaken
  | ErrInsufficientRank | ErrPermissionUnknown | ErrPermissionNotHeld
  | ErrTooManyAttempts
  | ErrInvalidHash | ErrIncompatibleParams
  | ErrInvalidToken | ErrTokenExpired | ErrUnknownKey
  | ErrPg pg_error
  | Opaque string
  | Wrap string error

fun errors_is :: "error \<Rightarrow> error \<Rightarrow> bool" where
  "errors_is (Wrap m e) t = (Wrap m e = t \<or> errors_is e t)"
| "errors_is e t = (e = t)"

lemma errors_is_refl [simp]: "errors_is e e"
  by (cases e) auto

section \<open>Permissions and roles\<close>

type_synonym permission = string

definition PermUsersRead :: permission where "PermUsersRead = ''users:read''"
definition PermUsersCreate :: permission where "PermUsersCreate = ''users:create''"
definition PermUsersUpdate :: permission where "PermUsersUpdate = ''users:update''"
definition PermUsersDelete :: permission where "PermUsersDelete = ''users:delete''"
definition PermPasswordSet :: permission where "PermPasswordSet = ''password:set''"
definition PermSessionsRead :: permission where "PermSessionsRead = ''sessions:read''"
definition PermSessionsRevoke :: permission where "PermSessionsRevoke = ''sessions:revoke''"
definition PermAuditRead :: permission where "PermAuditRead = ''audit:read''"
definition PermRolesRead :: permission where "PermRolesRead = ''roles:read''"
definition PermRolesManage :: permission where "PermRolesManage = ''roles:manage''"

lemmas perm_defs = PermUsersRead_def PermUsersCreate_def PermUsersUpdate_def PermUsersDelete_def
  PermPasswordSet_def PermSessionsRead_def PermSessionsRevoke_def PermAuditRead_def
  PermRolesRead_def PermRolesManage_def

definition knownPermissions :: "permission list" where
  "knownPermissions = [PermUsersRead, PermUsersCreate, PermUsersUpdate, PermUsersDelete,
     PermPasswordSet, PermSessionsRead, PermSessionsRevoke, PermAuditRead, PermRolesRead,
     PermRolesManage]"

definition KnownPermission :: "permission \<Rightarrow> bool" where
  "KnownPermission p \<longleftrightarrow> p \<in> set knownPermissions"

definition AllPermissions :: "permission list" where
  "AllPermissions = [PermUsersRead, PermUsersCreate, PermUsersUpdate, PermUsersDelete,
     PermPasswordSet, PermSessionsRead, PermSessionsRevoke, PermAuditRead, PermRolesRead,
     PermRolesManage]"

fun ValidatePermissions :: "permission list \<Rightarrow> error + unit" where
  "ValidatePermissions [] = Inr ()"
| "ValidatePermissions (p # ps) =
     (if \<not> KnownPermission p then Inl (Wrap (''unknown permission '' @ p) ErrPermissionUnknown)
      else ValidatePermissions ps)"

definition RoleUser :: string where "RoleUser = ''user''"
definition RoleManager :: string where "RoleManager = ''manager''"
definition RoleAdmin :: string where "RoleAdmin = ''admin''"
definition RoleSuperAdmin :: string where "RoleSuperAdmin = ''superadmin''"

definition RankUser :: int where "RankUser = 0"
definition RankManager :: int where "RankManager = 10"
definition RankAdmin :: int where "RankAdmin = 50"
definition RankSuperAdmin :: int where "RankSuperAdmin = 100"

lemmas rank_defs = RankUser_def RankManager_def RankAdmin_def RankSuperAdmin_def
lemmas role_name_defs = RoleUser_def RoleManager_def RoleAdmin_def RoleSuperAdmin_def

record role =
  role_name :: string
  role_rank :: int
  role_system :: bool
  role_perms :: "permission list"
  role_created :: instant

fun has_perm :: "permission list \<Rightarrow> permission \<Rightarrow> bool" where
  "has_perm [] p = False"
| "has_perm (own # ps) p = (own = p \<or> has_perm ps p)"

definition Has :: "role \<Rightarrow> permission \<Rightarrow> bool" where
  "Has r p = has_perm (role_perms r) p"

definition CanManage :: "int \<Rightarrow> int \<Rightarrow> bool" where
  "CanManage actorRank targetRank =
     (if actorRank \<ge> RankSuperAdmin then True else actorRank > targetRank)"

definition MayAssign :: "int \<Rightarrow> int \<Rightarrow> bool" where
  "MayAssign actorRank roleRank = CanManage actorRank roleRank"

definition ValidCustomRank :: "int \<Rightarrow> bool" where
  "ValidCustomRank rank \<longleftrightarrow> rank \<ge> 1 \<and> rank \<le> 99"

text \<open>The character classes of the two patterns.\<close>

definition lower_alnum :: "char \<Rightarrow> bool" where
  "lower_alnum c \<longleftrightarrow> in_range 97 122 (byte c) \<or> in_range 48 57 (byte c)"

text \<open>\<open>^[a-z0-9][a-z0-9-]{0,38}$\<close>\<close>

definition ValidRoleName :: "string \<Rightarrow> bool" where
  "ValidRoleName name =
     (case name of [] \<Rightarrow> False
      | c # cs \<Rightarrow> lower_alnum c \<and> length cs \<le> 38 \<and> list_all (\<lambda>d. lower_alnum d \<or> d = CHR ''-'') cs)"

fun HoldsAll :: "permission list \<Rightarrow> permission list \<Rightarrow> bool" where
  "HoldsAll actorPerms [] = True"
| "HoldsAll actorPerms (g # granted) =
     (if \<not> has_perm actorPerms g then False else HoldsAll actorPerms granted)"

definition DefaultRoles :: "role list" where
  "DefaultRoles =
     [\<lparr>role_name = RoleUser, role_rank = RankUser, role_system = True, role_perms = [],
       role_created = zero_time\<rparr>,
      \<lparr>role_name = RoleManager, role_rank = RankManager, role_system = True,
       role_perms = [PermUsersRead, PermSessionsRead], role_created = zero_time\<rparr>,
      \<lparr>role_name = RoleAdmin, role_rank = RankAdmin, role_system = True,
       role_perms = [PermUsersRead, PermUsersCreate, PermUsersUpdate, PermUsersDelete,
         PermPasswordSet, PermSessionsRead, PermSessionsRevoke, PermAuditRead, PermRolesRead],
       role_created = zero_time\<rparr>,
      \<lparr>role_name = RoleSuperAdmin, role_rank = RankSuperAdmin, role_system = True,
       role_perms = [PermUsersRead, PermUsersCreate, PermUsersUpdate, PermUsersDelete,
         PermPasswordSet, PermSessionsRead, PermSessionsRevoke, PermAuditRead, PermRolesRead,
         PermRolesManage],
       role_created = zero_time\<rparr>]"

lemma has_perm_set [simp]: "has_perm ps p \<longleftrightarrow> p \<in> set ps"
  by (induction ps) auto

lemma HoldsAll_subset [simp]: "HoldsAll held granted \<longleftrightarrow> set granted \<subseteq> set held"
  by (induction granted) auto

lemma ValidatePermissions_Inr: "ValidatePermissions ps = Inr () \<longleftrightarrow> list_all KnownPermission ps"
  by (induction ps) auto

lemma ValidatePermissions_Inl:
  "ValidatePermissions ps = Inl err \<Longrightarrow> errors_is err ErrPermissionUnknown"
  by (induction ps) (auto split: if_splits)

section \<open>Users\<close>

type_synonym user_status = string

definition StatusActive :: user_status where "StatusActive = ''active''"
definition StatusBlocked :: user_status where "StatusBlocked = ''blocked''"
definition StatusDeleted :: user_status where "StatusDeleted = ''deleted''"

lemmas status_defs = StatusActive_def StatusBlocked_def StatusDeleted_def

lemma status_distinct [simp]:
  "StatusActive \<noteq> StatusBlocked" "StatusActive \<noteq> StatusDeleted" "StatusBlocked \<noteq> StatusDeleted"
  "StatusBlocked \<noteq> StatusActive" "StatusDeleted \<noteq> StatusActive" "StatusDeleted \<noteq> StatusBlocked"
  by (simp_all add: status_defs)

record user =
  usr_id :: string
  usr_username :: string
  usr_email :: string
  usr_hash :: string
  usr_role :: string
  usr_status :: user_status
  usr_last_login :: "instant option"
  usr_created :: instant
  usr_updated :: instant

definition IsSuperAdmin :: "user \<Rightarrow> bool" where
  "IsSuperAdmin u \<longleftrightarrow> usr_role u = RoleSuperAdmin"

definition Active :: "user \<Rightarrow> bool" where
  "Active u \<longleftrightarrow> usr_status u = StatusActive"

definition Identifier :: "user \<Rightarrow> string" where
  "Identifier u = (if usr_username u \<noteq> [] then usr_username u else usr_email u)"

section \<open>Sessions\<close>

record session =
  ses_id :: string
  ses_user :: string
  ses_family :: string
  ses_used :: "instant option"
  ses_expires :: instant
  ses_ip :: string
  ses_agent :: string
  ses_created :: instant

definition Spent :: "session \<Rightarrow> bool" where
  "Spent s \<longleftrightarrow> ses_used s \<noteq> None"

definition Expired :: "session \<Rightarrow> instant \<Rightarrow> bool" where
  "Expired s now \<longleftrightarrow> \<not> now < ses_expires s"

definition Live :: "session \<Rightarrow> instant \<Rightarrow> bool" where
  "Live s now \<longleftrightarrow> \<not> Spent s \<and> \<not> Expired s now"

section \<open>Identifiers\<close>

definition reservedUsernames :: "string list" where
  "reservedUsernames = [''admin'', ''administrator'', ''root'', ''system'', ''support'', ''help'',
     ''api'', ''auth'', ''goauth'', ''security'', ''noreply'', ''no-reply'', ''postmaster'',
     ''webmaster'', ''abuse'']"

text \<open>\<open>^[a-z0-9_]{3,32}$\<close>\<close>

definition usernamePattern :: "string \<Rightarrow> bool" where
  "usernamePattern v \<longleftrightarrow>
     3 \<le> length v \<and> length v \<le> 32 \<and> list_all (\<lambda>c. lower_alnum c \<or> c = CHR ''_'') v"

definition LooksLikeEmail :: "string \<Rightarrow> bool" where
  "LooksLikeEmail s = Contains s ''@''"

definition NormalizeUsername :: "ext \<Rightarrow> string \<Rightarrow> error + string" where
  "NormalizeUsername e raw =
     (let v = ToLower (unicode_lower e) (TrimSpace raw)
      in if v = [] then Inl ErrNoIdentifier
         else if \<not> usernamePattern v then Inl ErrInvalidIdentifier
         else if v \<in> set reservedUsernames then Inl ErrInvalidIdentifier
         else Inr v)"

definition NormalizeEmail :: "ext \<Rightarrow> string \<Rightarrow> error + string" where
  "NormalizeEmail e raw =
     (let v = ToLower (unicode_lower e) (TrimSpace raw)
      in if v = [] then Inl ErrNoIdentifier
         else (case mail_parse e v of
                 None \<Rightarrow> Inl ErrInvalidIdentifier
               | Some addr \<Rightarrow>
                   if addr \<noteq> v \<or> \<not> Contains v ''.'' then Inl ErrInvalidIdentifier else Inr v))"

definition NormalizeIdentifier :: "ext \<Rightarrow> string \<Rightarrow> error + string" where
  "NormalizeIdentifier e raw =
     (if LooksLikeEmail raw then NormalizeEmail e raw else NormalizeUsername e raw)"

definition ValidatePassword :: "string \<Rightarrow> int \<Rightarrow> error + unit" where
  "ValidatePassword password minLength =
     (if int (rune_count password) < minLength then Inl ErrPasswordTooWeak else Inr ())"

section \<open>Audit entries\<close>

text \<open>The values the program puts into an audit entry's metadata.\<close>

datatype meta = MStr string | MInt int | MBool bool | MList "string list"

record audit_entry =
  aud_actor :: string
  aud_action :: string
  aud_target :: string
  aud_ip :: string
  aud_meta :: "(string \<times> meta) list"

definition ActorSystem :: string where "ActorSystem = ''system''"
definition ActorAdminToken :: string where "ActorAdminToken = ''admin_token''"
definition ActorUserPrefix :: string where "ActorUserPrefix = ''user:''"

definition ActorUser :: "string \<Rightarrow> string" where
  "ActorUser i = ActorUserPrefix @ i"

definition ActionUserCreated :: string where "ActionUserCreated = ''user.created''"
definition ActionUserUpdated :: string where "ActionUserUpdated = ''user.updated''"
definition ActionUserDeleted :: string where "ActionUserDeleted = ''user.deleted''"
definition ActionUserLogin :: string where "ActionUserLogin = ''user.login''"
definition ActionUserLoginFailed :: string where "ActionUserLoginFailed = ''user.login_failed''"
definition ActionUserRegistered :: string where "ActionUserRegistered = ''user.registered''"
definition ActionPasswordChanged :: string where "ActionPasswordChanged = ''user.password_changed''"
definition ActionPasswordSetByAdmin :: string where
  "ActionPasswordSetByAdmin = ''user.password_set_by_admin''"
definition ActionRoleAssigned :: string where "ActionRoleAssigned = ''user.role_assigned''"
definition ActionUserBlocked :: string where "ActionUserBlocked = ''user.blocked''"
definition ActionUserUnblocked :: string where "ActionUserUnblocked = ''user.unblocked''"
definition ActionRoleCreated :: string where "ActionRoleCreated = ''role.created''"
definition ActionRoleUpdated :: string where "ActionRoleUpdated = ''role.updated''"
definition ActionRoleDeleted :: string where "ActionRoleDeleted = ''role.deleted''"
definition ActionTokenRefreshed :: string where "ActionTokenRefreshed = ''session.refreshed''"
definition ActionSessionRevoked :: string where "ActionSessionRevoked = ''session.revoked''"
definition ActionSessionsRevoked :: string where "ActionSessionsRevoked = ''session.revoked_all''"
definition ActionRefreshReuse :: string where "ActionRefreshReuse = ''session.reuse_detected''"

section \<open>Outbox events\<close>

text \<open>The payload \<open>NewUserEvent\<close> builds, field by field.\<close>

record payload =
  pl_user_id :: string
  pl_username :: string
  pl_email :: string
  pl_status :: string
  pl_role :: string
  pl_created :: instant
  pl_updated :: instant

record outbox_event =
  ev_id :: string
  ev_event :: string
  ev_payload :: "payload option"
  ev_attempts :: int
  ev_created :: instant

definition EventUserCreated :: string where "EventUserCreated = ''user.created''"
definition EventUserUpdated :: string where "EventUserUpdated = ''user.updated''"
definition EventUserBlocked :: string where "EventUserBlocked = ''user.blocked''"
definition EventUserUnblocked :: string where "EventUserUnblocked = ''user.unblocked''"
definition EventUserDeleted :: string where "EventUserDeleted = ''user.deleted''"
definition EventUserPasswordChanged :: string where
  "EventUserPasswordChanged = ''user.password_changed''"
definition EventRoleAssigned :: string where "EventRoleAssigned = ''user.role_assigned''"

lemmas event_defs = EventUserCreated_def EventUserUpdated_def EventUserBlocked_def
  EventUserUnblocked_def EventUserDeleted_def EventUserPasswordChanged_def EventRoleAssigned_def

definition NewUserEvent :: "string \<Rightarrow> user \<Rightarrow> outbox_event" where
  "NewUserEvent event u =
     \<lparr>ev_id = [], ev_event = event,
      ev_payload = Some \<lparr>pl_user_id = usr_id u, pl_username = usr_username u,
        pl_email = usr_email u, pl_status = usr_status u, pl_role = usr_role u,
        pl_created = usr_created u, pl_updated = usr_updated u\<rparr>,
      ev_attempts = 0, ev_created = zero_time\<rparr>"

text \<open>\<open>domain.OutboxEvent{Event: name}\<close>, what a use case hands to the adapter.\<close>

definition named_event :: "string \<Rightarrow> outbox_event" where
  "named_event name =
     \<lparr>ev_id = [], ev_event = name, ev_payload = None, ev_attempts = 0, ev_created = zero_time\<rparr>"

end
