(* ===== verification/Tables.thy ===== *)
theory Tables
  imports Domain "HOL-Library.List_Lexorder" "HOL-Library.Char_ord"
begin

text \<open>
  The tables of \<open>schema/schema.sql\<close> and the statements of
  \<open>internal/adapter/postgres/queries/*.sql\<close> (compiled to \<open>generated/*.sql.go\<close>).

  A table is the list of its rows in insertion order. A statement gets the server's \<open>now()\<close> and
  the value \<open>gen_random_uuid()\<close> would yield; it either fails with a storage error and changes
  nothing, or returns its rows and the next database. CHECK constraints are tested first, then
  unique indexes, then foreign keys, as the server does. Columns declared NOT NULL have a plain
  type, nullable ones an \<open>option\<close>.
\<close>

section \<open>Rows\<close>

record user_row =
  ur_id :: uuid
  ur_username :: "string option"
  ur_email :: "string option"
  ur_hash :: string
  ur_role :: string
  ur_status :: string
  ur_last_login :: "instant option"
  ur_created :: instant
  ur_updated :: instant

record role_row =
  rr_name :: string
  rr_rank :: int
  rr_system :: bool
  rr_created :: instant

record session_row =
  sr_id :: uuid
  sr_user :: uuid
  sr_family :: uuid
  sr_hash :: string
  sr_used :: "instant option"
  sr_expires :: instant
  sr_ip :: "string option"
  sr_agent :: "string option"
  sr_created :: instant

record audit_row =
  ar_id :: int
  ar_actor :: string
  ar_action :: string
  ar_target :: "uuid option"
  ar_ip :: "string option"
  ar_meta :: "(string \<times> meta) list"
  ar_created :: instant

record outbox_row =
  or_id :: uuid
  or_event :: string
  or_payload :: payload
  or_attempts :: int
  or_next :: instant
  or_delivered :: "instant option"
  or_failed :: "instant option"
  or_error :: "string option"
  or_created :: instant
  or_seq :: nat

record db =
  ga_users :: "user_row list"
  ga_roles :: "role_row list"
  ga_role_permissions :: "(string \<times> string) list"
  ga_sessions :: "session_row list"
  ga_audit_log :: "audit_row list"
  ga_outbox :: "outbox_row list"
  audit_serial :: int
  outbox_serial :: nat

type_synonym 'a stmt = "instant \<Rightarrow> uuid \<Rightarrow> db \<Rightarrow> pg_error + 'a \<times> db"

section \<open>Constraints\<close>

definition unique_violation :: pg_error where "unique_violation = PgError ''23505''"
definition foreign_key_violation :: pg_error where "foreign_key_violation = PgError ''23503''"
definition check_violation :: pg_error where "check_violation = PgError ''23514''"

lemmas sqlstate_defs = unique_violation_def foreign_key_violation_def check_violation_def

definition user_check :: "user_row \<Rightarrow> bool" where
  "user_check r \<longleftrightarrow>
     (ur_status r = StatusDeleted \<or> ur_username r \<noteq> None \<or> ur_email r \<noteq> None)
     \<and> ur_status r \<in> {StatusActive, StatusBlocked, StatusDeleted}"

text \<open>Another row already holds one of the row's identifiers.\<close>

definition user_clash :: "user_row list \<Rightarrow> user_row \<Rightarrow> bool" where
  "user_clash rows r \<longleftrightarrow> list_ex (\<lambda>x. ur_id x \<noteq> ur_id r \<and>
     (ur_username r \<noteq> None \<and> ur_username x = ur_username r \<or>
      ur_email r \<noteq> None \<and> ur_email x = ur_email r)) rows"

definition role_exists :: "db \<Rightarrow> string \<Rightarrow> bool" where
  "role_exists d name \<longleftrightarrow> list_ex (\<lambda>r. rr_name r = name) (ga_roles d)"

definition user_exists :: "db \<Rightarrow> uuid \<Rightarrow> bool" where
  "user_exists d i \<longleftrightarrow> list_ex (\<lambda>r. ur_id r = i) (ga_users d)"

definition one :: "'a option \<Rightarrow> db \<Rightarrow> pg_error + 'a \<times> db" where
  "one r d = (case r of None \<Rightarrow> Inl NoRows | Some a \<Rightarrow> Inr (a, d))"

section \<open>ga_users\<close>

definition q_CreateUser ::
  "string option \<Rightarrow> string option \<Rightarrow> string \<Rightarrow> string \<Rightarrow> string \<Rightarrow> user_row stmt" where
  "q_CreateUser username email hash role status now u d =
     (let r = \<lparr>ur_id = u, ur_username = username, ur_email = email, ur_hash = hash, ur_role = role,
                ur_status = status, ur_last_login = None, ur_created = now, ur_updated = now\<rparr>
      in if \<not> user_check r then Inl check_violation
         else if user_exists d u \<or> user_clash (ga_users d) r then Inl unique_violation
         else if \<not> role_exists d role then Inl foreign_key_violation
         else Inr (r, d\<lparr>ga_users := ga_users d @ [r]\<rparr>))"

definition q_GetUserByID :: "uuid \<Rightarrow> user_row stmt" where
  "q_GetUserByID i now u d = one (find (\<lambda>r. ur_id r = i) (ga_users d)) d"

definition q_GetUserByUsername :: "string option \<Rightarrow> user_row stmt" where
  "q_GetUserByUsername username now u d =
     one (find (\<lambda>r. username \<noteq> None \<and> ur_username r = username) (ga_users d)) d"

definition q_GetUserByEmail :: "string option \<Rightarrow> user_row stmt" where
  "q_GetUserByEmail email now u d =
     one (find (\<lambda>r. email \<noteq> None \<and> ur_email r = email) (ga_users d)) d"

definition coalesce :: "'a option \<Rightarrow> 'a \<Rightarrow> 'a" where
  "coalesce x y = (case x of None \<Rightarrow> y | Some v \<Rightarrow> v)"

definition or_else :: "'a option \<Rightarrow> 'a option \<Rightarrow> 'a option" where
  "or_else x y = (case x of None \<Rightarrow> y | Some v \<Rightarrow> Some v)"

text \<open>\<open>UPDATE ga_users SET ... WHERE id = i RETURNING *\<close>\<close>

definition update_user_row :: "uuid \<Rightarrow> (user_row \<Rightarrow> user_row) \<Rightarrow> db \<Rightarrow> pg_error + user_row \<times> db" where
  "update_user_row i f d =
     (case find (\<lambda>r. ur_id r = i) (ga_users d) of
        None \<Rightarrow> Inl NoRows
      | Some r \<Rightarrow>
          let r' = f r
          in if \<not> user_check r' then Inl check_violation
             else if user_clash (ga_users d) r' then Inl unique_violation
             else if \<not> role_exists d (ur_role r') then Inl foreign_key_violation
             else Inr (r', d\<lparr>ga_users := map (\<lambda>x. if ur_id x = i then r' else x) (ga_users d)\<rparr>))"

definition q_UpdateUser ::
  "uuid \<Rightarrow> string option \<Rightarrow> string option \<Rightarrow> string option \<Rightarrow> string option \<Rightarrow> user_row stmt" where
  "q_UpdateUser i username email status role now u d =
     update_user_row i (\<lambda>r. r\<lparr>ur_username := or_else username (ur_username r),
       ur_email := or_else email (ur_email r), ur_status := coalesce status (ur_status r),
       ur_role := coalesce role (ur_role r), ur_updated := now\<rparr>) d"

definition q_SetUserPassword :: "uuid \<Rightarrow> string \<Rightarrow> user_row stmt" where
  "q_SetUserPassword i hash now u d =
     update_user_row i (\<lambda>r. r\<lparr>ur_hash := hash, ur_updated := now\<rparr>) d"

definition q_SoftDeleteUser :: "uuid \<Rightarrow> user_row stmt" where
  "q_SoftDeleteUser i now u d =
     update_user_row i (\<lambda>r. r\<lparr>ur_status := ''deleted'', ur_username := None, ur_email := None,
       ur_role := ''user'', ur_updated := now\<rparr>) d"

text \<open>An \<open>:exec\<close> statement reports no missing row.\<close>

definition q_TouchUserLogin :: "uuid \<Rightarrow> unit stmt" where
  "q_TouchUserLogin i now u d =
     Inr ((), d\<lparr>ga_users :=
       map (\<lambda>x. if ur_id x = i then x\<lparr>ur_last_login := Some now\<rparr> else x) (ga_users d)\<rparr>)"

definition q_CountActiveSuperAdmins :: "int stmt" where
  "q_CountActiveSuperAdmins now u d =
     Inr (int (length (filter (\<lambda>x. ur_role x = ''superadmin'' \<and> ur_status x = ''active''
       \<and> role_exists d (ur_role x)) (ga_users d))), d)"

text \<open>
  The filter of \<open>ListUsers\<close> and \<open>CountUsers\<close>. \<open>like x q\<close> stands for \<open>x ILIKE '%' || q || '%'\<close>; a
  NULL column matches nothing.
\<close>

definition user_matches ::
  "(string \<Rightarrow> string \<Rightarrow> bool) \<Rightarrow> string option \<Rightarrow> string option \<Rightarrow> user_row \<Rightarrow> bool" where
  "user_matches like status q r \<longleftrightarrow>
     (case status of None \<Rightarrow> True | Some s \<Rightarrow> ur_status r = s) \<and>
     (case q of None \<Rightarrow> True
      | Some v \<Rightarrow> (case ur_username r of None \<Rightarrow> False | Some x \<Rightarrow> like x v)
               \<or> (case ur_email r of None \<Rightarrow> False | Some x \<Rightarrow> like x v))"

definition q_ListUsers ::
  "(string \<Rightarrow> string \<Rightarrow> bool) \<Rightarrow> string option \<Rightarrow> string option \<Rightarrow> int \<Rightarrow> int \<Rightarrow> user_row list stmt" where
  "q_ListUsers like status q lim off now u d =
     (if lim < 0 then Inl (PgError ''2201W'') else if off < 0 then Inl (PgError ''2201X'')
      else Inr (take (nat lim) (drop (nat off)
        (sort_key (\<lambda>r. - ur_created r) (sort_key (\<lambda>r. - int (ur_id r))
          (filter (user_matches like status q) (ga_users d))))), d))"

definition q_CountUsers ::
  "(string \<Rightarrow> string \<Rightarrow> bool) \<Rightarrow> string option \<Rightarrow> string option \<Rightarrow> int stmt" where
  "q_CountUsers like status q now u d =
     Inr (int (length (filter (user_matches like status q) (ga_users d))), d)"

section \<open>ga_roles and ga_role_permissions\<close>

definition role_clash :: "db \<Rightarrow> role_row \<Rightarrow> bool" where
  "role_clash d r \<longleftrightarrow> list_ex (\<lambda>x. rr_name x \<noteq> rr_name r \<and> rr_rank x = rr_rank r) (ga_roles d)"

definition q_CreateRole :: "string \<Rightarrow> int \<Rightarrow> bool \<Rightarrow> role_row stmt" where
  "q_CreateRole name rank sys now u d =
     (let r = \<lparr>rr_name = name, rr_rank = rank, rr_system = sys, rr_created = now\<rparr>
      in if rank < 0 then Inl check_violation
         else if role_exists d name \<or> role_clash d r then Inl unique_violation
         else Inr (r, d\<lparr>ga_roles := ga_roles d @ [r]\<rparr>))"

definition q_GetRole :: "string \<Rightarrow> role_row stmt" where
  "q_GetRole name now u d = one (find (\<lambda>r. rr_name r = name) (ga_roles d)) d"

definition q_ListRoles :: "role_row list stmt" where
  "q_ListRoles now u d = Inr (sort_key (\<lambda>r. - rr_rank r) (ga_roles d), d)"

definition q_UpdateRole :: "string \<Rightarrow> int option \<Rightarrow> bool option \<Rightarrow> role_row stmt" where
  "q_UpdateRole name rank sys now u d =
     (case find (\<lambda>r. rr_name r = name) (ga_roles d) of
        None \<Rightarrow> Inl NoRows
      | Some r \<Rightarrow>
          let r' = r\<lparr>rr_rank := coalesce rank (rr_rank r), rr_system := coalesce sys (rr_system r)\<rparr>
          in if rr_rank r' < 0 then Inl check_violation
             else if role_clash d r' then Inl unique_violation
             else Inr (r', d\<lparr>ga_roles := map (\<lambda>x. if rr_name x = name then r' else x) (ga_roles d)\<rparr>))"

definition q_CountUsersWithRole :: "string \<Rightarrow> int stmt" where
  "q_CountUsersWithRole name now u d =
     Inr (int (length (filter (\<lambda>x. ur_role x = name) (ga_users d))), d)"

text \<open>The permissions of a deleted role go with it (\<open>ON DELETE CASCADE\<close>).\<close>

definition q_DeleteRole :: "string \<Rightarrow> unit stmt" where
  "q_DeleteRole name now u d =
     (if list_ex (\<lambda>x. ur_role x = name) (ga_users d) \<and> role_exists d name
      then Inl foreign_key_violation
      else Inr ((), d\<lparr>ga_roles := filter (\<lambda>r. rr_name r \<noteq> name) (ga_roles d),
        ga_role_permissions := filter (\<lambda>p. fst p \<noteq> name) (ga_role_permissions d)\<rparr>))"

definition q_DeleteRolePermissions :: "string \<Rightarrow> unit stmt" where
  "q_DeleteRolePermissions name now u d =
     Inr ((), d\<lparr>ga_role_permissions := filter (\<lambda>p. fst p \<noteq> name) (ga_role_permissions d)\<rparr>)"

definition q_AddRolePermission :: "string \<Rightarrow> string \<Rightarrow> unit stmt" where
  "q_AddRolePermission name perm now u d =
     (if (name, perm) \<in> set (ga_role_permissions d) then Inr ((), d)
      else if \<not> role_exists d name then Inl foreign_key_violation
      else Inr ((), d\<lparr>ga_role_permissions := ga_role_permissions d @ [(name, perm)]\<rparr>))"

definition perms_of :: "db \<Rightarrow> string \<Rightarrow> string list" where
  "perms_of d name = map snd (filter (\<lambda>p. fst p = name) (ga_role_permissions d))"

definition q_ListRolePermissions :: "string \<Rightarrow> string list stmt" where
  "q_ListRolePermissions name now u d = Inr (sort (perms_of d name), d)"

definition q_GetUserRole :: "uuid \<Rightarrow> role_row stmt" where
  "q_GetUserRole i now u d =
     (case find (\<lambda>r. ur_id r = i \<and> ur_status r = ''active'') (ga_users d) of
        None \<Rightarrow> Inl NoRows
      | Some r \<Rightarrow> one (find (\<lambda>x. rr_name x = ur_role r) (ga_roles d)) d)"

definition q_GetUserRolePermissions :: "uuid \<Rightarrow> string list stmt" where
  "q_GetUserRolePermissions i now u d =
     Inr (concat (map (\<lambda>r. perms_of d (ur_role r)) (filter (\<lambda>r. ur_id r = i) (ga_users d))), d)"

text \<open>\<open>ON CONFLICT (name) DO NOTHING RETURNING *\<close>: an existing name yields no row.\<close>

definition q_SeedRole :: "string \<Rightarrow> int \<Rightarrow> bool \<Rightarrow> role_row stmt" where
  "q_SeedRole name rank sys now u d =
     (if 0 \<le> rank \<and> role_exists d name then Inl NoRows else q_CreateRole name rank sys now u d)"

definition q_SeedRolePermission :: "string \<Rightarrow> string \<Rightarrow> unit stmt" where
  "q_SeedRolePermission = q_AddRolePermission"

section \<open>ga_sessions\<close>

definition q_CreateSession ::
  "uuid \<Rightarrow> uuid \<Rightarrow> string \<Rightarrow> instant option \<Rightarrow> string option \<Rightarrow> string option \<Rightarrow> session_row stmt" where
  "q_CreateSession user family hash expires ip agent now u d =
     (case expires of
        None \<Rightarrow> Inl (PgError ''23502'')
      | Some x \<Rightarrow>
          let r = \<lparr>sr_id = u, sr_user = user, sr_family = family, sr_hash = hash, sr_used = None,
                    sr_expires = x, sr_ip = ip, sr_agent = agent, sr_created = now\<rparr>
          in if list_ex (\<lambda>s. sr_id s = u \<or> sr_hash s = hash) (ga_sessions d) then Inl unique_violation
             else if \<not> user_exists d user then Inl foreign_key_violation
             else Inr (r, d\<lparr>ga_sessions := ga_sessions d @ [r]\<rparr>))"

definition q_GetSessionByRefreshHash :: "string \<Rightarrow> session_row stmt" where
  "q_GetSessionByRefreshHash hash now u d = one (find (\<lambda>s. sr_hash s = hash) (ga_sessions d)) d"

definition q_GetSessionByID :: "uuid \<Rightarrow> session_row stmt" where
  "q_GetSessionByID i now u d = one (find (\<lambda>s. sr_id s = i) (ga_sessions d)) d"

definition spendable :: "string \<Rightarrow> instant \<Rightarrow> session_row \<Rightarrow> bool" where
  "spendable hash now s \<longleftrightarrow> sr_hash s = hash \<and> sr_used s = None \<and> sr_expires s > now"

definition q_SpendSession :: "string \<Rightarrow> session_row stmt" where
  "q_SpendSession hash now u d =
     (case find (spendable hash now) (ga_sessions d) of
        None \<Rightarrow> Inl NoRows
      | Some s \<Rightarrow> Inr (s\<lparr>sr_used := Some now\<rparr>,
          d\<lparr>ga_sessions := map (\<lambda>x. if spendable hash now x then x\<lparr>sr_used := Some now\<rparr> else x)
            (ga_sessions d)\<rparr>))"

text \<open>A DELETE and the number of rows it removed.\<close>

definition delete_sessions :: "(session_row \<Rightarrow> bool) \<Rightarrow> db \<Rightarrow> pg_error + int \<times> db" where
  "delete_sessions P d =
     Inr (int (length (filter P (ga_sessions d))),
          d\<lparr>ga_sessions := filter (\<lambda>s. \<not> P s) (ga_sessions d)\<rparr>)"

definition q_DeleteSessionFamily :: "uuid \<Rightarrow> int stmt" where
  "q_DeleteSessionFamily family now u d = delete_sessions (\<lambda>s. sr_family s = family) d"

definition q_DeleteSession :: "uuid \<Rightarrow> int stmt" where
  "q_DeleteSession i now u d = delete_sessions (\<lambda>s. sr_id s = i) d"

definition q_DeleteUserSessions :: "uuid \<Rightarrow> int stmt" where
  "q_DeleteUserSessions user now u d = delete_sessions (\<lambda>s. sr_user s = user) d"

definition q_ListLiveUserSessions :: "uuid \<Rightarrow> session_row list stmt" where
  "q_ListLiveUserSessions user now u d =
     Inr (sort_key (\<lambda>s. - sr_created s)
       (filter (\<lambda>s. sr_user s = user \<and> sr_used s = None \<and> sr_expires s > now) (ga_sessions d)), d)"

definition q_DeleteExpiredSessions :: "int stmt" where
  "q_DeleteExpiredSessions now u d = delete_sessions (\<lambda>s. sr_expires s < now) d"

section \<open>ga_audit_log\<close>

definition q_InsertAuditEntry ::
  "string \<Rightarrow> string \<Rightarrow> uuid option \<Rightarrow> string option \<Rightarrow> (string \<times> meta) list \<Rightarrow> unit stmt" where
  "q_InsertAuditEntry actor action target ip meta now u d =
     Inr ((), d\<lparr>ga_audit_log := ga_audit_log d @
        [\<lparr>ar_id = audit_serial d, ar_actor = actor, ar_action = action, ar_target = target,
          ar_ip = ip, ar_meta = meta, ar_created = now\<rparr>],
        audit_serial := audit_serial d + 1\<rparr>)"

text \<open>\<open>ORDER BY created_at DESC, id DESC\<close>\<close>

definition newest_first :: "audit_row list \<Rightarrow> audit_row list" where
  "newest_first rows = sort_key (\<lambda>r. - ar_created r) (sort_key (\<lambda>r. - ar_id r) rows)"

definition q_ListAuditEntries ::
  "uuid option \<Rightarrow> string option \<Rightarrow> int \<Rightarrow> int \<Rightarrow> audit_row list stmt" where
  "q_ListAuditEntries target action lim off now u d =
     (if lim < 0 then Inl (PgError ''2201W'') else if off < 0 then Inl (PgError ''2201X'')
      else Inr (take (nat lim) (drop (nat off) (newest_first
       (filter (\<lambda>r. (target = None \<or> ar_target r = target) \<and> (action = None \<or> Some (ar_action r) = action))
         (ga_audit_log d)))), d))"

text \<open>A comparison with NULL holds for no row.\<close>

definition earlier :: "instant \<Rightarrow> instant option \<Rightarrow> bool" where
  "earlier t cutoff \<longleftrightarrow> (case cutoff of None \<Rightarrow> False | Some c \<Rightarrow> t < c)"

definition q_DeleteAuditEntriesBefore :: "instant option \<Rightarrow> int stmt" where
  "q_DeleteAuditEntriesBefore cutoff now u d =
     Inr (int (length (filter (\<lambda>r. earlier (ar_created r) cutoff) (ga_audit_log d))),
          d\<lparr>ga_audit_log := filter (\<lambda>r. \<not> earlier (ar_created r) cutoff) (ga_audit_log d)\<rparr>)"

definition q_DeleteAuditEntriesBeyond :: "int \<Rightarrow> int stmt" where
  "q_DeleteAuditEntriesBeyond keep now u d =
     (if keep < 0 then Inl (PgError ''2201W'') else let kept = map ar_id (take (nat keep) (newest_first (ga_audit_log d)))
      in Inr (int (length (filter (\<lambda>r. ar_id r \<notin> set kept) (ga_audit_log d))),
           d\<lparr>ga_audit_log := filter (\<lambda>r. ar_id r \<in> set kept) (ga_audit_log d)\<rparr>))"

section \<open>ga_outbox\<close>

definition q_InsertOutboxEvent :: "string \<Rightarrow> payload \<Rightarrow> unit stmt" where
  "q_InsertOutboxEvent event pl now u d =
     (if list_ex (\<lambda>r. or_id r = u) (ga_outbox d) then Inl unique_violation
      else Inr ((), d\<lparr>ga_outbox := ga_outbox d @
        [\<lparr>or_id = u, or_event = event, or_payload = pl, or_attempts = 0, or_next = now,
          or_delivered = None, or_failed = None, or_error = None, or_created = now,
          or_seq = outbox_serial d\<rparr>],
        outbox_serial := outbox_serial d + 1\<rparr>))"

definition pending :: "outbox_row \<Rightarrow> bool" where
  "pending r \<longleftrightarrow> or_delivered r = None \<and> or_failed r = None"

definition due :: "instant \<Rightarrow> outbox_row \<Rightarrow> bool" where
  "due now r \<longleftrightarrow> pending r \<and> or_next r \<le> now"

text \<open>
  The claimed rows are those the subquery selects, the first \<open>lim\<close> due rows by \<open>seq\<close>. The
  statement returns them as the UPDATE visits them; the order of the table is taken here, which
  is the order of \<open>seq\<close>, since rows are only appended.
\<close>

definition claimed_ids :: "int \<Rightarrow> instant \<Rightarrow> db \<Rightarrow> uuid list" where
  "claimed_ids lim now d = map or_id (take (nat lim) (sort_key or_seq (filter (due now) (ga_outbox d))))"

definition q_ClaimDueOutboxEvents :: "int \<Rightarrow> int \<Rightarrow> outbox_row list stmt" where
  "q_ClaimDueOutboxEvents lim lease_seconds now u d =
     (if lim < 0 then Inl (PgError ''2201W'') else let ids = claimed_ids lim now d;
          lease = (\<lambda>r. r\<lparr>or_next := now + lease_seconds * Second\<rparr>)
      in Inr (map lease (filter (\<lambda>r. or_id r \<in> set ids) (ga_outbox d)),
           d\<lparr>ga_outbox := map (\<lambda>r. if or_id r \<in> set ids then lease r else r) (ga_outbox d)\<rparr>))"

definition q_MarkOutboxDelivered :: "uuid \<Rightarrow> unit stmt" where
  "q_MarkOutboxDelivered i now u d =
     Inr ((), d\<lparr>ga_outbox := map (\<lambda>r. if or_id r = i
       then r\<lparr>or_delivered := Some now, or_attempts := or_attempts r + 1, or_error := None\<rparr> else r)
       (ga_outbox d)\<rparr>)"

text \<open>What the server takes as \<open>text\<close>, its encoding being UTF-8: valid UTF-8 without a zero byte.\<close>

definition pg_text :: "string \<Rightarrow> bool" where
  "pg_text s \<longleftrightarrow> valid_utf8 s \<and> list_all (\<lambda>c. byte c \<noteq> 0) s"

definition q_MarkOutboxFailed :: "uuid \<Rightarrow> string option \<Rightarrow> instant option \<Rightarrow> bool \<Rightarrow> unit stmt" where
  "q_MarkOutboxFailed i err next giveUp now u d =
     (if \<not> (case err of None \<Rightarrow> True | Some s \<Rightarrow> pg_text s) then Inl (PgError ''22021'')
      else case next of
        None \<Rightarrow> if list_ex (\<lambda>r. or_id r = i) (ga_outbox d) then Inl (PgError ''23502'') else Inr ((), d)
      | Some n \<Rightarrow> Inr ((), d\<lparr>ga_outbox := map (\<lambda>r. if or_id r = i
          then r\<lparr>or_attempts := or_attempts r + 1, or_error := err, or_next := n,
                 or_failed := (if giveUp then Some now else None)\<rparr> else r) (ga_outbox d)\<rparr>))"

definition delete_outbox :: "(outbox_row \<Rightarrow> bool) \<Rightarrow> db \<Rightarrow> pg_error + int \<times> db" where
  "delete_outbox P d =
     Inr (int (length (filter P (ga_outbox d))), d\<lparr>ga_outbox := filter (\<lambda>r. \<not> P r) (ga_outbox d)\<rparr>)"

definition q_DeleteOutboxEventsBefore :: "instant option \<Rightarrow> int stmt" where
  "q_DeleteOutboxEventsBefore cutoff now u d =
     delete_outbox (\<lambda>r. earlier (or_created r) cutoff \<and> \<not> pending r) d"

definition q_CountPendingOutboxEvents :: "int stmt" where
  "q_CountPendingOutboxEvents now u d = Inr (int (length (filter pending (ga_outbox d))), d)"

definition q_DeleteStuckOutboxEvents :: "instant option \<Rightarrow> int stmt" where
  "q_DeleteStuckOutboxEvents cutoff now u d =
     delete_outbox (\<lambda>r. earlier (or_created r) cutoff \<and> pending r) d"

end
