(* ===== verification/World.thy ===== *)
theory World
  imports Tables
begin

text \<open>
  The running program: the database, Redis, the clock, the random source, and what may go wrong
  between them.

  Nothing is assumed about time: every reading, of Go's \<open>time.Now()\<close> or of the server's \<open>now()\<close>,
  takes the next element of \<open>readings\<close>, whatever it is (and repeats the last one when the list
  is exhausted), so skew and clocks that step back are included. Every statement and every
  \<open>COMMIT\<close> takes the next element of \<open>faults\<close>: it runs, is refused by the server, does not reach it,
  or takes effect without the client learning of it. A theorem over all worlds is a theorem over
  all of these.
\<close>

section \<open>State\<close>

datatype fault = Fine | Refused string | Unreachable | Lost

record 'r world =
  db :: db
  cache :: 'r
  clock :: instant
  readings :: "instant list"
  faults :: "fault list"
  draws :: nat
  tx_now :: "instant option"

type_synonym ('r, 'a) io = "('r world, error, 'a) act"

definition Now :: "('r world, 'e, instant) act" where
  "Now w = (case readings w of
      [] \<Rightarrow> (Inr (clock w), w)
    | t # ts \<Rightarrow> (Inr t, w\<lparr>clock := t, readings := ts\<rparr>))"

definition next_fault :: "('r world, 'e, fault) act" where
  "next_fault w = (case faults w of [] \<Rightarrow> (Inr Fine, w) | f # fs \<Rightarrow> (Inr f, w\<lparr>faults := fs\<rparr>))"

text \<open>A draw from a source of randomness: the n-th draw of the run.\<close>

definition draw :: "(nat \<Rightarrow> 'a) \<Rightarrow> ('r world, 'e, 'a) act" where
  "draw f w = (Inr (f (draws w)), w\<lparr>draws := draws w + 1\<rparr>)"

text \<open>\<open>uuid.NewString()\<close> and \<open>rand.Read(make([]byte, n))\<close>\<close>

definition NewString :: "ext \<Rightarrow> ('r world, 'e, string) act" where
  "NewString e = draw (\<lambda>n. uuid_text e (uuid_new e n))"

definition rand_Read :: "ext \<Rightarrow> nat \<Rightarrow> ('r, string) io" where
  "rand_Read e len = andthen (draw (\<lambda>n. rand_read e n len))
     (\<lambda>r. case r of None \<Rightarrow> raise (Opaque ''rand'') | Some buf \<Rightarrow> ret buf)"

section \<open>Statements and transactions\<close>

text \<open>The server's \<open>now()\<close>: the start of the transaction, or of the statement outside one.\<close>

definition server_now :: "('r world, 'e, instant) act" where
  "server_now w = (case tx_now w of None \<Rightarrow> Now w | Some t \<Rightarrow> (Inr t, w))"

definition run_stmt :: "'a stmt \<Rightarrow> instant \<Rightarrow> uuid \<Rightarrow> ('r world, pg_error, 'a) act" where
  "run_stmt st now u w = (case st now u (db w) of
      Inl err \<Rightarrow> (Inl err, w)
    | Inr (a, d) \<Rightarrow> (Inr a, w\<lparr>db := d\<rparr>))"

definition exec_stmt :: "ext \<Rightarrow> 'a stmt \<Rightarrow> ('r world, pg_error, 'a) act" where
  "exec_stmt e st =
     andthen next_fault (\<lambda>f.
     andthen server_now (\<lambda>now.
     andthen (draw (uuid_new e)) (\<lambda>u.
       case f of
         Fine \<Rightarrow> run_stmt st now u
       | Refused code \<Rightarrow> raise (PgError code)
       | Unreachable \<Rightarrow> raise ConnError
       | Lost \<Rightarrow> attempt (run_stmt st now u) (\<lambda>_. raise ConnError))))"

definition Begin :: "('r world, pg_error, instant) act" where
  "Begin = andthen next_fault (\<lambda>f. case f of
       Refused code \<Rightarrow> raise (PgError code)
     | Unreachable \<Rightarrow> raise ConnError
     | _ \<Rightarrow> Now)"

definition Commit :: "db \<Rightarrow> ('r world, pg_error, unit) act" where
  "Commit before w = (case next_fault w of
      (Inl e, w') \<Rightarrow> (Inl e, w')
    | (Inr f, w') \<Rightarrow> (case f of
         Fine \<Rightarrow> (Inr (), w')
       | Lost \<Rightarrow> (Inl ConnError, w')
       | Refused code \<Rightarrow> (Inl (PgError code), w'\<lparr>db := before\<rparr>)
       | Unreachable \<Rightarrow> (Inl ConnError, w'\<lparr>db := before\<rparr>)))"

text \<open>
  \<open>withTx\<close>. The deferred \<open>Rollback\<close> runs on every way out; after a successful commit it does
  nothing.
\<close>

definition withTx :: "('r, 'a) io \<Rightarrow> ('r, 'a) io" where
  "withTx fn w = (case Begin w of
      (Inl e, w1) \<Rightarrow> (Inl (Wrap ''postgres: begin'' (ErrPg e)), w1)
    | (Inr t, w1) \<Rightarrow> (case fn (w1\<lparr>tx_now := Some t\<rparr>) of
        (Inl err, w2) \<Rightarrow> (Inl err, w2\<lparr>db := db w1, tx_now := tx_now w1\<rparr>)
      | (Inr a, w2) \<Rightarrow> (case Commit (db w1) w2 of
          (Inl e, w3) \<Rightarrow> (Inl (Wrap ''postgres: commit'' (ErrPg e)), w3\<lparr>tx_now := tx_now w1\<rparr>)
        | (Inr _, w3) \<Rightarrow> (Inr a, w3\<lparr>tx_now := tx_now w1\<rparr>))))"

section \<open>What they leave alone\<close>

lemma frame_Now: "(\<And>w c rs. f (w\<lparr>clock := c, readings := rs\<rparr>) = f w) \<Longrightarrow> frame f Now"
  by (simp add: frame_def Now_def split: list.split)

lemma frame_next_fault: "(\<And>w fs. f (w\<lparr>faults := fs\<rparr>) = f w) \<Longrightarrow> frame f next_fault"
  by (simp add: frame_def next_fault_def split: list.split)

lemma frame_draw: "(\<And>w n. f (w\<lparr>draws := n\<rparr>) = f w) \<Longrightarrow> frame f (draw g)"
  by (simp add: frame_def draw_def)

lemma frame_server_now:
  "(\<And>w c rs. f (w\<lparr>clock := c, readings := rs\<rparr>) = f w) \<Longrightarrow> frame f server_now"
  by (simp add: frame_def server_now_def Now_def split: list.split option.split)

lemma frame_rand_Read: "(\<And>w n. f (w\<lparr>draws := n\<rparr>) = f w) \<Longrightarrow> frame f (rand_Read e n)"
  unfolding rand_Read_def by (intro frame_rules frame_draw)

lemma frame_NewString: "(\<And>w n. f (w\<lparr>draws := n\<rparr>) = f w) \<Longrightarrow> frame f (NewString e)"
  unfolding NewString_def by (intro frame_draw)

lemmas frame_world [frame_rules] =
  frame_Now [of db, simplified] frame_Now [of cache, simplified]
  frame_next_fault [of db, simplified] frame_next_fault [of cache, simplified]
  frame_draw [of db, simplified] frame_draw [of cache, simplified]
  frame_server_now [of db, simplified] frame_server_now [of cache, simplified]
  frame_rand_Read [of db, simplified] frame_rand_Read [of cache, simplified]
  frame_NewString [of db, simplified] frame_NewString [of cache, simplified]

lemma draw_Inr: "draw f w = (Inr x, w') \<longleftrightarrow> x = f (draws w) \<and> w' = w\<lparr>draws := draws w + 1\<rparr>"
  by (auto simp: draw_def)

section \<open>Statements as relations\<close>

text \<open>
  What a statement may do to the database, whatever happens to it on the way: \<open>stmt_rel\<close> is its
  effect under some reading of the clock and some fresh id. Properties of \<open>exec_stmt\<close> follow from
  the corresponding property of the statement.
\<close>

definition stmt_keeps :: "(db \<Rightarrow> bool) \<Rightarrow> 'a stmt \<Rightarrow> bool" where
  "stmt_keeps P st \<longleftrightarrow> (\<forall>now u d a d'. st now u d = Inr (a, d') \<longrightarrow> P d \<longrightarrow> P d')"

definition stmt_pure :: "'a stmt \<Rightarrow> bool" where
  "stmt_pure st \<longleftrightarrow> (\<forall>now u d a d'. st now u d = Inr (a, d') \<longrightarrow> d' = d)"

lemma stmt_keepsI: "(\<And>now u d a d'. st now u d = Inr (a, d') \<Longrightarrow> P d \<Longrightarrow> P d') \<Longrightarrow> stmt_keeps P st"
  unfolding stmt_keeps_def by blast

lemma stmt_pureI: "(\<And>now u d a d'. st now u d = Inr (a, d') \<Longrightarrow> d' = d) \<Longrightarrow> stmt_pure st"
  unfolding stmt_pure_def by blast

lemma stmt_pure_keeps: "stmt_pure st \<Longrightarrow> stmt_keeps P st"
  unfolding stmt_pure_def stmt_keeps_def by blast

lemma keeps_run_stmt: "stmt_keeps P st \<Longrightarrow> keeps (\<lambda>w. P (db w)) (run_stmt st now u)"
  by (auto simp: keeps_def run_stmt_def stmt_keeps_def split: sum.split prod.split)

lemma keeps_db: "frame db m \<Longrightarrow> keeps (\<lambda>w. P (db w)) m"
  by (rule frame_imp_keeps)

lemma keeps_case_fault [keeps_rules]:
  "keeps P a \<Longrightarrow> (\<And>c. keeps P (b c)) \<Longrightarrow> keeps P c \<Longrightarrow> keeps P d \<Longrightarrow>
     keeps P (case f of Fine \<Rightarrow> a | Refused x \<Rightarrow> b x | Unreachable \<Rightarrow> c | Lost \<Rightarrow> d)"
  by (cases f) auto

lemma keeps_exec_stmt:
  assumes "stmt_keeps P st" shows "keeps (\<lambda>w. P (db w)) (exec_stmt e st)"
  unfolding exec_stmt_def
  by (intro keeps_rules keeps_run_stmt assms keeps_db frame_world)

lemma frame_db_exec_stmt: "stmt_pure st \<Longrightarrow> frame db (exec_stmt e st)"
  unfolding frame_keeps by (intro allI keeps_exec_stmt stmt_pure_keeps)

lemma frame_cache_run_stmt: "frame cache (run_stmt st now u)"
  by (auto simp: frame_def run_stmt_def split: sum.split prod.split)

lemma frame_case_fault [frame_rules]:
  "frame g a \<Longrightarrow> (\<And>c. frame g (b c)) \<Longrightarrow> frame g c \<Longrightarrow> frame g d \<Longrightarrow>
     frame g (case f of Fine \<Rightarrow> a | Refused x \<Rightarrow> b x | Unreachable \<Rightarrow> c | Lost \<Rightarrow> d)"
  by (cases f) auto

lemma frame_cache_exec_stmt [frame_rules]: "frame cache (exec_stmt e st)"
  unfolding exec_stmt_def by (intro frame_rules frame_cache_run_stmt)

text \<open>A statement that answered ran: at some instant, with some fresh id, on the database as it was.\<close>

lemma exec_stmt_Inr:
  assumes "exec_stmt e st w = (Inr a, w')"
  obtains now u where "st now u (db w) = Inr (a, db w')" "cache w' = cache w"
    and "tx_now w' = tx_now w" and "\<forall>t. tx_now w = Some t \<longrightarrow> now = t"
    and "tx_now w = None \<longrightarrow> now = clock w'" and "\<exists>n. u = uuid_new e n \<and> draws w = n \<and> draws w' = n + 1"
  using assms
  by (auto simp: exec_stmt_def act_simps draw_def next_fault_def server_now_def Now_def run_stmt_def
      split: list.splits option.splits fault.splits sum.splits prod.splits)

lemma exec_stmt_Inl_db:
  assumes "exec_stmt e st w = (Inl err, w')"
  obtains "db w' = db w" | now u a where "err = ConnError" "st now u (db w) = Inr (a, db w')"
  using assms
  by (auto simp: exec_stmt_def act_simps draw_def next_fault_def server_now_def Now_def run_stmt_def
      split: list.splits option.splits fault.splits sum.splits prod.splits)

text \<open>A statement that found no row said so itself; a fault is never read as a missing row.\<close>

lemma exec_stmt_NoRows:
  assumes "exec_stmt e st w = (Inl NoRows, w')"
  obtains now u where "st now u (db w) = Inl NoRows" "db w' = db w"
    and "\<forall>t. tx_now w = Some t \<longrightarrow> now = t"
  using assms
  by (auto simp: exec_stmt_def act_simps draw_def next_fault_def server_now_def Now_def run_stmt_def
      split: list.splits option.splits fault.splits sum.splits prod.splits)

section \<open>Transactions\<close>

lemma Begin_db: "Begin w = (r, w') \<Longrightarrow> db w' = db w \<and> cache w' = cache w \<and> tx_now w' = tx_now w"
  by (auto simp: Begin_def act_simps next_fault_def Now_def split: list.splits fault.splits prod.splits)

lemma Commit_db: "Commit d0 w = (r, w') \<Longrightarrow> db w' = db w \<or> (r \<noteq> Inr () \<and> db w' = d0)"
  by (auto simp: Commit_def next_fault_def split: list.splits fault.splits)

lemma Commit_other: "Commit d0 w = (r, w') \<Longrightarrow> cache w' = cache w \<and> clock w' = clock w"
  by (auto simp: Commit_def next_fault_def split: list.splits fault.splits)

text \<open>A transaction that answered ran its body and kept everything the body did.\<close>

lemma withTx_Inr:
  assumes "withTx fn w = (Inr a, w')"
  obtains w1 w2 where "db w1 = db w" "cache w1 = cache w" "tx_now w1 \<noteq> None"
    "fn w1 = (Inr a, w2)" "db w' = db w2" "cache w' = cache w2"
proof -
  from assms obtain t v where b: "Begin w = (Inr t, v)"
    by (auto simp: withTx_def split: prod.splits sum.splits)
  from assms b obtain w2 where f: "fn (v\<lparr>tx_now := Some t\<rparr>) = (Inr a, w2)"
    by (auto simp: withTx_def split: prod.splits sum.splits)
  from assms b f obtain w3 where c: "Commit (db v) w2 = (Inr (), w3)" "w' = w3\<lparr>tx_now := tx_now v\<rparr>"
    by (auto simp: withTx_def split: prod.splits sum.splits)
  show thesis
  proof (rule that)
    show "fn (v\<lparr>tx_now := Some t\<rparr>) = (Inr a, w2)" by (rule f)
  qed (use Begin_db [OF b] Commit_db [OF c(1)] Commit_other [OF c(1)] c(2) in auto)
qed

text \<open>
  A transaction whose body refused left the database as it was. When only the commit failed, the
  body's changes are there or are not, all of them.
\<close>

lemma withTx_Inl:
  assumes "withTx fn w = (Inl err, w')"
  obtains "db w' = db w"
    | w1 w2 a where "db w1 = db w" "tx_now w1 \<noteq> None" "fn w1 = (Inr a, w2)" "db w' = db w2"
        "err = Wrap ''postgres: commit'' (ErrPg ConnError)"
proof (cases "Begin w")
  case (Pair r v)
  note b = Begin_db [OF Pair]
  show thesis
  proof (cases r)
    case (Inl e)
    with assms Pair b that(1) show thesis by (auto simp: withTx_def)
  next
    case (Inr t)
    obtain q w2 where f: "fn (v\<lparr>tx_now := Some t\<rparr>) = (q, w2)" by fastforce
    show thesis
    proof (cases q)
      case (Inl e)
      with assms Pair b Inr f that(1) show thesis by (auto simp: withTx_def)
    next
      case q: (Inr a)
      have "db v = db w" "tx_now (v\<lparr>tx_now := Some t\<rparr>) \<noteq> None" using b by simp_all
      note that2 = that(2) [of "v\<lparr>tx_now := Some t\<rparr>" a w2]
      from assms Pair b Inr f q that(1) that2 show thesis
        by (auto simp: withTx_def Commit_def next_fault_def split: list.splits fault.splits)
    qed
  qed
qed

lemma keeps_withTx [keeps_rules]:
  assumes "keeps (\<lambda>w. P (db w)) fn" shows "keeps (\<lambda>w. P (db w)) (withTx fn)"
  unfolding keeps_def
proof (intro allI impI)
  fix w :: "'a world"
  assume P: "P (db w)"
  obtain r w' where t: "withTx fn w = (r, w')" by fastforce
  have "P (db w')"
  proof (cases r)
    case (Inl err)
    show ?thesis
      using t unfolding Inl
      by (cases rule: withTx_Inl) (use P keepsD [OF assms] in auto)
  next
    case (Inr a)
    show ?thesis
      using t unfolding Inr
      by (rule withTx_Inr) (use P keepsD [OF assms] in auto)
  qed
  with t show "P (db (snd (withTx fn w)))" by simp
qed

lemma frame_cache_withTx [frame_rules]:
  assumes "frame cache fn" shows "frame cache (withTx fn)"
proof -
  have "cache (snd (withTx fn w)) = cache w" for w
  proof (cases "Begin w")
    case (Pair r v)
    have "cache (snd (fn (v\<lparr>tx_now := t\<rparr>))) = cache w" for t
      using assms Begin_db [OF Pair] by (simp add: frame_def)
    then show ?thesis
      using Pair Begin_db [OF Pair]
      by (auto simp: withTx_def dest: Commit_other split: prod.splits sum.splits) (metis snd_conv Commit_other)+
  qed
  then show ?thesis by (simp add: frame_def)
qed

end
