(* ===== verification/Storage.thy ===== *)
theory Storage
  imports Adapter
begin

text \<open>
  The invariant of the tables, \<open>db_ok\<close>: what the schema promises of every committed state (keys,
  unique indexes, CHECK constraints, foreign keys) and what the serial columns add. Every statement
  keeps it, hence every repository operation, hence every use case, whatever fails in between.
\<close>

named_theorems stmt_pures "statements that read only"
named_theorems stmt_oks "statements that keep db_ok"

section \<open>The invariant\<close>

definition users_ok :: "db \<Rightarrow> bool" where
  "users_ok d \<longleftrightarrow> distinct (map ur_id (ga_users d)) \<and>
     list_all (\<lambda>r. user_check r \<and> role_exists d (ur_role r) \<and> \<not> user_clash (ga_users d) r) (ga_users d)"

definition roles_ok :: "db \<Rightarrow> bool" where
  "roles_ok d \<longleftrightarrow> distinct (map rr_name (ga_roles d)) \<and> distinct (map rr_rank (ga_roles d)) \<and>
     list_all (\<lambda>r. 0 \<le> rr_rank r) (ga_roles d) \<and>
     distinct (ga_role_permissions d) \<and> list_all (\<lambda>p. role_exists d (fst p)) (ga_role_permissions d)"

definition sessions_ok :: "db \<Rightarrow> bool" where
  "sessions_ok d \<longleftrightarrow> distinct (map sr_id (ga_sessions d)) \<and> distinct (map sr_hash (ga_sessions d)) \<and>
     list_all (\<lambda>s. user_exists d (sr_user s)) (ga_sessions d)"

definition audit_ok :: "db \<Rightarrow> bool" where
  "audit_ok d \<longleftrightarrow> distinct (map ar_id (ga_audit_log d)) \<and>
     list_all (\<lambda>r. ar_id r < audit_serial d) (ga_audit_log d)"

definition outbox_ok :: "db \<Rightarrow> bool" where
  "outbox_ok d \<longleftrightarrow> distinct (map or_id (ga_outbox d)) \<and> sorted_wrt (<) (map or_seq (ga_outbox d)) \<and>
     list_all (\<lambda>r. or_seq r < outbox_serial d) (ga_outbox d)"

definition db_ok :: "db \<Rightarrow> bool" where
  "db_ok d \<longleftrightarrow> users_ok d \<and> roles_ok d \<and> sessions_ok d \<and> audit_ok d \<and> outbox_ok d"

lemmas db_ok_defs = db_ok_def users_ok_def roles_ok_def sessions_ok_def audit_ok_def outbox_ok_def

lemma role_exists_iff: "role_exists d name \<longleftrightarrow> name \<in> rr_name ` set (ga_roles d)"
  by (auto simp: role_exists_def list_ex_iff)

lemma user_exists_iff: "user_exists d i \<longleftrightarrow> i \<in> ur_id ` set (ga_users d)"
  by (auto simp: user_exists_def list_ex_iff)

lemma exists_frames [simp]:
  "role_exists (d\<lparr>ga_users := us\<rparr>) = role_exists d"
  "role_exists (d\<lparr>ga_role_permissions := ps\<rparr>) = role_exists d"
  "role_exists (d\<lparr>ga_sessions := ss\<rparr>) = role_exists d"
  "role_exists (d\<lparr>ga_audit_log := al\<rparr>) = role_exists d"
  "role_exists (d\<lparr>ga_outbox := ob\<rparr>) = role_exists d"
  "role_exists (d\<lparr>audit_serial := n\<rparr>) = role_exists d"
  "role_exists (d\<lparr>outbox_serial := k\<rparr>) = role_exists d"
  "user_exists (d\<lparr>ga_roles := rs\<rparr>) = user_exists d"
  "user_exists (d\<lparr>ga_role_permissions := ps\<rparr>) = user_exists d"
  "user_exists (d\<lparr>ga_sessions := ss\<rparr>) = user_exists d"
  "user_exists (d\<lparr>ga_audit_log := al\<rparr>) = user_exists d"
  "user_exists (d\<lparr>ga_outbox := ob\<rparr>) = user_exists d"
  "user_exists (d\<lparr>audit_serial := n\<rparr>) = user_exists d"
  "user_exists (d\<lparr>outbox_serial := k\<rparr>) = user_exists d"
  by (simp_all add: fun_eq_iff role_exists_def user_exists_def)

lemma exists_cong:
  "rr_name ` set (ga_roles d') = rr_name ` set (ga_roles d) \<Longrightarrow> role_exists d' = role_exists d"
  "ur_id ` set (ga_users d') = ur_id ` set (ga_users d) \<Longrightarrow> user_exists d' = user_exists d"
  by (auto simp: fun_eq_iff role_exists_iff user_exists_iff)

text \<open>The parts a change of one table does not concern.\<close>

lemma ok_frames [simp]:
  "roles_ok (d\<lparr>ga_users := us\<rparr>) = roles_ok d" "audit_ok (d\<lparr>ga_users := us\<rparr>) = audit_ok d"
  "outbox_ok (d\<lparr>ga_users := us\<rparr>) = outbox_ok d"
  "users_ok (d\<lparr>ga_role_permissions := ps\<rparr>) = users_ok d"
  "sessions_ok (d\<lparr>ga_roles := rs\<rparr>) = sessions_ok d" "audit_ok (d\<lparr>ga_roles := rs\<rparr>) = audit_ok d"
  "outbox_ok (d\<lparr>ga_roles := rs\<rparr>) = outbox_ok d"
  "sessions_ok (d\<lparr>ga_role_permissions := ps\<rparr>) = sessions_ok d"
  "audit_ok (d\<lparr>ga_role_permissions := ps\<rparr>) = audit_ok d"
  "outbox_ok (d\<lparr>ga_role_permissions := ps\<rparr>) = outbox_ok d"
  "users_ok (d\<lparr>ga_sessions := ss\<rparr>) = users_ok d" "roles_ok (d\<lparr>ga_sessions := ss\<rparr>) = roles_ok d"
  "audit_ok (d\<lparr>ga_sessions := ss\<rparr>) = audit_ok d" "outbox_ok (d\<lparr>ga_sessions := ss\<rparr>) = outbox_ok d"
  "users_ok (d\<lparr>ga_audit_log := al\<rparr>) = users_ok d" "roles_ok (d\<lparr>ga_audit_log := al\<rparr>) = roles_ok d"
  "sessions_ok (d\<lparr>ga_audit_log := al\<rparr>) = sessions_ok d" "outbox_ok (d\<lparr>ga_audit_log := al\<rparr>) = outbox_ok d"
  "users_ok (d\<lparr>audit_serial := n\<rparr>) = users_ok d" "roles_ok (d\<lparr>audit_serial := n\<rparr>) = roles_ok d"
  "sessions_ok (d\<lparr>audit_serial := n\<rparr>) = sessions_ok d" "outbox_ok (d\<lparr>audit_serial := n\<rparr>) = outbox_ok d"
  "users_ok (d\<lparr>ga_outbox := ob\<rparr>) = users_ok d" "roles_ok (d\<lparr>ga_outbox := ob\<rparr>) = roles_ok d"
  "sessions_ok (d\<lparr>ga_outbox := ob\<rparr>) = sessions_ok d" "audit_ok (d\<lparr>ga_outbox := ob\<rparr>) = audit_ok d"
  "users_ok (d\<lparr>outbox_serial := k\<rparr>) = users_ok d" "roles_ok (d\<lparr>outbox_serial := k\<rparr>) = roles_ok d"
  "sessions_ok (d\<lparr>outbox_serial := k\<rparr>) = sessions_ok d" "audit_ok (d\<lparr>outbox_serial := k\<rparr>) = audit_ok d"
  by (simp_all add: db_ok_defs role_exists_def user_exists_def)

lemma sessions_ok_users:
  "sessions_ok d \<Longrightarrow> ur_id ` set (ga_users d) \<subseteq> ur_id ` set us \<Longrightarrow> sessions_ok (d\<lparr>ga_users := us\<rparr>)"
  by (auto simp: sessions_ok_def list_all_iff user_exists_iff)

section \<open>Statements that only read\<close>

lemma one_Inr: "one r d = Inr (a, d') \<longleftrightarrow> r = Some a \<and> d' = d"
  by (auto simp: one_def split: option.splits)

lemma one_Inl: "one r d = Inl err \<longleftrightarrow> r = None \<and> err = NoRows"
  by (auto simp: one_def split: option.splits)

lemma reads [stmt_pures]:
  "stmt_pure (q_GetUserByID i)" "stmt_pure (q_GetUserByUsername un)" "stmt_pure (q_GetUserByEmail un)"
  "stmt_pure q_CountActiveSuperAdmins" "stmt_pure (q_ListUsers like st q lim off)"
  "stmt_pure (q_CountUsers like st q)" "stmt_pure (q_GetRole n)" "stmt_pure q_ListRoles"
  "stmt_pure (q_CountUsersWithRole n)" "stmt_pure (q_ListRolePermissions n)"
  "stmt_pure (q_GetUserRole i)" "stmt_pure (q_GetUserRolePermissions i)"
  "stmt_pure (q_GetSessionByRefreshHash h)" "stmt_pure (q_GetSessionByID i)"
  "stmt_pure (q_ListLiveUserSessions i)" "stmt_pure (q_ListAuditEntries tg ac lim off)"
  "stmt_pure q_CountPendingOutboxEvents"
  by (auto intro!: stmt_pureI simp: one_Inr q_GetUserByID_def q_GetUserByUsername_def
      q_GetUserByEmail_def q_CountActiveSuperAdmins_def q_ListUsers_def q_CountUsers_def q_GetRole_def
      q_ListRoles_def q_CountUsersWithRole_def q_ListRolePermissions_def q_GetUserRole_def
      q_GetUserRolePermissions_def q_GetSessionByRefreshHash_def q_GetSessionByID_def
      q_ListLiveUserSessions_def q_ListAuditEntries_def q_CountPendingOutboxEvents_def
      split: option.splits if_splits)

section \<open>Statements that keep the invariant\<close>

lemma stmt_ok_pure [stmt_oks]: "stmt_pure st \<Longrightarrow> stmt_keeps db_ok st"
  by (rule stmt_pure_keeps)

subsection \<open>Users\<close>

lemma user_clash_self: "distinct (map ur_id rows) \<Longrightarrow> r \<in> set rows \<Longrightarrow>
    user_clash rows r \<longleftrightarrow> (\<exists>x \<in> set rows. ur_id x \<noteq> ur_id r \<and>
     (ur_username r \<noteq> None \<and> ur_username x = ur_username r \<or> ur_email r \<noteq> None \<and> ur_email x = ur_email r))"
  by (auto simp: user_clash_def list_ex_iff)

lemma user_clash_iff: "user_clash rows r \<longleftrightarrow> (\<exists>x \<in> set rows. ur_id x \<noteq> ur_id r \<and>
     (ur_username r \<noteq> None \<and> ur_username x = ur_username r \<or> ur_email r \<noteq> None \<and> ur_email x = ur_email r))"
  by (auto simp: user_clash_def list_ex_iff)

lemma CreateUser_ok [stmt_oks]: "stmt_keeps db_ok (q_CreateUser un em h ro st)"
proof (rule stmt_keepsI)
  fix now u d r d'
  assume q: "q_CreateUser un em h ro st now u d = Inr (r, d')" and ok: "db_ok d"
  then have r: "ur_id r = u" "ur_role r = ro" "user_check r" "\<not> user_exists d u"
      "\<not> user_clash (ga_users d) r" "role_exists d ro" and d': "d' = d\<lparr>ga_users := ga_users d @ [r]\<rparr>"
    by (auto simp: q_CreateUser_def Let_def split: if_splits)
  have "users_ok d'"
    using ok r unfolding d'
    by (fastforce simp: db_ok_def users_ok_def list_all_iff user_clash_iff user_exists_iff role_exists_def)
  then show "db_ok d'"
    using ok by (auto simp: db_ok_def d' intro: sessions_ok_users)
qed

lemma update_user_row_Inr:
  assumes "update_user_row i f d = Inr (r', d')"
  obtains r where "find (\<lambda>r. ur_id r = i) (ga_users d) = Some r" "r' = f r" "user_check r'"
    "\<not> user_clash (ga_users d) r'" "role_exists d (ur_role r')"
    "d' = d\<lparr>ga_users := map (\<lambda>x. if ur_id x = i then r' else x) (ga_users d)\<rparr>"
  using assms by (auto simp: update_user_row_def Let_def split: option.splits if_splits)

lemma update_user_row_ok:
  assumes "\<And>r. ur_id (f r) = ur_id r" and "update_user_row i f d = Inr (r', d')" and ok: "db_ok d"
  shows "db_ok d'"
proof -
  from assms(2) obtain r where r: "find (\<lambda>r. ur_id r = i) (ga_users d) = Some r" "r' = f r" "user_check r'"
      "\<not> user_clash (ga_users d) r'" "role_exists d (ur_role r')"
    and d': "d' = d\<lparr>ga_users := map (\<lambda>x. if ur_id x = i then r' else x) (ga_users d)\<rparr>"
    by (rule update_user_row_Inr)
  have i: "ur_id r' = i" using find_Some_set [OF r(1)] assms(1) r(2) by simp
  have ids: "map ur_id (ga_users d') = map ur_id (ga_users d)"
    by (simp add: d' i)
  then have ids': "ur_id ` set (ga_users d') = ur_id ` set (ga_users d)"
    by (metis set_map)
  have "users_ok d'"
    unfolding users_ok_def ids
  proof (intro conjI)
    show "distinct (map ur_id (ga_users d))" using ok by (simp add: db_ok_defs)
    have old: "user_check x \<and> role_exists d (ur_role x) \<and> \<not> user_clash (ga_users d) x"
      if "x \<in> set (ga_users d)" for x
      using ok that by (auto simp: db_ok_def users_ok_def list_all_iff)
    have re: "role_exists d' = role_exists d" by (rule exists_cong) (simp add: d')
    have mem: "x = r' \<or> x \<in> set (ga_users d) \<and> ur_id x \<noteq> i" if "x \<in> set (ga_users d')" for x
      using that by (auto simp: d' split: if_splits)
    have "\<not> user_clash (ga_users d') x" if x: "x \<in> set (ga_users d')" for x
    proof
      assume "user_clash (ga_users d') x"
      then obtain y where y: "y \<in> set (ga_users d')" "ur_id y \<noteq> ur_id x"
        "ur_username x \<noteq> None \<and> ur_username y = ur_username x \<or> ur_email x \<noteq> None \<and> ur_email y = ur_email x"
        by (auto simp: user_clash_iff)
      with mem [OF x] mem [OF y(1)] old [of x] old [of y] r(4) i
      show False by (auto simp: user_clash_iff)
    qed
    with mem old r show "list_all (\<lambda>r. user_check r \<and> role_exists d' (ur_role r)
        \<and> \<not> user_clash (ga_users d') r) (ga_users d')"
      unfolding re list_all_iff by blast
  qed
  moreover have "sessions_ok d'"
    using ok ids' unfolding db_ok_def d' by (intro sessions_ok_users) auto
  ultimately show ?thesis using ok by (simp add: db_ok_def d')
qed

lemma user_updates_ok [stmt_oks]:
  "stmt_keeps db_ok (q_UpdateUser i un em st ro)" "stmt_keeps db_ok (q_SetUserPassword i h)"
  "stmt_keeps db_ok (q_SoftDeleteUser i)"
  by (auto intro!: stmt_keepsI elim!: update_user_row_ok [rotated]
      simp: q_UpdateUser_def q_SetUserPassword_def q_SoftDeleteUser_def)

lemma map_users_ok:
  assumes g: "\<And>x. ur_id (g x) = ur_id x \<and> ur_username (g x) = ur_username x \<and>
      ur_email (g x) = ur_email x \<and> ur_role (g x) = ur_role x \<and> ur_status (g x) = ur_status x"
    and ok: "db_ok d"
  shows "db_ok (d\<lparr>ga_users := map g (ga_users d)\<rparr>)"
proof -
  have "ur_id \<circ> g = ur_id" using g by (simp add: fun_eq_iff)
  moreover have "user_check (g x) = user_check x" "user_clash (map g rows) (g x) = user_clash rows x" for x rows
    using g by (simp_all add: user_check_def user_clash_iff)
  ultimately have "users_ok (d\<lparr>ga_users := map g (ga_users d)\<rparr>)"
    using ok g by (auto simp: db_ok_def users_ok_def list_all_iff role_exists_def)
  then show ?thesis
    using ok g by (auto simp: db_ok_def image_image intro: sessions_ok_users)
qed

lemma TouchUserLogin_ok [stmt_oks]: "stmt_keeps db_ok (q_TouchUserLogin i)"
  by (rule stmt_keepsI) (auto simp: q_TouchUserLogin_def intro: map_users_ok)

subsection \<open>Roles\<close>

lemma db_ok_roles:
  assumes ok: "db_ok d" and "set (map rr_name (ga_roles d)) \<subseteq> set (map rr_name rs)"
    and "distinct (map rr_name rs)" "distinct (map rr_rank rs)" "\<And>r. r \<in> set rs \<Longrightarrow> 0 \<le> rr_rank r"
  shows "db_ok (d\<lparr>ga_roles := rs\<rparr>)"
proof -
  have re: "role_exists d n \<Longrightarrow> role_exists (d\<lparr>ga_roles := rs\<rparr>) n" for n
    using assms(2) by (auto simp: role_exists_iff)
  show ?thesis
    using assms re by (auto simp: db_ok_def users_ok_def roles_ok_def list_all_iff)
qed

lemma CreateRole_ok [stmt_oks]: "stmt_keeps db_ok (q_CreateRole n rk sy)"
proof (rule stmt_keepsI)
  fix now u d r d'
  assume q: "q_CreateRole n rk sy now u d = Inr (r, d')" and ok: "db_ok d"
  then have r: "rr_name r = n" "rr_rank r = rk" "0 \<le> rk" "\<not> role_exists d n" "\<not> role_clash d r"
    and d': "d' = d\<lparr>ga_roles := ga_roles d @ [r]\<rparr>"
    by (auto simp: q_CreateRole_def Let_def split: if_splits)
  have "rk \<notin> rr_rank ` set (ga_roles d)"
  proof
    assume "rk \<in> rr_rank ` set (ga_roles d)"
    then obtain x where x: "x \<in> set (ga_roles d)" "rr_rank x = rk" by auto
    with r(4) have "rr_name x \<noteq> n" by (auto simp: role_exists_iff)
    with x r show False by (auto simp: role_clash_def list_ex_iff)
  qed
  then show "db_ok d'"
    unfolding d' using ok r
    by (intro db_ok_roles) (auto simp: db_ok_def roles_ok_def role_exists_iff list_all_iff)
qed

lemma SeedRole_ok [stmt_oks]: "stmt_keeps db_ok (q_SeedRole n rk sy)"
  using CreateRole_ok [of n rk sy]
  by (auto simp: stmt_keeps_def q_SeedRole_def split: if_splits)

lemma distinct_map_update:
  assumes "distinct (map f xs)" "distinct (map k xs)" "\<forall>x \<in> set xs. k x \<noteq> key \<longrightarrow> f x \<noteq> f y"
  shows "distinct (map f (map (\<lambda>x. if k x = key then y else x) xs))"
  using assms
proof (induction xs)
  case (Cons x xs)
  show ?case
  proof (cases "k x = key")
    case True
    with Cons.prems(2) have "\<forall>z \<in> set xs. k z \<noteq> key" by (auto simp: image_iff)
    then have "map (\<lambda>x. if k x = key then y else x) xs = xs" by (simp cong: map_cong)
    with Cons.prems True \<open>\<forall>z \<in> set xs. k z \<noteq> key\<close> show ?thesis by auto
  next
    case False
    have "f x \<noteq> f (if k z = key then y else z)" if "z \<in> set xs" for z
      using Cons.prems False that by (auto simp: image_iff)
    with Cons False show ?thesis by (auto simp: image_iff)
  qed
qed simp

lemma UpdateRole_ok [stmt_oks]: "stmt_keeps db_ok (q_UpdateRole n rk sy)"
proof (rule stmt_keepsI)
  fix now u d r' d'
  assume q: "q_UpdateRole n rk sy now u d = Inr (r', d')" and ok: "db_ok d"
  then obtain r where "find (\<lambda>r. rr_name r = n) (ga_roles d) = Some r"
      "rr_name r' = rr_name r" and rr: "0 \<le> rr_rank r'" "\<not> role_clash d r'"
    and d': "d' = d\<lparr>ga_roles := map (\<lambda>x. if rr_name x = n then r' else x) (ga_roles d)\<rparr>"
    by (auto simp: q_UpdateRole_def Let_def split: option.splits if_splits)
  then have n: "rr_name r' = n" by (auto dest: find_Some_set)
  have ids: "map rr_name (map (\<lambda>x. if rr_name x = n then r' else x) (ga_roles d)) = map rr_name (ga_roles d)"
    by (simp add: n)
  show "db_ok d'"
    unfolding d'
  proof (rule db_ok_roles [OF ok], unfold ids)
    show "distinct (map rr_rank (map (\<lambda>x. if rr_name x = n then r' else x) (ga_roles d)))"
      using ok rr(2) n
      by (intro distinct_map_update) (auto simp: db_ok_def roles_ok_def role_clash_def list_ex_iff)
  qed (use ok rr in \<open>auto simp: db_ok_def roles_ok_def list_all_iff\<close>)
qed

lemma db_ok_perms:
  "db_ok d \<Longrightarrow> distinct ps \<Longrightarrow> (\<And>p. p \<in> set ps \<Longrightarrow> role_exists d (fst p)) \<Longrightarrow>
     db_ok (d\<lparr>ga_role_permissions := ps\<rparr>)"
  by (simp add: db_ok_def roles_ok_def role_exists_def list_all_iff)

lemma AddRolePermission_ok [stmt_oks]: "stmt_keeps db_ok (q_AddRolePermission n p)"
  by (rule stmt_keepsI)
    (fastforce simp: q_AddRolePermission_def db_ok_def roles_ok_def list_all_iff split: if_splits)

lemma SeedRolePermission_ok [stmt_oks]: "stmt_keeps db_ok (q_SeedRolePermission n p)"
  by (simp add: q_SeedRolePermission_def AddRolePermission_ok)

lemma DeleteRolePermissions_ok [stmt_oks]: "stmt_keeps db_ok (q_DeleteRolePermissions n)"
  by (rule stmt_keepsI)
    (auto simp: q_DeleteRolePermissions_def db_ok_def roles_ok_def list_all_iff role_exists_def)

lemma DeleteRole_ok [stmt_oks]: "stmt_keeps db_ok (q_DeleteRole n)"
proof (rule stmt_keepsI)
  fix now u d d' and a :: unit
  assume q: "q_DeleteRole n now u d = Inr (a, d')" and ok: "db_ok d"
  let ?rs = "filter (\<lambda>r. rr_name r \<noteq> n) (ga_roles d)"
  let ?ps = "filter (\<lambda>p. fst p \<noteq> n) (ga_role_permissions d)"
  from q have d': "d' = d\<lparr>ga_roles := ?rs, ga_role_permissions := ?ps\<rparr>"
    and free: "\<forall>x \<in> set (ga_users d). ur_role x = n \<longrightarrow> \<not> role_exists d n"
    by (auto simp: q_DeleteRole_def list_ex_iff split: if_splits)
  have re: "role_exists d' m \<longleftrightarrow> role_exists d m \<and> m \<noteq> n" for m
    by (auto simp: d' role_exists_iff)
  have "users_ok d'"
    using ok free re by (auto simp: db_ok_def users_ok_def list_all_iff d')
  moreover have "roles_ok d'"
    using ok re
    by (auto simp: db_ok_def roles_ok_def list_all_iff d' distinct_map_filter)
  ultimately show "db_ok d'" using ok by (simp add: db_ok_def d')
qed

subsection \<open>Sessions\<close>

lemma CreateSession_ok [stmt_oks]: "stmt_keeps db_ok (q_CreateSession us fam h ex ip ag)"
  by (rule stmt_keepsI)
    (auto simp: q_CreateSession_def Let_def db_ok_def sessions_ok_def list_all_iff list_ex_iff user_exists_def
      split: option.splits if_splits)

lemma db_ok_sessions:
  assumes "db_ok d" "distinct (map sr_id ss)" "distinct (map sr_hash ss)"
    "\<And>s. s \<in> set ss \<Longrightarrow> user_exists d (sr_user s)"
  shows "db_ok (d\<lparr>ga_sessions := ss\<rparr>)"
  using assms by (simp add: db_ok_def sessions_ok_def user_exists_def list_all_iff)

lemma SpendSession_ok [stmt_oks]: "stmt_keeps db_ok (q_SpendSession h)"
proof (rule stmt_keepsI)
  fix now u d s d'
  assume q: "q_SpendSession h now u d = Inr (s, d')" and ok: "db_ok d"
  let ?g = "\<lambda>x. if spendable h now x then x\<lparr>sr_used := Some now\<rparr> else x"
  from q have d': "d' = d\<lparr>ga_sessions := map ?g (ga_sessions d)\<rparr>"
    by (auto simp: q_SpendSession_def split: option.splits)
  have g: "sr_id \<circ> ?g = sr_id" "sr_hash \<circ> ?g = sr_hash" "sr_user (?g x) = sr_user x" for x
    by (simp_all add: fun_eq_iff)
  show "db_ok d'"
    unfolding d' using ok g
    by (intro db_ok_sessions) (auto simp: db_ok_def sessions_ok_def list_all_iff)
qed

lemma delete_sessions_ok: "delete_sessions P d = Inr (n, d') \<Longrightarrow> db_ok d \<Longrightarrow> db_ok d'"
  by (auto simp: delete_sessions_def db_ok_def sessions_ok_def list_all_iff distinct_map_filter)

lemma session_deletes_ok [stmt_oks]:
  "stmt_keeps db_ok (q_DeleteSessionFamily i)" "stmt_keeps db_ok (q_DeleteSession i)"
  "stmt_keeps db_ok (q_DeleteUserSessions i)" "stmt_keeps db_ok q_DeleteExpiredSessions"
  by (auto intro!: stmt_keepsI elim: delete_sessions_ok simp: q_DeleteSessionFamily_def
      q_DeleteSession_def q_DeleteUserSessions_def q_DeleteExpiredSessions_def)

subsection \<open>Audit log and outbox\<close>

lemma InsertAuditEntry_ok [stmt_oks]: "stmt_keeps db_ok (q_InsertAuditEntry ac an tg ip mt)"
  by (rule stmt_keepsI) (fastforce simp: q_InsertAuditEntry_def db_ok_def audit_ok_def list_all_iff)

lemma db_ok_audit_filter: "db_ok d \<Longrightarrow> db_ok (d\<lparr>ga_audit_log := filter P (ga_audit_log d)\<rparr>)"
  by (auto simp: db_ok_def audit_ok_def list_all_iff distinct_map_filter)

lemma audit_deletes_ok [stmt_oks]:
  "stmt_keeps db_ok (q_DeleteAuditEntriesBefore c)" "stmt_keeps db_ok (q_DeleteAuditEntriesBeyond n)"
  by (auto intro!: stmt_keepsI simp: q_DeleteAuditEntriesBefore_def q_DeleteAuditEntriesBeyond_def
      Let_def db_ok_audit_filter split: if_splits)

lemma InsertOutboxEvent_ok [stmt_oks]: "stmt_keeps db_ok (q_InsertOutboxEvent ev pl)"
  by (rule stmt_keepsI)
    (fastforce simp: q_InsertOutboxEvent_def db_ok_def outbox_ok_def list_all_iff list_ex_iff
      sorted_wrt_append split: if_splits)

lemma db_ok_outbox_map:
  assumes "db_ok d" "\<And>r. or_id (g r) = or_id r \<and> or_seq (g r) = or_seq r"
  shows "db_ok (d\<lparr>ga_outbox := map g (ga_outbox d)\<rparr>)"
proof -
  have "or_id \<circ> g = or_id" "or_seq \<circ> g = or_seq" using assms(2) by (simp_all add: fun_eq_iff)
  then show ?thesis using assms by (simp add: db_ok_def outbox_ok_def list_all_iff)
qed

lemma outbox_marks_ok [stmt_oks]:
  "stmt_keeps db_ok (q_ClaimDueOutboxEvents lim ls)" "stmt_keeps db_ok (q_MarkOutboxDelivered i)"
  "stmt_keeps db_ok (q_MarkOutboxFailed i er nx gu)"
  by (auto intro!: stmt_keepsI db_ok_outbox_map simp: q_ClaimDueOutboxEvents_def
      q_MarkOutboxDelivered_def q_MarkOutboxFailed_def Let_def split: if_splits option.splits)

lemma delete_outbox_ok: "delete_outbox P d = Inr (n, d') \<Longrightarrow> db_ok d \<Longrightarrow> db_ok d'"
  by (auto simp: delete_outbox_def db_ok_def outbox_ok_def list_all_iff distinct_map_filter
      sorted_wrt_map intro: sorted_wrt_filter)

lemma outbox_deletes_ok [stmt_oks]:
  "stmt_keeps db_ok (q_DeleteOutboxEventsBefore c)" "stmt_keeps db_ok (q_DeleteStuckOutboxEvents c)"
  by (auto intro!: stmt_keepsI elim: delete_outbox_ok
      simp: q_DeleteOutboxEventsBefore_def q_DeleteStuckOutboxEvents_def)

section \<open>Repository operations keep the invariant\<close>

lemma keeps_query [keeps_rules]: "stmt_keeps P st \<Longrightarrow> keeps (\<lambda>w. P (db w)) (query a nf st)"
  unfolding query_def by (intro keeps_rules keeps_exec_stmt)

lemma keeps_raw_query [keeps_rules]: "stmt_keeps P st \<Longrightarrow> keeps (\<lambda>w. P (db w)) (raw_query a st)"
  unfolding raw_query_def by (intro keeps_rules keeps_exec_stmt)

lemma frame_db_query [frame_rules]: "stmt_pure st \<Longrightarrow> frame db (query a nf st)"
  unfolding query_def by (intro frame_rules frame_db_exec_stmt)

lemma frame_cache_query [frame_rules]: "frame cache (query a nf st)"
  unfolding query_def by (intro frame_rules)

lemma frame_cache_raw_query [frame_rules]: "frame cache (raw_query a st)"
  unfolding raw_query_def by (intro frame_rules)

lemma keeps_parse_id [keeps_rules]: "keeps P (parse_id a s err)"
  unfolding parse_id_def by (intro keeps_rules)

lemma frame_parse_id [frame_rules]: "frame f (parse_id a s err)"
  unfolding parse_id_def by (intro frame_rules)

abbreviation keeps_ok :: "('r, 'a) io \<Rightarrow> bool" where
  "keeps_ok m \<equiv> keeps (\<lambda>w. db_ok (db w)) m"

lemma keeps_insertEvent [keeps_rules]: "keeps_ok (insertEvent a ev)"
  unfolding insertEvent_def by (intro keeps_rules stmt_oks)

lemma update_stmt_ok [stmt_oks]: "stmt_keeps db_ok (update_stmt p i)"
  by (simp add: update_stmt_def stmt_oks)

lemma session_stmt_ok [stmt_oks]: "stmt_keeps db_ok (session_stmt p i j)"
  by (simp add: session_stmt_def stmt_oks)

lemmas repo_defs = CreateUser_def GetUserByID_def GetUserByUsername_def GetUserByEmail_def
  UpdateUser_def UpdateUserAndRevokeSessions_def SetUserPassword_def
  SetPasswordAndRevokeSessions_def SoftDeleteUser_def TouchUserLogin_def
  CountActiveSuperAdmins_def ListUsers_def CountUsers_def CreateRole_def GetRole_def ListRoles_def
  UpdateRole_def DeleteRole_def ActorRole_def CreateSession_def
  GetSessionByID_def GetSessionByRefreshHash_def RotateSession_def DeleteSessionFamily_def
  DeleteSession_def DeleteUserSessions_def ListLiveUserSessions_def DeleteExpiredSessions_def
  InsertAuditEntry_def ListAuditEntries_def DeleteAuditEntriesBefore_def
  DeleteAuditEntriesBeyond_def ClaimDueOutboxEvents_def MarkOutboxDelivered_def
  MarkOutboxFailed_def DeleteOutboxEventsBefore_def CountPendingOutboxEvents_def
  DeleteStuckOutboxEvents_def

lemma keeps_replaceRolePermissions [keeps_rules]: "keeps_ok (replaceRolePermissions a n ps)"
  unfolding replaceRolePermissions_def by (intro keeps_rules stmt_oks)

lemma keeps_case_pg_error [keeps_rules]:
  "keeps P a \<Longrightarrow> (\<And>c. keeps P (b c)) \<Longrightarrow> keeps P d \<Longrightarrow>
     keeps P (case e of NoRows \<Rightarrow> a | PgError c \<Rightarrow> b c | ConnError \<Rightarrow> d)"
  by (cases e) auto

lemma frame_case_pg_error [frame_rules]:
  "frame f a \<Longrightarrow> (\<And>c. frame f (b c)) \<Longrightarrow> frame f d \<Longrightarrow>
     frame f (case e of NoRows \<Rightarrow> a | PgError c \<Rightarrow> b c | ConnError \<Rightarrow> d)"
  by (cases e) auto

lemma repo_keeps [keeps_rules]:
  "keeps_ok (CreateUser a cup)" "keeps_ok (UpdateUser a up)"
  "keeps_ok (UpdateUserAndRevokeSessions a up)" "keeps_ok (SetUserPassword a i h)"
  "keeps_ok (SetPasswordAndRevokeSessions a i h ev)" "keeps_ok (SoftDeleteUser a i ev)"
  "keeps_ok (TouchUserLogin a i)" "keeps_ok (CreateRole a ro)" "keeps_ok (UpdateRole a urp)"
  "keeps_ok (DeleteRole a n)" "keeps_ok (CreateSession a csp)" "keeps_ok (RotateSession a h csp)"
  "keeps_ok (DeleteSessionFamily a i)" "keeps_ok (DeleteSession a i)"
  "keeps_ok (DeleteUserSessions a i)" "keeps_ok (DeleteExpiredSessions a)"
  "keeps_ok (InsertAuditEntry a ae)" "keeps_ok (DeleteAuditEntriesBefore a c)"
  "keeps_ok (DeleteAuditEntriesBeyond a k)" "keeps_ok (ClaimDueOutboxEvents a lim ls)"
  "keeps_ok (MarkOutboxDelivered a i)" "keeps_ok (MarkOutboxFailed a i re na gu)"
  "keeps_ok (DeleteOutboxEventsBefore a c)" "keeps_ok (DeleteStuckOutboxEvents a c)"
  unfolding repo_defs Let_def
  by (intro keeps_rules keeps_exec_stmt stmt_oks stmt_pures | simp)+

lemma keeps_SeedRole [keeps_rules]: "keeps_ok (SeedRole a ro)"
  unfolding SeedRole_def by (intro keeps_rules keeps_exec_stmt stmt_oks)

text \<open>Reads leave the tables alone; no repository operation touches Redis.\<close>

lemma repo_reads [frame_rules]:
  "frame db (GetUserByID a i)" "frame db (GetUserByUsername a n)" "frame db (GetUserByEmail a n)"
  "frame db (CountActiveSuperAdmins a)" "frame db (ListUsers a lup)" "frame db (CountUsers a lup)"
  "frame db (GetRole a n)" "frame db (ListRoles a)" "frame db (ActorRole a i)"
  "frame db (GetSessionByID a i)" "frame db (GetSessionByRefreshHash a h)"
  "frame db (ListLiveUserSessions a i)" "frame db (ListAuditEntries a lap)"
  "frame db (CountPendingOutboxEvents a)"
  unfolding repo_defs by (intro frame_rules stmt_pures)+

lemma frame_cache_insertEvent [frame_rules]: "frame cache (insertEvent a ev)"
  unfolding insertEvent_def by (intro frame_rules)

lemma frame_cache_repo [frame_rules]:
  "frame cache (CreateUser a cup)" "frame cache (GetUserByID a i)" "frame cache (GetUserByUsername a n)"
  "frame cache (GetUserByEmail a n)" "frame cache (UpdateUser a up)"
  "frame cache (UpdateUserAndRevokeSessions a up)" "frame cache (SetUserPassword a i h)"
  "frame cache (SetPasswordAndRevokeSessions a i h ev)" "frame cache (SoftDeleteUser a i ev)"
  "frame cache (TouchUserLogin a i)" "frame cache (CountActiveSuperAdmins a)" "frame cache (GetRole a n)"
  "frame cache (ActorRole a i)" "frame cache (CreateSession a csp)" "frame cache (GetSessionByID a i)"
  "frame cache (GetSessionByRefreshHash a h)" "frame cache (RotateSession a h csp)"
  "frame cache (DeleteSessionFamily a i)" "frame cache (DeleteSession a i)"
  "frame cache (DeleteUserSessions a i)" "frame cache (InsertAuditEntry a ae)"
  unfolding repo_defs Let_def by (intro frame_rules | simp)+

lemma keeps_reads [keeps_rules]:
  "keeps_ok (GetUserByID a i)" "keeps_ok (GetUserByUsername a n)" "keeps_ok (GetUserByEmail a n)"
  "keeps_ok (CountActiveSuperAdmins a)" "keeps_ok (ListUsers a lup)" "keeps_ok (CountUsers a lup)"
  "keeps_ok (GetRole a n)" "keeps_ok (ListRoles a)" "keeps_ok (ActorRole a i)"
  "keeps_ok (GetSessionByID a i)" "keeps_ok (GetSessionByRefreshHash a h)"
  "keeps_ok (ListLiveUserSessions a i)" "keeps_ok (ListAuditEntries a lap)"
  "keeps_ok (CountPendingOutboxEvents a)"
  by (intro keeps_db repo_reads)+

end
