(* ===== verification/Specs.thy ===== *)
theory Specs
  imports Storage
begin

text \<open>
  What an answer of a repository operation means for the tables. A lemma \<open>op_Inr\<close> says which rows
  an answer was computed from and what the operation changed; the use cases are verified over
  these, without looking at statements or transactions again. All of them hold whatever faults the
  world has in store, since a call that was hit by one does not answer.
\<close>

named_theorems answers "what an answer of an operation means"

section \<open>Single statements\<close>

lemma query_Inr:
  assumes "query a nf st w = (Inr x, w')"
  obtains now u where "st now u (db w) = Inr (x, db w')" "tx_now w' = tx_now w"
    "\<forall>t. tx_now w = Some t \<longrightarrow> now = t" "tx_now w = None \<longrightarrow> now = clock w'"
  using assms by (auto simp: query_def map_err_Inr elim: exec_stmt_Inr)

lemma raw_query_Inr:
  assumes "raw_query a st w = (Inr x, w')"
  obtains now u where "st now u (db w) = Inr (x, db w')" "tx_now w' = tx_now w"
  using assms by (auto simp: raw_query_def map_err_Inr elim: exec_stmt_Inr)

lemma query_NotFound:
  assumes "query a (Some nf) st w = (Inl nf, w')" "nf \<noteq> ErrAlreadyExists" "\<And>x. nf \<noteq> ErrPg x"
  obtains now u where "st now u (db w) = Inl NoRows" "db w' = db w"
proof -
  from assms(1) obtain p where p: "exec_stmt (env a) st w = (Inl p, w')" "nf = MapError (Some nf) p"
    by (auto simp: query_def map_err_Inl)
  with assms(2, 3) have "p = NoRows"
    by (cases p) (auto simp: MapError_def split: if_splits)
  with p that show thesis by (auto elim: exec_stmt_NoRows)
qed

lemma parse_id_Inr [simp]:
  "parse_id a s err w = (Inr u, w') \<longleftrightarrow> uuid_parse (env a) s = Some u \<and> w' = w"
  by (auto simp: parse_id_def split: option.splits)

lemma parse_id_Inl [simp]:
  "parse_id a s err w = (Inl e, w') \<longleftrightarrow> uuid_parse (env a) s = None \<and> e = err \<and> w' = w"
  by (auto simp: parse_id_def split: option.splits)

section \<open>Events\<close>

text \<open>The effect of \<open>insertEvent\<close>: one pending row that carries the event, or nothing.\<close>

definition emitted :: "adapter \<Rightarrow> outbox_event option \<Rightarrow> db \<Rightarrow> db \<Rightarrow> bool" where
  "emitted a ev d d' \<longleftrightarrow>
     (case ev of
        None \<Rightarrow> d' = d
      | Some v \<Rightarrow>
          if emitEvents a then
            \<exists>r. or_event r = ev_event v \<and> ev_payload v = Some (or_payload r) \<and> pending r
              \<and> or_attempts r = 0
              \<and> d' = d\<lparr>ga_outbox := ga_outbox d @ [r], outbox_serial := outbox_serial d + 1\<rparr>
          else d' = d)"

lemma insertEvent_Inr:
  assumes "insertEvent a ev w = (Inr u, w')" shows "emitted a ev (db w) (db w') \<and> tx_now w' = tx_now w"
proof (cases ev)
  case None
  with assms show ?thesis by (simp add: insertEvent_def emitted_def)
next
  case (Some v)
  show ?thesis
  proof (cases "emitEvents a")
    case True
    with assms Some obtain pl where pl: "ev_payload v = Some pl"
      "raw_query a (q_InsertOutboxEvent (ev_event v) pl) w = (Inr u, w')"
      by (auto simp: insertEvent_def split: option.splits)
    from pl(2) obtain now i where
      "q_InsertOutboxEvent (ev_event v) pl now i (db w) = Inr (u, db w')" "tx_now w' = tx_now w"
      by (rule raw_query_Inr)
    then obtain r where "or_event r = ev_event v" "or_payload r = pl" "pending r" "or_attempts r = 0"
      "db w' = (db w)\<lparr>ga_outbox := ga_outbox (db w) @ [r], outbox_serial := outbox_serial (db w) + 1\<rparr>"
      by (intro that [of "\<lparr>or_id = i, or_event = ev_event v, or_payload = pl, or_attempts = 0, or_next = now,
          or_delivered = None, or_failed = None, or_error = None, or_created = now,
          or_seq = outbox_serial (db w)\<rparr>"])
        (auto simp: q_InsertOutboxEvent_def pending_def split: if_splits)
    with Some True pl(1) \<open>tx_now w' = tx_now w\<close> show ?thesis
      by (auto simp: emitted_def)
  qed (use assms Some in \<open>auto simp: insertEvent_def emitted_def\<close>)
qed

lemma emitted_tables:
  assumes "emitted a ev d d'"
  shows "ga_users d' = ga_users d" "ga_roles d' = ga_roles d" "ga_sessions d' = ga_sessions d"
    "ga_role_permissions d' = ga_role_permissions d" "ga_audit_log d' = ga_audit_log d"
  using assms by (auto simp: emitted_def split: option.splits if_splits)

section \<open>Users\<close>

definition user_row_of :: "db \<Rightarrow> uuid \<Rightarrow> user_row option" where
  "user_row_of d i = find (\<lambda>r. ur_id r = i) (ga_users d)"

definition role_row_of :: "db \<Rightarrow> string \<Rightarrow> role_row option" where
  "role_row_of d n = find (\<lambda>r. rr_name r = n) (ga_roles d)"

lemma user_row_of_Some: "user_row_of d i = Some r \<Longrightarrow> r \<in> set (ga_users d) \<and> ur_id r = i"
  by (auto simp: user_row_of_def dest: find_Some_set)

lemma role_row_of_Some: "role_row_of d n = Some r \<Longrightarrow> r \<in> set (ga_roles d) \<and> rr_name r = n"
  by (auto simp: role_row_of_def dest: find_Some_set)

lemma user_row_of_mem: "db_ok d \<Longrightarrow> r \<in> set (ga_users d) \<Longrightarrow> user_row_of d (ur_id r) = Some r"
  unfolding user_row_of_def by (rule find_unique) (simp_all add: db_ok_defs)

lemma role_row_of_mem: "db_ok d \<Longrightarrow> r \<in> set (ga_roles d) \<Longrightarrow> role_row_of d (rr_name r) = Some r"
  unfolding role_row_of_def by (rule find_unique) (simp_all add: db_ok_defs)

lemma GetUserByID_Inr [answers]:
  assumes "GetUserByID a i w = (Inr x, w')"
  shows "\<exists>u r. uuid_parse (env a) i = Some u \<and> user_row_of (db w) u = Some r \<and>
    x = toDomainUser (env a) r \<and> db w' = db w"
  using assms
  by (auto simp: GetUserByID_def act_inv q_GetUserByID_def one_Inr user_row_of_def elim!: query_Inr)

lemma GetUserByUsername_Inr [answers]:
  assumes "GetUserByUsername a n w = (Inr x, w')"
  shows "\<exists>r \<in> set (ga_users (db w)). x = toDomainUser (env a) r \<and> ur_username r = Some n \<and> n \<noteq> []
    \<and> db w' = db w"
  using assms
  by (auto simp: GetUserByUsername_def act_inv q_GetUserByUsername_def one_Inr text_in_def
      dest!: find_Some_set elim!: query_Inr split: if_splits)

lemma GetUserByEmail_Inr [answers]:
  assumes "GetUserByEmail a n w = (Inr x, w')"
  shows "\<exists>r \<in> set (ga_users (db w)). x = toDomainUser (env a) r \<and> ur_email r = Some n \<and> n \<noteq> []
    \<and> db w' = db w"
  using assms
  by (auto simp: GetUserByEmail_def act_inv q_GetUserByEmail_def one_Inr text_in_def
      dest!: find_Some_set elim!: query_Inr split: if_splits)

definition active_superadmin :: "user_row \<Rightarrow> bool" where
  "active_superadmin r \<longleftrightarrow> ur_role r = RoleSuperAdmin \<and> ur_status r = StatusActive"

definition superadmins :: "db \<Rightarrow> nat" where
  "superadmins d = length (filter active_superadmin (ga_users d))"

lemma CountActiveSuperAdmins_Inr [answers]:
  assumes "CountActiveSuperAdmins a w = (Inr n, w')"
  shows "db w' = db w \<and> (db_ok (db w) \<longrightarrow> n = int (superadmins (db w)))"
proof -
  from assms obtain now u where q: "q_CountActiveSuperAdmins now u (db w) = Inr (n, db w')"
    by (auto simp: CountActiveSuperAdmins_def elim: query_Inr)
  have "filter (\<lambda>x. ur_role x = ''superadmin'' \<and> ur_status x = ''active'' \<and> role_exists (db w) (ur_role x))
      (ga_users (db w)) = filter active_superadmin (ga_users (db w))" if "db_ok (db w)"
    using that
    by (intro filter_cong)
      (auto simp: active_superadmin_def RoleSuperAdmin_def StatusActive_def db_ok_defs list_all_iff)
  with q show ?thesis by (auto simp: q_CountActiveSuperAdmins_def superadmins_def)
qed

text \<open>Replacing the row of a user, as every UPDATE of \<open>ga_users\<close> does.\<close>

definition put_user :: "user_row \<Rightarrow> db \<Rightarrow> db" where
  "put_user r d = d\<lparr>ga_users := map (\<lambda>x. if ur_id x = ur_id r then r else x) (ga_users d)\<rparr>"

lemma update_user_row_put:
  assumes "update_user_row i f d = Inr (r', d')" "\<And>r. ur_id (f r) = ur_id r"
  shows "\<exists>r. user_row_of d i = Some r \<and> r' = f r \<and> d' = put_user r' d"
  using assms(1)
proof (rule update_user_row_Inr)
  fix r
  assume r: "find (\<lambda>r. ur_id r = i) (ga_users d) = Some r" "r' = f r"
    and "d' = d\<lparr>ga_users := map (\<lambda>x. if ur_id x = i then r' else x) (ga_users d)\<rparr>"
  moreover from r have "ur_id r' = i" using find_Some_set [OF r(1)] assms(2) by simp
  ultimately show ?thesis by (auto simp: user_row_of_def put_user_def)
qed

definition drop_user_sessions :: "uuid \<Rightarrow> db \<Rightarrow> db" where
  "drop_user_sessions i d = d\<lparr>ga_sessions := filter (\<lambda>s. sr_user s \<noteq> i) (ga_sessions d)\<rparr>"

definition patched :: "update_user_params \<Rightarrow> user_row \<Rightarrow> instant \<Rightarrow> user_row" where
  "patched p r now = r\<lparr>
     ur_username := or_else (Option.bind (uu_username p) text_in) (ur_username r),
     ur_email := or_else (Option.bind (uu_email p) text_in) (ur_email r),
     ur_status := coalesce (Option.bind (uu_status p) text_in) (ur_status r),
     ur_role := coalesce (textIn (uu_role p)) (ur_role r), ur_updated := now\<rparr>"

lemma query_update_user:
  assumes "query a nf st w = (Inr r', w')" "\<And>now u d. st now u d = update_user_row i (f now) d"
    and "\<And>now r. ur_id (f now r) = ur_id r"
  shows "\<exists>now r. user_row_of (db w) i = Some r \<and> r' = f now r \<and> db w' = put_user r' (db w)
    \<and> tx_now w' = tx_now w"
  using assms(1)
proof (rule query_Inr)
  fix now u
  assume "st now u (db w) = Inr (r', db w')" "tx_now w' = tx_now w"
  then show ?thesis
    using update_user_row_put [of i "f now" "db w" r' "db w'"] assms(2, 3) by auto
qed

lemma query_update_stmt:
  "query a nf (update_stmt p i) w = (Inr r', w') \<Longrightarrow>
     \<exists>now r. user_row_of (db w) i = Some r \<and> r' = patched p r now \<and> db w' = put_user r' (db w)
       \<and> tx_now w' = tx_now w"
  by (rule query_update_user [of a nf "update_stmt p i" w r' w' i "\<lambda>now r. patched p r now"])
    (simp_all add: update_stmt_def q_UpdateUser_def patched_def)

lemma query_drop_sessions:
  "query a nf (q_DeleteUserSessions i) w = (Inr n, w') \<Longrightarrow> db w' = drop_user_sessions i (db w)
     \<and> n = int (length (filter (\<lambda>s. sr_user s = i) (ga_sessions (db w))))"
  by (erule query_Inr) (auto simp: q_DeleteUserSessions_def delete_sessions_def drop_user_sessions_def)

lemma UpdateUser_Inr [answers]:
  assumes "UpdateUser a p w = (Inr x, w')"
  shows "\<exists>i r now. uuid_parse (env a) (uu_id p) = Some i \<and> user_row_of (db w) i = Some r \<and>
    x = toDomainUser (env a) (patched p r now) \<and>
    emitted a (eventFor (uu_event p) x) (put_user (patched p r now) (db w)) (db w')"
  using assms
  by (auto simp: UpdateUser_def act_inv Let_def elim!: withTx_Inr
      dest!: query_update_stmt insertEvent_Inr) blast

lemma UpdateUserAndRevokeSessions_Inr [answers]:
  assumes "UpdateUserAndRevokeSessions a p w = (Inr x, w')"
  shows "\<exists>i r now. uuid_parse (env a) (uu_id p) = Some i \<and> user_row_of (db w) i = Some r \<and>
    x = toDomainUser (env a) (patched p r now) \<and>
    emitted a (eventFor (uu_event p) x) (drop_user_sessions i (put_user (patched p r now) (db w))) (db w')"
  using assms
  by (auto simp: UpdateUserAndRevokeSessions_def act_inv Let_def elim!: withTx_Inr
      dest!: query_update_stmt query_drop_sessions insertEvent_Inr) blast

definition with_password :: "string \<Rightarrow> instant \<Rightarrow> user_row \<Rightarrow> user_row" where
  "with_password h now r = r\<lparr>ur_hash := h, ur_updated := now\<rparr>"

lemma query_SetUserPassword:
  "query a nf (q_SetUserPassword i h) w = (Inr r', w') \<Longrightarrow>
     \<exists>now r. user_row_of (db w) i = Some r \<and> r' = with_password h now r \<and> db w' = put_user r' (db w)
       \<and> tx_now w' = tx_now w"
  by (rule query_update_user [of a nf "q_SetUserPassword i h" w r' w' i "with_password h"])
    (simp_all add: q_SetUserPassword_def with_password_def [abs_def])

lemma SetPasswordAndRevokeSessions_Inr [answers]:
  assumes "SetPasswordAndRevokeSessions a s h ev w = (Inr x, w')"
  shows "\<exists>i r now. uuid_parse (env a) s = Some i \<and> user_row_of (db w) i = Some r \<and>
    x = toDomainUser (env a) (with_password h now r) \<and>
    emitted a (eventFor ev x) (drop_user_sessions i (put_user (with_password h now r) (db w))) (db w')"
  using assms
  by (auto simp: SetPasswordAndRevokeSessions_def act_inv Let_def elim!: withTx_Inr
      dest!: query_SetUserPassword query_drop_sessions insertEvent_Inr) blast

definition deleted_row :: "instant \<Rightarrow> user_row \<Rightarrow> user_row" where
  "deleted_row now r = r\<lparr>ur_status := StatusDeleted, ur_username := None, ur_email := None,
     ur_role := RoleUser, ur_updated := now\<rparr>"

lemma query_SoftDeleteUser:
  "query a nf (q_SoftDeleteUser i) w = (Inr r', w') \<Longrightarrow>
     \<exists>now r. user_row_of (db w) i = Some r \<and> r' = deleted_row now r \<and> db w' = put_user r' (db w)
       \<and> tx_now w' = tx_now w"
  by (rule query_update_user [of a nf "q_SoftDeleteUser i" w r' w' i deleted_row])
    (simp_all add: q_SoftDeleteUser_def deleted_row_def [abs_def] StatusDeleted_def RoleUser_def)

lemma SoftDeleteUser_Inr [answers]:
  assumes "SoftDeleteUser a s ev w = (Inr x, w')"
  shows "\<exists>i r now. uuid_parse (env a) s = Some i \<and> user_row_of (db w) i = Some r \<and>
    x = toDomainUser (env a) (deleted_row now r) \<and>
    emitted a (eventFor ev x) (drop_user_sessions i (put_user (deleted_row now r) (db w))) (db w')"
  using assms
  by (auto simp: SoftDeleteUser_def act_inv Let_def elim!: withTx_Inr
      dest!: query_SoftDeleteUser query_drop_sessions insertEvent_Inr) blast

lemma CreateUser_Inr [answers]:
  assumes "CreateUser a p w = (Inr x, w')"
  shows "\<exists>r. x = toDomainUser (env a) r \<and> ur_username r = text_in (cu_username p) \<and>
    ur_email r = text_in (cu_email p) \<and> ur_hash r = cu_hash p \<and>
    ur_role r = (if cu_role p = [] then RoleUser else cu_role p) \<and>
    ur_status r = (if cu_status p = [] then StatusActive else cu_status p) \<and>
    user_check r \<and> \<not> user_exists (db w) (ur_id r) \<and> \<not> user_clash (ga_users (db w)) r \<and>
    role_exists (db w) (ur_role r) \<and>
    emitted a (eventFor (cu_event p) x) ((db w)\<lparr>ga_users := ga_users (db w) @ [r]\<rparr>) (db w')"
proof -
  let ?role = "if cu_role p = [] then RoleUser else cu_role p"
  let ?status = "if cu_status p = [] then StatusActive else cu_status p"
  from assms obtain w1 w2 where w1: "db w1 = db w" "cache w1 = cache w" "tx_now w1 \<noteq> None"
    and b: "andthen (query a (Some ErrUserAlreadyExists) (q_CreateUser (text_in (cu_username p))
        (text_in (cu_email p)) (cu_hash p) ?role ?status))
      (\<lambda>row. let out = toDomainUser (env a) row in
         andthen (insertEvent a (map_option (\<lambda>ev. NewUserEvent (ev_event ev) out) (cu_event p)))
           (\<lambda>_. ret out)) w1 = (Inr x, w2)"
    and w2: "db w' = db w2" "cache w' = cache w2"
    unfolding CreateUser_def Let_def by (rule withTx_Inr)
  from b obtain r w3 where q: "query a (Some ErrUserAlreadyExists) (q_CreateUser (text_in (cu_username p))
        (text_in (cu_email p)) (cu_hash p) ?role ?status) w1 = (Inr r, w3)"
    and x: "toDomainUser (env a) r = x" "emitted a (eventFor (cu_event p) x) (db w3) (db w2)"
    unfolding Let_def by (auto simp only: act_inv ret_simp eventFor_def dest!: insertEvent_Inr)
  from q obtain now u where
    "q_CreateUser (text_in (cu_username p)) (text_in (cu_email p)) (cu_hash p) ?role ?status now u (db w1)
      = Inr (r, db w3)"
    by (rule query_Inr)
  with x w1 w2 show ?thesis
    by (intro exI [of _ r]) (auto simp: q_CreateUser_def Let_def split: if_splits)
qed

section \<open>Roles\<close>

lemma GetRole_Inr [answers]:
  assumes "GetRole a n w = (Inr x, w')"
  shows "\<exists>r. role_row_of (db w) n = Some r \<and> x = toDomainRole r (sort (perms_of (db w) n)) \<and> db w' = db w"
  using assms
  by (auto simp: GetRole_def act_inv q_GetRole_def one_Inr q_ListRolePermissions_def role_row_of_def
      elim!: query_Inr)

text \<open>The actor's role: the account is active, and the permissions are those of its role.\<close>

lemma ActorRole_Inr [answers]:
  assumes "ActorRole a s w = (Inr x, w')"
  shows "\<exists>i r rr. uuid_parse (env a) s = Some i \<and> r \<in> set (ga_users (db w)) \<and> ur_id r = i \<and>
    ur_status r = StatusActive \<and> role_row_of (db w) (ur_role r) = Some rr \<and>
    role_name x = rr_name rr \<and> role_rank x = rr_rank rr \<and> role_system x = rr_system rr \<and>
    (db_ok (db w) \<longrightarrow> set (role_perms x) = set (perms_of (db w) (ur_role r))) \<and> db w' = db w"
proof -
  from assms obtain i row perms w1 where i: "uuid_parse (env a) s = Some i"
    and q1: "query a (Some ErrUserNotFound) (q_GetUserRole i) w = (Inr row, w1)"
    and q2: "query a None (q_GetUserRolePermissions i) w1 = (Inr perms, w')"
    and x: "x = \<lparr>role_name = rr_name row, role_rank = rr_rank row, role_system = rr_system row,
          role_perms = perms, role_created = zero_time\<rparr>"
    by (auto simp: ActorRole_def act_inv)
  from q1 obtain r where r: "find (\<lambda>r. ur_id r = i \<and> ur_status r = ''active'') (ga_users (db w)) = Some r"
    "role_row_of (db w) (ur_role r) = Some row" "db w1 = db w"
    by (rule query_Inr) (auto simp: q_GetUserRole_def one_Inr role_row_of_def split: option.splits)
  from q2 have p: "perms = concat (map (\<lambda>r. perms_of (db w) (ur_role r))
      (filter (\<lambda>r. ur_id r = i) (ga_users (db w))))" "db w' = db w"
    using r(3) by (auto elim!: query_Inr simp: q_GetUserRolePermissions_def)
  from find_Some_set [OF r(1)] have m: "r \<in> set (ga_users (db w))" "ur_id r = i" "ur_status r = StatusActive"
    by (auto simp: StatusActive_def)
  have "set perms = set (perms_of (db w) (ur_role r))" if "db_ok (db w)"
  proof -
    have "y = r" if "y \<in> set (ga_users (db w))" "ur_id y = i" for y
      using distinct_map_inj [of ur_id "ga_users (db w)" y r] \<open>db_ok (db w)\<close> that m
      by (simp add: db_ok_def users_ok_def)
    then have "set (filter (\<lambda>r. ur_id r = i) (ga_users (db w))) = {r}"
      using m(1,2) unfolding set_filter by blast
    then show ?thesis by (simp add: p(1))
  qed
  then show ?thesis
    unfolding x using i m r(2) p(2) by (intro exI [of _ i] exI [of _ r] exI [of _ row] conjI impI) auto
qed

section \<open>Sessions\<close>

definition session_of_hash :: "db \<Rightarrow> string \<Rightarrow> session_row option" where
  "session_of_hash d h = find (\<lambda>s. sr_hash s = h) (ga_sessions d)"

lemma session_of_hash_Some: "session_of_hash d h = Some s \<Longrightarrow> s \<in> set (ga_sessions d) \<and> sr_hash s = h"
  by (auto simp: session_of_hash_def dest: find_Some_set)

lemma session_of_hash_mem:
  "db_ok d \<Longrightarrow> s \<in> set (ga_sessions d) \<Longrightarrow> session_of_hash d (sr_hash s) = Some s"
  unfolding session_of_hash_def by (rule find_unique) (simp_all add: db_ok_defs)

lemma GetSessionByRefreshHash_Inr [answers]:
  assumes "GetSessionByRefreshHash a h w = (Inr x, w')"
  shows "\<exists>s. session_of_hash (db w) h = Some s \<and> x = toDomainSession (env a) s \<and> db w' = db w"
  using assms
  by (auto simp: GetSessionByRefreshHash_def act_inv q_GetSessionByRefreshHash_def one_Inr
      session_of_hash_def elim!: query_Inr)

lemma GetSessionByID_Inr [answers]:
  assumes "GetSessionByID a i w = (Inr x, w')"
  shows "\<exists>u s. uuid_parse (env a) i = Some u \<and> s \<in> set (ga_sessions (db w)) \<and> sr_id s = u \<and>
    x = toDomainSession (env a) s \<and> db w' = db w"
  using assms
  by (auto simp: GetSessionByID_def act_inv q_GetSessionByID_def one_Inr
      dest!: find_Some_set elim!: query_Inr)

text \<open>The row a successful insert adds.\<close>

definition new_session :: "adapter \<Rightarrow> create_session_params \<Rightarrow> session_row \<Rightarrow> bool" where
  "new_session a p s \<longleftrightarrow> uuid_parse (env a) (cs_user p) = Some (sr_user s) \<and>
     uuid_parse (env a) (cs_family p) = Some (sr_family s) \<and> sr_hash s = cs_hash p \<and> sr_used s = None \<and>
     sr_expires s = cs_expires p"

definition add_session :: "session_row \<Rightarrow> db \<Rightarrow> db" where
  "add_session s d = d\<lparr>ga_sessions := ga_sessions d @ [s]\<rparr>"

lemma query_session_stmt:
  assumes "query a nf (session_stmt p i j) w = (Inr s, w')" "uuid_parse (env a) (cs_user p) = Some i"
    "uuid_parse (env a) (cs_family p) = Some j"
  shows "new_session a p s \<and> user_exists (db w) i \<and> sr_hash s \<notin> sr_hash ` set (ga_sessions (db w)) \<and>
    sr_id s \<notin> sr_id ` set (ga_sessions (db w)) \<and> db w' = add_session s (db w) \<and>
    sr_created s = (case tx_now w of Some t \<Rightarrow> t | None \<Rightarrow> clock w')"
  using assms
  by (fastforce simp: session_stmt_def q_CreateSession_def new_session_def add_session_def Let_def ts_def
      list_ex_iff image_iff elim!: query_Inr split: option.splits if_splits)

lemma CreateSession_Inr [answers]:
  assumes "CreateSession a p w = (Inr x, w')"
  shows "\<exists>s. new_session a p s \<and> user_exists (db w) (sr_user s) \<and> x = toDomainSession (env a) s \<and>
    sr_hash s \<notin> sr_hash ` set (ga_sessions (db w)) \<and> db w' = add_session s (db w)"
  using assms
  by (auto simp: CreateSession_def act_inv new_session_def dest!: query_session_stmt)

definition spend :: "string \<Rightarrow> instant \<Rightarrow> db \<Rightarrow> db" where
  "spend h now d = d\<lparr>ga_sessions :=
     map (\<lambda>x. if spendable h now x then x\<lparr>sr_used := Some now\<rparr> else x) (ga_sessions d)\<rparr>"

lemma exec_spend_Inr:
  assumes "exec_stmt e (q_SpendSession h) w = (Inr x, w')"
  shows "\<exists>now s. s \<in> set (ga_sessions (db w)) \<and> spendable h now s \<and> db w' = spend h now (db w) \<and>
    tx_now w' = tx_now w \<and> (\<forall>t. tx_now w = Some t \<longrightarrow> now = t)"
  using assms
proof (rule exec_stmt_Inr)
  fix now u
  assume q: "q_SpendSession h now u (db w) = Inr (x, db w')" and t: "tx_now w' = tx_now w"
    "\<forall>t. tx_now w = Some t \<longrightarrow> now = t"
  from q obtain s where "find (spendable h now) (ga_sessions (db w)) = Some s" "db w' = spend h now (db w)"
    by (auto simp: q_SpendSession_def spend_def split: option.splits)
  with t show ?thesis by (blast dest: find_Some_set)
qed

lemma RotateSession_Inr [answers]:
  assumes "RotateSession a h p w = (Inr x, w')"
  shows "\<exists>now s n. s \<in> set (ga_sessions (db w)) \<and> spendable h now s \<and> new_session a p n \<and>
    x = toDomainSession (env a) n \<and> sr_hash n \<notin> sr_hash ` set (ga_sessions (spend h now (db w))) \<and>
    sr_created n = now \<and> db w' = add_session n (spend h now (db w))"
proof -
  from assms obtain i j where ids: "uuid_parse (env a) (cs_user p) = Some i"
      "uuid_parse (env a) (cs_family p) = Some j"
    and tx: "withTx (andthen (map_err spend_error (exec_stmt (env a) (q_SpendSession h)))
      (\<lambda>_. andthen (query a None (session_stmt p i j)) (\<lambda>row. ret (toDomainSession (env a) row)))) w = (Inr x, w')"
    by (auto simp: RotateSession_def act_inv)
  from tx obtain w1 w4 where w1: "db w1 = db w" "cache w1 = cache w" "tx_now w1 \<noteq> None"
    and b: "andthen (map_err spend_error (exec_stmt (env a) (q_SpendSession h)))
      (\<lambda>_. andthen (query a None (session_stmt p i j)) (\<lambda>row. ret (toDomainSession (env a) row))) w1 = (Inr x, w4)"
    and w4: "db w' = db w4" "cache w' = cache w4"
    by (rule withTx_Inr)
  from b obtain sp n w2 w3 where sp: "exec_stmt (env a) (q_SpendSession h) w1 = (Inr sp, w2)"
    and cr: "query a None (session_stmt p i j) w2 = (Inr n, w4)" "toDomainSession (env a) n = x"
    by (auto simp only: act_inv ret_simp)
  from w1 obtain t where t: "tx_now w1 = Some t" by auto
  from exec_spend_Inr [OF sp] w1 t obtain s where s: "s \<in> set (ga_sessions (db w))" "spendable h t s"
    "db w2 = spend h t (db w)" "tx_now w2 = Some t"
    by auto
  from query_session_stmt [OF cr(1) ids] s cr w1 w4 show ?thesis by (intro exI [of _ t] exI [of _ s] exI [of _ n]) auto
qed

text \<open>
  A rotation that reports reuse found no live row with that hash, and changed nothing.
\<close>

lemma spend_error_reused: "spend_error p = ErrRefreshReused \<longleftrightarrow> p = NoRows"
  by (cases p) (auto simp: spend_error_def MapError_def)

lemma query_not_reused: "query a None st w \<noteq> (Inl ErrRefreshReused, w')"
proof
  assume "query a None st w = (Inl ErrRefreshReused, w')"
  then obtain p where "ErrRefreshReused = MapError None p" by (auto simp: query_def map_err_Inl)
  then show False by (cases p) (auto simp: MapError_def split: if_splits)
qed

lemma RotateSession_reused:
  assumes "RotateSession a h p w = (Inl ErrRefreshReused, w')"
  shows "db w' = db w"
  using assms
  by (auto simp: RotateSession_def act_inv elim!: withTx_Inl)

lemma delete_sessions_db: "delete_sessions P d = Inr (n, d') \<longleftrightarrow>
    n = int (length (filter P (ga_sessions d))) \<and> d' = d\<lparr>ga_sessions := filter (\<lambda>s. \<not> P s) (ga_sessions d)\<rparr>"
  by (auto simp: delete_sessions_def)

definition drop_family :: "uuid \<Rightarrow> db \<Rightarrow> db" where
  "drop_family j d = d\<lparr>ga_sessions := filter (\<lambda>s. sr_family s \<noteq> j) (ga_sessions d)\<rparr>"

lemma DeleteSessionFamily_Inr [answers]:
  assumes "DeleteSessionFamily a f w = (Inr n, w')"
  shows "\<exists>j. uuid_parse (env a) f = Some j \<and> db w' = drop_family j (db w) \<and>
    n = int (length (filter (\<lambda>s. sr_family s = j) (ga_sessions (db w))))"
  using assms
  by (auto simp: DeleteSessionFamily_def act_inv q_DeleteSessionFamily_def delete_sessions_db
      drop_family_def elim!: query_Inr)

lemma DeleteUserSessions_Inr [answers]:
  assumes "DeleteUserSessions a s w = (Inr n, w')"
  shows "\<exists>i. uuid_parse (env a) s = Some i \<and> db w' = drop_user_sessions i (db w) \<and>
    n = int (length (filter (\<lambda>s. sr_user s = i) (ga_sessions (db w))))"
  using assms by (auto simp: DeleteUserSessions_def act_inv dest!: query_drop_sessions)

lemma TouchUserLogin_Inr [answers]:
  assumes "TouchUserLogin a s w = (Inr x, w')"
  shows "\<exists>i now. uuid_parse (env a) s = Some i \<and> db w' = (db w)\<lparr>ga_users :=
       map (\<lambda>x. if ur_id x = i then x\<lparr>ur_last_login := Some now\<rparr> else x) (ga_users (db w))\<rparr>"
proof -
  from assms obtain i where i: "uuid_parse (env a) s = Some i"
    "query a (Some ErrUserNotFound) (q_TouchUserLogin i) w = (Inr x, w')"
    by (auto simp: TouchUserLogin_def act_inv)
  from i(2) obtain now u where "q_TouchUserLogin i now u (db w) = Inr (x, db w')" by (rule query_Inr)
  with i show ?thesis by (intro exI [of _ i] exI [of _ now]) (auto simp: q_TouchUserLogin_def)
qed

end
