(* ===== verification/Base64.thy ===== *)
theory Base64
  imports GoText
begin

text \<open>
  \<open>encoding/base64\<close> as the program uses it: the standard and the URL alphabet, unpadded
  (\<open>RawStdEncoding\<close>, \<open>RawURLEncoding\<close>) and padded (\<open>StdEncoding\<close>), strict or not. Decoding skips
  CR and LF, as the library does. The theorem of the theory is the round trip.
\<close>

section \<open>Alphabets\<close>

definition b64_char :: "bool \<Rightarrow> nat \<Rightarrow> char" where
  "b64_char url n =
     (if n < 26 then char_of (65 + n) else if n < 52 then char_of (71 + n)
      else if n < 62 then char_of (n - 4)
      else if n = 62 then (if url then CHR ''-'' else CHR ''+'')
      else (if url then CHR ''_'' else CHR ''/''))"

definition b64_val :: "bool \<Rightarrow> char \<Rightarrow> nat option" where
  "b64_val url c =
     (let n = byte c in
      if in_range 65 90 n then Some (n - 65)
      else if in_range 97 122 n then Some (n - 71)
      else if in_range 48 57 n then Some (n + 4)
      else if c = (if url then CHR ''-'' else CHR ''+'') then Some 62
      else if c = (if url then CHR ''_'' else CHR ''/'') then Some 63
      else None)"

lemma b64_val_char: "n < 64 \<Longrightarrow> b64_val url (b64_char url n) = Some n"
  by (auto simp: b64_val_def b64_char_def Let_def in_range_def byte_char_of byte_def)

text \<open>What an encoded byte can be: neither a newline nor a separator of the formats that use it.\<close>

definition b64_alphabet :: "bool \<Rightarrow> char \<Rightarrow> bool" where
  "b64_alphabet url c \<longleftrightarrow> b64_val url c \<noteq> None"

lemma b64_char_alphabet: "n < 64 \<Longrightarrow> b64_alphabet url (b64_char url n)"
  by (simp add: b64_alphabet_def b64_val_char)

section \<open>Encoding\<close>

fun b64_groups :: "nat list \<Rightarrow> nat list" where
  "b64_groups [] = []"
| "b64_groups [a] = [a div 4, a mod 4 * 16]"
| "b64_groups [a, b] = [a div 4, a mod 4 * 16 + b div 16, b mod 16 * 4]"
| "b64_groups (a # b # c # r) =
     [a div 4, a mod 4 * 16 + b div 16, b mod 16 * 4 + c div 64, c mod 64] @ b64_groups r"

text \<open>\<open>EncodeToString\<close> of the raw encodings, and of the padded one.\<close>

definition raw_encode :: "bool \<Rightarrow> string \<Rightarrow> string" where
  "raw_encode url s = map (b64_char url) (b64_groups (map byte s))"

definition std_encode :: "string \<Rightarrow> string" where
  "std_encode s =
     (let r = raw_encode False s in r @ replicate ((4 - length r mod 4) mod 4) (CHR ''=''))"

section \<open>Decoding\<close>

text \<open>In strict mode the bits of the last digit that encode nothing must be zero.\<close>

fun b64_bytes :: "bool \<Rightarrow> nat list \<Rightarrow> nat list option" where
  "b64_bytes strict [] = Some []"
| "b64_bytes strict [a] = None"
| "b64_bytes strict [a, b] =
     (if strict \<and> b mod 16 \<noteq> 0 then None else Some [a * 4 + b div 16])"
| "b64_bytes strict [a, b, c] =
     (if strict \<and> c mod 4 \<noteq> 0 then None else Some [a * 4 + b div 16, b mod 16 * 16 + c div 4])"
| "b64_bytes strict (a # b # c # d # r) =
     map_option (\<lambda>t. [a * 4 + b div 16, b mod 16 * 16 + c div 4, c mod 4 * 64 + d] @ t) (b64_bytes strict r)"

fun all_some :: "'a option list \<Rightarrow> 'a list option" where
  "all_some [] = Some []"
| "all_some (None # xs) = None"
| "all_some (Some x # xs) = map_option ((#) x) (all_some xs)"

definition newline :: "char \<Rightarrow> bool" where
  "newline c \<longleftrightarrow> byte c = 10 \<or> byte c = 13"

definition raw_decode :: "bool \<Rightarrow> bool \<Rightarrow> string \<Rightarrow> string option" where
  "raw_decode url strict s =
     (case all_some (map (b64_val url) (filter (\<lambda>c. \<not> newline c) s)) of
        None \<Rightarrow> None
      | Some vs \<Rightarrow> map_option (map char_of) (b64_bytes strict vs))"

text \<open>The padded form: quadruples, the last of which may end in one or two padding characters.\<close>

definition std_decode :: "string \<Rightarrow> string option" where
  "std_decode s =
     (let t = filter (\<lambda>c. \<not> newline c) s;
          body = dropWhile_end (\<lambda>c. c = CHR ''='') t
      in if length t mod 4 \<noteq> 0 \<or> length t - length body > 2 then None
         else raw_decode False False body)"

section \<open>Round trip\<close>

lemma b64_groups_bound: "list_all (\<lambda>b. b < 256) bs \<Longrightarrow> list_all (\<lambda>v. v < 64) (b64_groups bs)"
  by (induction bs rule: b64_groups.induct) auto

lemma byte_parts:
  assumes "(x::nat) < 256"
  shows "x div 16 mod 16 = x div 16" "x div 16 div 16 = 0" "x div 64 mod 4 = x div 64" "x div 64 div 4 = 0"
    "x div 4 * 4 + x mod 4 = x" "x div 16 * 16 + x mod 16 = x" "x div 64 * 64 + x mod 64 = x"
proof -
  have "x div 16 < 16" "x div 64 < 4" using assms by (simp_all add: less_mult_imp_div_less)
  then show "x div 16 mod 16 = x div 16" "x div 16 div 16 = 0" "x div 64 mod 4 = x div 64" "x div 64 div 4 = 0"
    by simp_all
qed (simp_all add: div_mult_mod_eq)

lemma b64_bytes_groups:
  "list_all (\<lambda>b. b < 256) bs \<Longrightarrow> b64_bytes strict (b64_groups bs) = Some bs"
  by (induction bs rule: b64_groups.induct) (auto simp: byte_parts)

lemma all_some_map: "all_some (map Some xs) = Some xs"
  by (induction xs) auto

lemma raw_encode_alphabet: "list_all (b64_alphabet url) (raw_encode url s)"
proof -
  have "list_all (\<lambda>v. v < 64) (b64_groups (map byte s))"
    by (intro b64_groups_bound) (simp add: list_all_iff byte_bound)
  then show ?thesis by (auto simp: raw_encode_def list_all_iff b64_char_alphabet)
qed

lemma b64_alphabet_not: "b64_alphabet url c \<Longrightarrow> \<not> newline c \<and> c \<noteq> CHR ''$'' \<and> c \<noteq> CHR ''.'' \<and> c \<noteq> CHR ''=''"
  by (auto simp: b64_alphabet_def b64_val_def newline_def Let_def in_range_def byte_def split: if_splits)

lemma raw_decode_encode: "raw_decode url strict (raw_encode url s) = Some s"
proof -
  let ?v = "b64_groups (map byte s)"
  have b: "list_all (\<lambda>b. b < 256) (map byte s)" by (simp add: list_all_iff byte_bound)
  have "filter (\<lambda>c. \<not> newline c) (raw_encode url s) = raw_encode url s"
    using raw_encode_alphabet [of url s] by (intro filter_True) (auto simp: list_all_iff b64_alphabet_not)
  moreover have "map (b64_val url) (raw_encode url s) = map Some ?v"
    using b64_groups_bound [OF b] by (simp add: raw_encode_def list_all_iff b64_val_char)
  moreover have "map (\<lambda>x. char_of (byte x)) s = s"
    by (simp add: char_of_byte)
  ultimately show ?thesis
    by (simp add: raw_decode_def all_some_map b64_bytes_groups [OF b] o_def)
qed

lemma raw_encode_length: "length (raw_encode url s) = (length s * 4 + 2) div 3"
proof -
  have "length (b64_groups bs) = (length bs * 4 + 2) div 3" for bs
    by (induction bs rule: b64_groups.induct) auto
  then show ?thesis by (simp add: raw_encode_def)
qed

lemma raw_encode_inj: "raw_encode url s = raw_encode url t \<longleftrightarrow> s = t"
  by (metis option.inject raw_decode_encode)

end
