(* ===== verification/Decimal.thy ===== *)
theory Decimal
  imports GoText
begin

text \<open>
  Decimal numbers in text: what \<open>%d\<close> and \<open>strconv\<close> print and parse, and the part of \<open>fmt.Sscanf\<close>
  the program uses (literals and \<open>%d\<close>; what is left of the input after the format is ignored).
\<close>

definition digit :: "char \<Rightarrow> bool" where
  "digit c \<longleftrightarrow> in_range 48 57 (byte c)"

definition digit_char :: "nat \<Rightarrow> char" where
  "digit_char n = char_of (48 + n)"

lemma digit_char: "n < 10 \<Longrightarrow> digit (digit_char n) \<and> byte (digit_char n) = 48 + n"
  by (auto simp: digit_def digit_char_def in_range_def byte_char_of)

function print_nat :: "nat \<Rightarrow> string" where
  "print_nat n = (if n < 10 then [digit_char n] else print_nat (n div 10) @ [digit_char (n mod 10)])"
  by pat_completeness auto
termination by (relation "measure id") auto

declare print_nat.simps [simp del]

definition print_int :: "int \<Rightarrow> string" where
  "print_int i = (if i < 0 then CHR ''-'' # print_nat (nat (- i)) else print_nat (nat i))"

text \<open>The value of a run of digits.\<close>

definition digits_val :: "string \<Rightarrow> nat" where
  "digits_val s = foldl (\<lambda>v c. v * 10 + (byte c - 48)) 0 s"

lemma print_nat_digits: "list_all digit (print_nat n) \<and> print_nat n \<noteq> []"
proof (induction n rule: print_nat.induct)
  case (1 n)
  then show ?case
    by (cases "n < 10") (simp_all add: print_nat.simps [of n] digit_char)
qed

lemma digits_val_print: "digits_val (print_nat n) = n"
proof (induction n rule: print_nat.induct)
  case (1 n)
  show ?case
  proof (cases "n < 10")
    case True
    then show ?thesis by (simp add: print_nat.simps [of n] digits_val_def digit_char)
  next
    case False
    then show ?thesis
      using 1 by (simp add: print_nat.simps [of n] digits_val_def digit_char)
  qed
qed

section \<open>Sscanf\<close>

text \<open>\<open>SkipSpace\<close>: spaces are skipped, a newline among them is an error.\<close>

definition skip_space :: "string \<Rightarrow> string option" where
  "skip_space s =
     (let rs = runes s
      in if \<exists>p \<in> set (takeWhile (is_space \<circ> fst) rs). fst p = 10 then None
         else Some (concat (map snd (dropWhile (is_space \<circ> fst) rs))))"

text \<open>\<open>%d\<close> into an unsigned integer of \<open>bits\<close> bits: the value and the rest of the input.\<close>

definition scan_uint :: "nat \<Rightarrow> string \<Rightarrow> (nat \<times> string) option" where
  "scan_uint bits s =
     (case skip_space s of
        None \<Rightarrow> None
      | Some t \<Rightarrow>
          let ds = takeWhile digit t; v = digits_val ds
          in if ds = [] \<or> int v \<ge> 2 ^ bits then None else Some (v, dropWhile digit t))"

text \<open>\<open>%d\<close> into an \<open>int\<close>: a sign may precede the digits.\<close>

definition scan_int :: "string \<Rightarrow> (int \<times> string) option" where
  "scan_int s =
     (case skip_space s of
        None \<Rightarrow> None
      | Some t \<Rightarrow>
          let neg = (case t of c # _ \<Rightarrow> c = CHR ''-'' | [] \<Rightarrow> False);
              t' = (case t of c # r \<Rightarrow> if c = CHR ''-'' \<or> c = CHR ''+'' then r else t | [] \<Rightarrow> t);
              ds = takeWhile digit t';
              v = (if neg then - int (digits_val ds) else int (digits_val ds))
          in if ds = [] \<or> v < - (2 ^ 63) \<or> v \<ge> 2 ^ 63 then None else Some (v, dropWhile digit t'))"

lemma digit_not_space: "digit c \<Longrightarrow> byte c < 128 \<and> \<not> is_space (byte c)"
  by (auto simp: digit_def is_space_def in_range_def)

lemma runes_digit: "digit c \<Longrightarrow> runes (c # s) = (byte c, [c]) # runes s"
  by (simp add: runes_Cons width_def decode_bytes_ascii digit_not_space)

lemma skip_space_digit: "digit c \<Longrightarrow> skip_space (c # s) = Some (c # s)"
  using runes_concat [of s] by (simp add: skip_space_def runes_digit digit_not_space)

lemma takeWhile_print: "t = [] \<or> \<not> digit (hd t) \<Longrightarrow>
    takeWhile digit (print_nat n @ t) = print_nat n \<and> dropWhile digit (print_nat n @ t) = t"
  using print_nat_digits [of n]
  by (cases t) (auto simp: list_all_iff takeWhile_append2 dropWhile_append2)

lemma skip_space_print: "skip_space (print_nat n @ t) = Some (print_nat n @ t)"
  using print_nat_digits [of n] by (cases "print_nat n") (auto intro: skip_space_digit)

lemma scan_uint_print:
  assumes "n < 2 ^ bits" "t = [] \<or> \<not> digit (hd t)"
  shows "scan_uint bits (print_nat n @ t) = Some (n, t)"
proof -
  have "int n < 2 ^ bits" using assms(1) by (metis of_nat_less_iff of_nat_numeral of_nat_power)
  then show ?thesis
    using print_nat_digits [of n] assms(2)
    by (simp add: scan_uint_def skip_space_print takeWhile_print Let_def digits_val_print not_le)
qed

lemma scan_int_print:
  assumes "n < 2 ^ 63" "t = [] \<or> \<not> digit (hd t)"
  shows "scan_int (print_nat n @ t) = Some (int n, t)"
proof -
  obtain c r where c: "print_nat n = c # r" "digit c"
    using print_nat_digits [of n] by (cases "print_nat n") auto
  then have "c \<noteq> CHR ''-''" "c \<noteq> CHR ''+''" by (auto simp: digit_def in_range_def byte_def)
  moreover have "int n < 2 ^ 63" using assms(1) by simp
  ultimately show ?thesis
    using skip_space_print [of n t] takeWhile_print [OF assms(2), of n] digits_val_print [of n] c
    by (simp add: scan_int_def Let_def)
qed

section \<open>strconv\<close>

text \<open>\<open>strconv.Atoi\<close>\<close>

definition Atoi :: "string \<Rightarrow> int option" where
  "Atoi s =
     (let neg = HasPrefix s ''-''; t = (if HasPrefix s ''-'' \<or> HasPrefix s ''+'' then tl s else s);
          v = (if neg then - int (digits_val t) else int (digits_val t))
      in if t = [] \<or> \<not> list_all digit t \<or> v < - (2 ^ 63) \<or> v \<ge> 2 ^ 63 then None else Some v)"

lemma Atoi_print: "n < 2 ^ 63 \<Longrightarrow> Atoi (print_nat n) = Some (int n)"
proof -
  assume n: "n < 2 ^ 63"
  obtain c r where c: "print_nat n = c # r" "digit c"
    using print_nat_digits [of n] by (cases "print_nat n") auto
  then have "c \<noteq> CHR ''-''" "c \<noteq> CHR ''+''" by (auto simp: digit_def in_range_def byte_def)
  moreover have "int n < 2 ^ 63" using n by simp
  ultimately show ?thesis
    using print_nat_digits [of n] digits_val_print [of n] c
    by (simp add: Atoi_def HasPrefix_def Let_def)
qed

end
