(* ===== verification/Passwordhash.thy ===== *)
theory Passwordhash
  imports World Base64 Decimal
begin

text \<open>
  Package \<open>pkg/passwordhash\<close>: argon2id hashes in PHC string format. \<open>argon2.IDKey\<close> is the parameter
  \<open>argon2_idkey\<close>; the format, its parser and the cost comparison are the package's own.
\<close>

record params =
  Memory :: nat
  Iterations :: nat
  Parallelism :: nat
  SaltLength :: nat
  KeyLength :: nat

definition DefaultParams :: params where
  "DefaultParams = \<lparr>Memory = 64 * 1024, Iterations = 3, Parallelism = 2, SaltLength = 16, KeyLength = 32\<rparr>"

record hasher =
  hp :: params
  dummy :: string

definition argon2_Version :: nat where "argon2_Version = 19"

definition phc :: "params \<Rightarrow> string \<Rightarrow> string \<Rightarrow> string" where
  "phc p salt key =
     ''$argon2id$v='' @ print_nat argon2_Version @ ''$m='' @ print_nat (Memory p) @ '',t='' @
     print_nat (Iterations p) @ '',p='' @ print_nat (Parallelism p) @ ''$'' @
     raw_encode False salt @ ''$'' @ raw_encode False key"

definition panic :: error where "panic = Opaque ''panic''"

definition Hash :: "ext \<Rightarrow> params \<Rightarrow> string \<Rightarrow> ('r, string) io" where
  "Hash e p password =
     andthen (map_err (Wrap ''passwordhash: read salt'') (rand_Read e (SaltLength p))) (\<lambda>salt.
     case argon2_idkey e password salt (Iterations p) (Memory p) (Parallelism p) (KeyLength p) of
       None \<Rightarrow> raise panic
     | Some key \<Rightarrow> ret (phc p salt key))"

text \<open>The costs of the fourth part, \<open>m=%d,t=%d,p=%d\<close>.\<close>

definition scan_costs :: "string \<Rightarrow> (nat \<times> nat \<times> nat) option" where
  "scan_costs s =
     Option.bind (CutPrefix s ''m='') (\<lambda>s1.
     Option.bind (scan_uint 32 s1) (\<lambda>(m, s2).
     Option.bind (CutPrefix s2 '',t='') (\<lambda>s3.
     Option.bind (scan_uint 32 s3) (\<lambda>(t, s4).
     Option.bind (CutPrefix s4 '',p='') (\<lambda>s5.
     Option.bind (scan_uint 8 s5) (\<lambda>(p, s6). Some (m, t, p)))))))"

definition decode :: "string \<Rightarrow> error + params \<times> string \<times> string" where
  "decode encoded =
     (case Split (CHR ''$'') encoded of
        [p0, p1, p2, p3, p4, p5] \<Rightarrow>
          if p1 \<noteq> ''argon2id'' then Inl ErrInvalidHash
          else (case Option.bind (CutPrefix p2 ''v='') scan_int of
                  None \<Rightarrow> Inl ErrInvalidHash
                | Some (version, _) \<Rightarrow>
                    if version \<noteq> int argon2_Version then Inl ErrIncompatibleParams
                    else (case scan_costs p3 of
                            None \<Rightarrow> Inl ErrInvalidHash
                          | Some (m, t, p) \<Rightarrow>
                              (case raw_decode False True p4 of
                                 None \<Rightarrow> Inl ErrInvalidHash
                               | Some salt \<Rightarrow>
                                   (case raw_decode False True p5 of
                                      None \<Rightarrow> Inl ErrInvalidHash
                                    | Some key \<Rightarrow>
                                        Inr (\<lparr>Memory = m, Iterations = t, Parallelism = p,
                                              SaltLength = length salt, KeyLength = length key\<rparr>,
                                             salt, key)))))
      | _ \<Rightarrow> Inl ErrInvalidHash)"

definition Verify :: "ext \<Rightarrow> string \<Rightarrow> string \<Rightarrow> error + bool" where
  "Verify e encoded password =
     (case decode encoded of
        Inl err \<Rightarrow> Inl err
      | Inr (p, salt, want) \<Rightarrow>
          (case argon2_idkey e password salt (Iterations p) (Memory p) (Parallelism p) (length want) of
             None \<Rightarrow> Inl panic
           | Some got \<Rightarrow> Inr (got = want)))"

text \<open>\<open>DummyVerify\<close> discards the result of a verification against the hasher's own hash.\<close>

definition DummyVerify :: "ext \<Rightarrow> hasher \<Rightarrow> string \<Rightarrow> ('r, unit) io" where
  "DummyVerify e h password = attempt (lift (Verify e (dummy h) password)) (\<lambda>_. ret ())"

definition New_hasher :: "ext \<Rightarrow> ('r, hasher) io" where
  "New_hasher e =
     andthen (map_err (Wrap ''passwordhash: build dummy hash'')
       (Hash e DefaultParams ''dummy-password-for-constant-time-failures''))
       (\<lambda>d. ret \<lparr>hp = DefaultParams, dummy = d\<rparr>)"

definition NeedsRehash :: "hasher \<Rightarrow> string \<Rightarrow> bool" where
  "NeedsRehash h encoded =
     (case decode encoded of
        Inl _ \<Rightarrow> True
      | Inr (p, _, _) \<Rightarrow> Memory p < Memory (hp h) \<or> Iterations p < Iterations (hp h)
          \<or> Parallelism p < Parallelism (hp h))"

section \<open>Lemmas\<close>

lemma frame_Hash [frame_rules]: "frame db (Hash e p pw)" "frame cache (Hash e p pw)"
  unfolding Hash_def by (intro frame_rules)+

lemma frame_DummyVerify [frame_rules]: "frame f (DummyVerify e h pw)"
  unfolding DummyVerify_def by (intro frame_rules)

text \<open>Parameters that fit the widths of \<open>Params\<close> (uint32, uint32, uint8).\<close>

definition params_fit :: "params \<Rightarrow> bool" where
  "params_fit p \<longleftrightarrow> Memory p < 2 ^ 32 \<and> Iterations p < 2 ^ 32 \<and> Parallelism p < 2 ^ 8"

lemma print_nat_no: "\<not> digit c \<Longrightarrow> c \<notin> set (print_nat n)"
  using print_nat_digits [of n] by (auto simp: list_all_iff)

lemma not_digits: "\<not> digit (CHR ''$'')" "\<not> digit (CHR '','')"
  by (simp_all add: digit_def in_range_def byte_def)

lemma raw_encode_no: "CHR ''$'' \<notin> set (raw_encode url s)"
  using raw_encode_alphabet [of url s] b64_alphabet_not by (fastforce simp: list_all_iff)

lemma scan_costs_print:
  assumes "params_fit p"
  shows "scan_costs (''m='' @ print_nat (Memory p) @ '',t='' @ print_nat (Iterations p) @ '',p='' @
      print_nat (Parallelism p)) = Some (Memory p, Iterations p, Parallelism p)"
proof -
  have cut: "CutPrefix (a @ b) a = Some b" for a b by (simp add: CutPrefix_Some)
  have p: "scan_uint 8 (print_nat (Parallelism p)) = Some (Parallelism p, [])"
    using scan_uint_print [of _ 8 "[]"] assms by (simp add: params_fit_def)
  show ?thesis
    using assms
    by (simp add: scan_costs_def cut [of "''m=''", simplified] cut [of "'',t=''", simplified]
        cut [of "'',p=''", simplified] scan_uint_print not_digits p params_fit_def)
qed

lemma Split_phc:
  "Split (CHR ''$'') (phc p salt key) =
     [[], ''argon2id'', ''v='' @ print_nat argon2_Version,
      ''m='' @ print_nat (Memory p) @ '',t='' @ print_nat (Iterations p) @ '',p='' @
        print_nat (Parallelism p), raw_encode False salt, raw_encode False key]"
proof -
  have "Split (CHR ''$'') ([] @ CHR ''$'' # ''argon2id'' @ CHR ''$'' # (''v='' @ print_nat argon2_Version) @
      CHR ''$'' # (''m='' @ print_nat (Memory p) @ '',t='' @ print_nat (Iterations p) @ '',p='' @
        print_nat (Parallelism p)) @ CHR ''$'' # raw_encode False salt @ CHR ''$'' # raw_encode False key)
    = [[], ''argon2id'', ''v='' @ print_nat argon2_Version,
      ''m='' @ print_nat (Memory p) @ '',t='' @ print_nat (Iterations p) @ '',p='' @
        print_nat (Parallelism p), raw_encode False salt, raw_encode False key]"
    by (subst Split_append, simp add: print_nat_no not_digits raw_encode_no)+
      (simp add: print_nat_no not_digits raw_encode_no Split_no_sep)
  then show ?thesis by (simp add: phc_def)
qed

lemma decode_phc:
  assumes "params_fit p"
  shows "decode (phc p salt key) =
    Inr (p\<lparr>SaltLength := length salt, KeyLength := length key\<rparr>, salt, key)"
proof -
  have "scan_int (print_nat argon2_Version) = Some (int argon2_Version, [])"
    using scan_int_print [of argon2_Version "[]"] by (simp add: argon2_Version_def)
  moreover have "CutPrefix (''v='' @ print_nat argon2_Version) ''v='' = Some (print_nat argon2_Version)"
    by (simp add: CutPrefix_Some)
  ultimately show ?thesis
    using scan_costs_print [OF assms]
    by (simp add: decode_def Split_phc raw_decode_encode)
qed

section \<open>Hashing and verifying\<close>

text \<open>Costs a hasher can work with: the widths hold and argon2 does not panic.\<close>

definition params_ok :: "params \<Rightarrow> bool" where
  "params_ok p \<longleftrightarrow> params_fit p \<and> 1 \<le> Iterations p \<and> 1 \<le> Parallelism p"

lemma Hash_Inr:
  assumes "Hash e p pw w = (Inr h, w')"
  obtains salt key where "argon2_idkey e pw salt (Iterations p) (Memory p) (Parallelism p) (KeyLength p) = Some key"
    "h = phc p salt key"
  using assms by (auto simp: Hash_def act_inv split: option.splits)

text \<open>Verifying against a stored hash recomputes the key with the salt and the costs of the hash.\<close>

lemma Verify_phc:
  "params_fit p \<Longrightarrow> Verify e (phc p salt key) pw =
     (case argon2_idkey e pw salt (Iterations p) (Memory p) (Parallelism p) (length key) of
        None \<Rightarrow> Inl panic | Some got \<Rightarrow> Inr (got = key))"
  by (simp add: Verify_def decode_phc)

lemma Hash_Verify:
  assumes "Hash e p pw w = (Inr h, w')" "params_ok p" "argon2_law e"
  shows "Verify e h pw = Inr True"
proof -
  from assms(1) obtain salt key
    where k: "argon2_idkey e pw salt (Iterations p) (Memory p) (Parallelism p) (KeyLength p) = Some key"
      and h: "h = phc p salt key"
    by (rule Hash_Inr)
  from assms(2, 3) k have "length key = KeyLength p"
    unfolding params_ok_def argon2_law_def by (metis option.inject)
  with k h assms(2) show ?thesis by (simp add: Verify_phc params_ok_def)
qed

text \<open>A fresh hash is never due for a rehash under the parameters that made it.\<close>

lemma Hash_NeedsRehash:
  assumes "Hash e (hp hs) pw w = (Inr h, w')" "params_ok (hp hs)"
  shows "\<not> NeedsRehash hs h"
  using assms(1)
  by (rule Hash_Inr) (use assms(2) in \<open>simp add: NeedsRehash_def decode_phc params_ok_def\<close>)

end
