(* ===== verification/Token.thy ===== *)
theory Token
  imports World Base64 Decimal
begin

text \<open>
  Package \<open>pkg/token\<close>: the signer, its key ids, the set of keys that verify, and the published key
  set. The JWT library and Ed25519 are the parameters \<open>jwt_sign\<close>, \<open>jwt_parse\<close>, \<open>ed25519_public\<close>; the
  JSON text of the key set is not modelled, its structure is.
\<close>

record token_config =
  PrivateKey :: string
  PreviousPublicKeys :: "string list"
  Issuer :: string
  Audience :: string
  AccessTTL :: duration
  RefreshTTL :: duration

record jwk =
  Kty :: string
  Crv :: string
  Use :: string
  Alg :: string
  Kid :: string
  X :: string

record signer =
  sg_cfg :: token_config
  sg_priv :: string
  sg_kid :: string
  verifyKeys :: "string \<rightharpoonup> string"
  sg_jwks :: "jwk list"

definition KeyID :: "ext \<Rightarrow> string \<Rightarrow> string" where
  "KeyID e pub = raw_encode True (take 8 (sha256 e pub))"

definition jwk_of :: "ext \<Rightarrow> string \<Rightarrow> jwk" where
  "jwk_of e pub =
     \<lparr>Kty = ''OKP'', Crv = ''Ed25519'', Use = ''sig'', Alg = ''EdDSA'', Kid = KeyID e pub,
      X = raw_encode True pub\<rparr>"

text \<open>The loop of \<open>buildJWKS\<close>; \<open>seen\<close> holds the ids already published.\<close>

fun buildJWKS :: "ext \<Rightarrow> string list \<Rightarrow> string list \<Rightarrow> jwk list" where
  "buildJWKS e seen [] = []"
| "buildJWKS e seen (pub # pubs) =
     (if KeyID e pub \<in> set seen then buildJWKS e seen pubs
      else jwk_of e pub # buildJWKS e (KeyID e pub # seen) pubs)"

text \<open>
  The loop of \<open>ParseJWKS\<close> over the keys of the document. The map it fills is an association list
  with the newest binding first.
\<close>

fun parse_keys :: "jwk list \<Rightarrow> (string \<times> string) list \<Rightarrow> error + (string \<times> string) list" where
  "parse_keys [] keys = Inr keys"
| "parse_keys (k # ks) keys =
     (if Kty k \<noteq> ''OKP'' \<or> Crv k \<noteq> ''Ed25519'' then parse_keys ks keys
      else (case raw_decode True False (X k) of
              None \<Rightarrow> Inl (Opaque ''token: jwks key has an invalid x parameter'')
            | Some b \<Rightarrow>
                if length b \<noteq> 32 then Inl (Opaque ''token: jwks key has an invalid x parameter'')
                else parse_keys ks ((Kid k, b) # keys)))"

definition ParseJWKS :: "jwk list \<Rightarrow> error + (string \<times> string) list" where
  "ParseJWKS doc =
     (case parse_keys doc [] of
        Inl err \<Rightarrow> Inl err
      | Inr keys \<Rightarrow>
          if keys = [] then Inl (Opaque ''token: jwks contains no usable Ed25519 keys'')
          else Inr keys)"

definition decodeKey :: "string \<Rightarrow> nat \<Rightarrow> error + string" where
  "decodeKey raw want =
     (case (case std_decode raw of Some b \<Rightarrow> Some b | None \<Rightarrow> raw_decode True False raw) of
        None \<Rightarrow> Inl (Opaque ''token: key is not valid base64'')
      | Some b \<Rightarrow>
          if length b \<noteq> want then Inl (Opaque ''token: key has the wrong length'') else Inr b)"

text \<open>The loop over \<open>PreviousPublicKeys\<close>: the verification keys and the list of public keys grow.\<close>

fun add_previous ::
  "ext \<Rightarrow> string list \<Rightarrow> (string \<rightharpoonup> string) \<Rightarrow> string list \<Rightarrow> error + (string \<rightharpoonup> string) \<times> string list" where
  "add_previous e [] keys pubs = Inr (keys, pubs)"
| "add_previous e (raw # raws) keys pubs =
     (if raw = [] then add_previous e raws keys pubs
      else (case decodeKey raw 32 of
              Inl err \<Rightarrow> Inl err
            | Inr old \<Rightarrow> add_previous e raws (keys(KeyID e old \<mapsto> old)) (pubs @ [old])))"

definition New_signer :: "ext \<Rightarrow> token_config \<Rightarrow> error + signer" where
  "New_signer e cfg =
     (case decodeKey (PrivateKey cfg) 32 of
        Inl err \<Rightarrow> Inl err
      | Inr seed \<Rightarrow>
          let pub = ed25519_public e seed in
          (case add_previous e (PreviousPublicKeys cfg) [KeyID e pub \<mapsto> pub] [pub] of
             Inl err \<Rightarrow> Inl err
           | Inr (keys, pubs) \<Rightarrow>
               Inr \<lparr>sg_cfg = cfg, sg_priv = seed, sg_kid = KeyID e pub, verifyKeys = keys,
                    sg_jwks = buildJWKS e [] pubs\<rparr>))"

definition PublicKeyBase64 :: "ext \<Rightarrow> signer \<Rightarrow> string" where
  "PublicKeyBase64 e s = std_encode (ed25519_public e (sg_priv s))"

text \<open>The claims \<open>Sign\<close> fills in; \<open>jwt.NewNumericDate\<close> keeps whole seconds.\<close>

definition claims_of ::
  "signer \<Rightarrow> string \<Rightarrow> string \<Rightarrow> string \<Rightarrow> instant \<Rightarrow> instant \<Rightarrow> string \<Rightarrow> claims" where
  "claims_of s userID sessionID role authTime now jti =
     \<lparr>cl_session = sessionID, cl_role = role, cl_auth_time = Unix authTime,
      cl_issuer = Issuer (sg_cfg s), cl_subject = userID, cl_audience = [Audience (sg_cfg s)],
      cl_expires = Some (Unix (now + AccessTTL (sg_cfg s))), cl_issued = Some (Unix now),
      cl_not_before = Some (Unix now), cl_id = jti\<rparr>"

definition Sign ::
  "ext \<Rightarrow> signer \<Rightarrow> string \<Rightarrow> string \<Rightarrow> string \<Rightarrow> instant \<Rightarrow> instant \<Rightarrow> ('r, string \<times> string \<times> instant) io" where
  "Sign e s userID sessionID role authTime now =
     andthen (NewString e) (\<lambda>jti.
     case jwt_sign e (sg_priv s) (sg_kid s) (claims_of s userID sessionID role authTime now jti) of
       None \<Rightarrow> raise (Opaque ''token: sign'')
     | Some tok \<Rightarrow> ret (tok, jti, now + AccessTTL (sg_cfg s)))"

definition keyFunc :: "signer \<Rightarrow> string \<Rightarrow> string option" where
  "keyFunc s kid = verifyKeys s kid"

definition parse_opts :: "signer \<Rightarrow> parse_options" where
  "parse_opts s =
     \<lparr>po_methods = [''EdDSA''], po_issuer = Issuer (sg_cfg s), po_audience = Audience (sg_cfg s),
      po_exp_required = True\<rparr>"

fun token_error :: "jwt_error \<Rightarrow> error" where
  "token_error JwtExpired = ErrTokenExpired"
| "token_error JwtKeyFunc = ErrUnknownKey"
| "token_error (JwtOther m) = Wrap m ErrInvalidToken"

text \<open>\<open>Verify\<close>; the library reads the clock.\<close>

definition Verify_token :: "ext \<Rightarrow> signer \<Rightarrow> string \<Rightarrow> ('r, claims) io" where
  "Verify_token e s raw =
     andthen Now (\<lambda>now. map_err token_error (lift (jwt_parse e (parse_opts s) (keyFunc s) now raw)))"

section \<open>Lemmas\<close>

lemma frame_Sign [frame_rules]:
  "frame db (Sign e s u i r at now)" "frame cache (Sign e s u i r at now)"
  unfolding Sign_def by (intro frame_rules)+

lemma frame_Verify_token [frame_rules]:
  "frame db (Verify_token e s raw)" "frame cache (Verify_token e s raw)"
  unfolding Verify_token_def by (intro frame_rules)+

text \<open>
  The documented behaviour of the JWT library on what it signed itself: a token signed with the key
  its \<open>kid\<close> names parses to its claims while issuer, audience and validity period fit.
\<close>

definition jwt_round_trip :: "ext \<Rightarrow> bool" where
  "jwt_round_trip e \<longleftrightarrow>
     (\<forall>key kid c raw opts kf now.
        jwt_sign e key kid c = Some raw \<longrightarrow> kf kid = Some (ed25519_public e key) \<longrightarrow>
        ''EdDSA'' \<in> set (po_methods opts) \<longrightarrow> cl_issuer c = po_issuer opts \<longrightarrow>
        po_audience opts \<in> set (cl_audience c) \<longrightarrow>
        (\<exists>x. cl_expires c = Some x \<and> now < from_unix x) \<longrightarrow>
        (\<exists>n. cl_not_before c = Some n \<and> from_unix n \<le> now) \<longrightarrow>
        jwt_parse e opts kf now raw = Inr c)"

text \<open>The active key is always among the verification keys, whatever retired keys are configured.\<close>

lemma add_previous_keys:
  assumes "add_previous e raws keys pubs = Inr (keys', pubs')"
    and "keys kid = Some k" "\<And>p. KeyID e p = kid \<Longrightarrow> p = k"
  shows "keys' kid = Some k"
  using assms
proof (induction raws arbitrary: keys pubs)
  case (Cons raw raws)
  then show ?case
    by (cases "raw = []"; cases "decodeKey raw 32") (fastforce split: if_splits)+
qed simp

lemma add_previous_verifies:
  assumes "add_previous e raws keys pubs = Inr (keys', pubs')"
    and "\<And>k p. keys k = Some p \<Longrightarrow> KeyID e p = k \<and> p \<in> set pubs"
    and "keys' k = Some p"
  shows "KeyID e p = k \<and> p \<in> set pubs'"
  using assms
proof (induction raws arbitrary: keys pubs)
  case (Cons raw raws)
  show ?case
  proof (cases "raw = []")
    case False
    with Cons.prems obtain old where d: "decodeKey raw 32 = Inr old"
      "add_previous e raws (keys(KeyID e old \<mapsto> old)) (pubs @ [old]) = Inr (keys', pubs')"
      by (auto split: sum.splits)
    show ?thesis
      by (rule Cons.IH [OF d(2)]) (use Cons.prems in \<open>auto split: if_splits\<close>)
  qed (use Cons in simp)
qed simp

text \<open>
  What is published: one entry per key id, the first key of each, in the order of the list; a reader
  gets exactly these keys back.
\<close>

fun first_keys :: "ext \<Rightarrow> string list \<Rightarrow> string list \<Rightarrow> string list" where
  "first_keys e seen [] = []"
| "first_keys e seen (p # ps) =
     (if KeyID e p \<in> set seen then first_keys e seen ps else p # first_keys e (KeyID e p # seen) ps)"

lemma buildJWKS_first: "buildJWKS e seen pubs = map (jwk_of e) (first_keys e seen pubs)"
  by (induction e seen pubs rule: buildJWKS.induct) auto

lemma first_keys_subset: "set (first_keys e seen ps) \<subseteq> set ps"
  by (induction e seen ps rule: first_keys.induct) auto

lemma first_keys_unseen: "p \<in> set (first_keys e seen ps) \<Longrightarrow> KeyID e p \<notin> set seen"
  by (induction e seen ps rule: first_keys.induct) (auto split: if_splits)

lemma first_keys_distinct: "distinct (map (KeyID e) (first_keys e seen ps))"
  by (induction e seen ps rule: first_keys.induct) (auto dest: first_keys_unseen)

lemma parse_keys_published:
  assumes "\<And>p. p \<in> set ps \<Longrightarrow> length p = 32"
  shows "parse_keys (map (jwk_of e) ps) keys = Inr (rev (map (\<lambda>p. (KeyID e p, p)) ps) @ keys)"
  using assms by (induction ps arbitrary: keys) (auto simp: jwk_of_def raw_decode_encode)

lemma ParseJWKS_published:
  assumes "\<And>p. p \<in> set pubs \<Longrightarrow> length p = 32" "pubs \<noteq> []"
  shows "ParseJWKS (buildJWKS e [] pubs) = Inr (rev (map (\<lambda>p. (KeyID e p, p)) (first_keys e [] pubs)))"
proof -
  have "length p = 32" if "p \<in> set (first_keys e [] pubs)" for p
    using that first_keys_subset [of e "[]" pubs] assms(1) by auto
  moreover have "first_keys e [] pubs \<noteq> []"
    using assms(2) by (cases pubs) auto
  ultimately show ?thesis
    by (simp add: ParseJWKS_def buildJWKS_first parse_keys_published)
qed

lemma first_key_published:
  "map_of (rev (map (\<lambda>p. (KeyID e p, p)) (first_keys e [] (pub # pubs)))) (KeyID e pub) = Some pub"
proof (rule map_of_is_SomeI)
  show "distinct (map fst (rev (map (\<lambda>p. (KeyID e p, p)) (first_keys e [] (pub # pubs)))))"
    using first_keys_distinct [of e "[]" "pub # pubs"]
    by (simp add: rev_map comp_def distinct_rev flip: rev_map)
qed simp

text \<open>The list of keys a signer publishes starts with its active key; the retired ones have 32 bytes.\<close>

lemma decodeKey_length: "decodeKey raw n = Inr b \<Longrightarrow> length b = n"
  by (auto simp: decodeKey_def split: option.splits if_splits)

lemma add_previous_pubs:
  "add_previous e raws keys pubs = Inr (keys', pubs') \<Longrightarrow>
     \<exists>more_keys. pubs' = pubs @ more_keys \<and> (\<forall>p\<in>set more_keys. length p = 32)"
proof (induction raws arbitrary: keys pubs)
  case (Cons raw raws)
  show ?case
  proof (cases "raw = []")
    case False
    with Cons.prems obtain old where d: "decodeKey raw 32 = Inr old"
      "add_previous e raws (keys(KeyID e old \<mapsto> old)) (pubs @ [old]) = Inr (keys', pubs')"
      by (auto split: sum.splits)
    from Cons.IH [OF d(2)] decodeKey_length [OF d(1)] show ?thesis by auto
  qed (use Cons in simp)
qed simp

lemma New_signer_published:
  assumes "New_signer e cfg = Inr s"
  obtains pubs where "sg_cfg s = cfg" "sg_kid s = KeyID e (ed25519_public e (sg_priv s))" "length (sg_priv s) = 32"
    "sg_jwks s = buildJWKS e [] (ed25519_public e (sg_priv s) # pubs)" "\<And>p. p \<in> set pubs \<Longrightarrow> length p = 32"
proof -
  from assms obtain seed keys pubs where n: "decodeKey (PrivateKey cfg) 32 = Inr seed"
    "add_previous e (PreviousPublicKeys cfg) [KeyID e (ed25519_public e seed) \<mapsto> ed25519_public e seed]
       [ed25519_public e seed] = Inr (keys, pubs)"
    "s = \<lparr>sg_cfg = cfg, sg_priv = seed, sg_kid = KeyID e (ed25519_public e seed), verifyKeys = keys,
      sg_jwks = buildJWKS e [] pubs\<rparr>"
    by (auto simp: New_signer_def Let_def split: sum.splits)
  from add_previous_pubs [OF n(2)] n(3) decodeKey_length [OF n(1)] that show thesis by auto
qed

end
