(* ===== verification/Ratelimit.thy ===== *)
theory Ratelimit
  imports World Decimal
begin

text \<open>
  Package \<open>pkg/ratelimit\<close>. Redis is a service: its commands are a record of functions, of the
  server's time and state, that may fail. The limiter's arithmetic is the program's own; \<open>time.Duration\<close>
  is an \<open>int64\<close>, so the product of a delay wraps, which \<open>int64\<close> writes out.
\<close>

section \<open>The client\<close>

datatype redis_error = RedisNil | RedisErr string

record 'r redis =
  cmd_Incr :: "string \<Rightarrow> instant \<Rightarrow> 'r \<Rightarrow> (redis_error + int) \<times> 'r"
  cmd_Expire :: "string \<Rightarrow> duration \<Rightarrow> instant \<Rightarrow> 'r \<Rightarrow> (redis_error + bool) \<times> 'r"
  cmd_TTL :: "string \<Rightarrow> instant \<Rightarrow> 'r \<Rightarrow> (redis_error + duration) \<times> 'r"
  cmd_Set :: "string \<Rightarrow> string \<Rightarrow> duration \<Rightarrow> instant \<Rightarrow> 'r \<Rightarrow> (redis_error + unit) \<times> 'r"
  cmd_Del :: "string list \<Rightarrow> instant \<Rightarrow> 'r \<Rightarrow> (redis_error + int) \<times> 'r"

definition redis_call :: "(instant \<Rightarrow> 'r \<Rightarrow> (redis_error + 'a) \<times> 'r) \<Rightarrow> ('r world, redis_error, 'a) act" where
  "redis_call f = andthen Now (\<lambda>t w. case f t (cache w) of (r, c) \<Rightarrow> (r, w\<lparr>cache := c\<rparr>))"

definition redis_err :: "string \<Rightarrow> redis_error \<Rightarrow> error" where
  "redis_err m e = Wrap m (Opaque (case e of RedisNil \<Rightarrow> ''redis: nil'' | RedisErr s \<Rightarrow> s))"

section \<open>Configuration\<close>

record rule =
  rule_limit :: int
  rule_window :: duration

definition Enabled :: "rule \<Rightarrow> bool" where
  "Enabled r \<longleftrightarrow> rule_limit r > 0 \<and> rule_window r > 0"

record ratelimit_config =
  KeyPrefix :: string
  LoginIP :: rule
  LoginPair :: rule
  Register :: rule
  BackoffAfter :: int
  BackoffBase :: duration
  BackoffMax :: duration
  FailureWindow :: duration
  rl_FailClosed :: bool

definition ratelimit_defaults :: ratelimit_config where
  "ratelimit_defaults =
     \<lparr>KeyPrefix = ''goauth:'',
      LoginIP = \<lparr>rule_limit = 100, rule_window = 15 * Minute\<rparr>,
      LoginPair = \<lparr>rule_limit = 10, rule_window = 15 * Minute\<rparr>,
      Register = \<lparr>rule_limit = 20, rule_window = Hour\<rparr>,
      BackoffAfter = 3, BackoffBase = Second, BackoffMax = 60 * Second,
      FailureWindow = 15 * Minute, rl_FailClosed = True\<rparr>"

record 'r limiter =
  client :: "'r redis"
  rl_cfg :: ratelimit_config
  lim_env :: ext

section \<open>Fixed window\<close>

record limit_result =
  Allowed :: bool
  Remaining :: int
  RetryAfter :: duration

definition Allow :: "'r limiter \<Rightarrow> string \<Rightarrow> rule \<Rightarrow> ('r, limit_result) io" where
  "Allow l key rule =
     (if \<not> Enabled rule then ret \<lparr>Allowed = True, Remaining = 0, RetryAfter = 0\<rparr>
      else
        let redisKey = KeyPrefix (rl_cfg l) @ ''rl:'' @ key in
        andthen (map_err (redis_err ''ratelimit: incr'') (redis_call (cmd_Incr (client l) redisKey))) (\<lambda>count.
        andthen (if count = 1
                 then map_err (redis_err ''ratelimit: expire'')
                   (andthen (redis_call (cmd_Expire (client l) redisKey (rule_window rule))) (\<lambda>_. ret ()))
                 else ret ()) (\<lambda>_.
        if count > rule_limit rule
        then attempt (redis_call (cmd_TTL (client l) redisKey)) (\<lambda>r.
               let ttl = (case r of Inl _ \<Rightarrow> rule_window rule
                          | Inr t \<Rightarrow> if t < 0 then rule_window rule else t)
               in ret \<lparr>Allowed = False, Remaining = 0, RetryAfter = ttl\<rparr>)
        else ret \<lparr>Allowed = True, Remaining = rule_limit rule - count, RetryAfter = 0\<rparr>)))"

section \<open>Exponential backoff\<close>

definition failureKey :: "'r limiter \<Rightarrow> string \<Rightarrow> string" where
  "failureKey l key = KeyPrefix (rl_cfg l) @ ''fail:'' @ key"

definition backoffKey :: "'r limiter \<Rightarrow> string \<Rightarrow> string" where
  "backoffKey l key = KeyPrefix (rl_cfg l) @ ''backoff:'' @ key"

definition Backoff :: "'r limiter \<Rightarrow> string \<Rightarrow> ('r, duration) io" where
  "Backoff l key =
     attempt (redis_call (cmd_TTL (client l) (backoffKey l key))) (\<lambda>r. case r of
       Inl RedisNil \<Rightarrow> ret 0
     | Inl err \<Rightarrow> raise (redis_err ''ratelimit: backoff ttl'' err)
     | Inr ttl \<Rightarrow> if ttl \<le> 0 then ret 0 else ret ttl)"

definition int64 :: "int \<Rightarrow> int" where
  "int64 i = signed_take_bit 63 i"

text \<open>\<open>time.Duration(math.Pow(2, float64(steps)))\<close>: exact below 2^63.\<close>

definition pow_duration :: "ext \<Rightarrow> nat \<Rightarrow> int" where
  "pow_duration e steps = (if steps < 63 then 2 ^ steps else int64 (float_overflow e steps))"

definition backoff_delay :: "ext \<Rightarrow> ratelimit_config \<Rightarrow> int \<Rightarrow> duration" where
  "backoff_delay e cfg n =
     (let steps = n - BackoffAfter cfg;
          delay = int64 (pow_duration e (nat steps) * BackoffBase cfg)
      in if delay > BackoffMax cfg \<or> delay \<le> 0 then BackoffMax cfg else delay)"

definition RegisterFailure :: "'r limiter \<Rightarrow> string \<Rightarrow> ('r, duration) io" where
  "RegisterFailure l key =
     (let countKey = failureKey l key; cfg = rl_cfg l in
      andthen (map_err (redis_err ''ratelimit: incr failures'') (redis_call (cmd_Incr (client l) countKey))) (\<lambda>n.
      andthen (map_err (redis_err ''ratelimit: expire failures'')
        (redis_call (cmd_Expire (client l) countKey (FailureWindow cfg)))) (\<lambda>_.
      if n < BackoffAfter cfg then ret 0
      else
        let delay = backoff_delay (lim_env l) cfg n in
        andthen (map_err (redis_err ''ratelimit: set backoff'')
          (redis_call (cmd_Set (client l) (backoffKey l key) ''1'' delay))) (\<lambda>_.
        ret delay))))"

definition Reset :: "'r limiter \<Rightarrow> string \<Rightarrow> ('r, unit) io" where
  "Reset l key =
     map_err (redis_err ''ratelimit: reset'')
       (andthen (redis_call (cmd_Del (client l) [failureKey l key, backoffKey l key])) (\<lambda>_. ret ()))"

section \<open>Lemmas\<close>

lemma frame_redis_call [frame_rules]: "frame db (redis_call f)"
  by (auto simp: redis_call_def frame_def andthen_simp Now_def split: list.split prod.split)

lemma frame_case_redis_error [frame_rules]:
  "frame f a \<Longrightarrow> (\<And>s. frame f (b s)) \<Longrightarrow> frame f (case e of RedisNil \<Rightarrow> a | RedisErr s \<Rightarrow> b s)"
  by (cases e) auto

text \<open>The limiter never touches the database.\<close>

lemma frame_limiter [frame_rules]:
  "frame db (Allow l k r)" "frame db (Backoff l k)" "frame db (RegisterFailure l k)" "frame db (Reset l k)"
  unfolding Allow_def Backoff_def RegisterFailure_def Reset_def Let_def
  by (intro frame_rules)+

lemma backoff_delay_bounds:
  assumes "0 < BackoffMax cfg"
  shows "0 < backoff_delay e cfg n \<and> backoff_delay e cfg n \<le> BackoffMax cfg"
  using assms by (auto simp: backoff_delay_def Let_def)

lemma int64_id: "- (2 ^ 63) \<le> i \<Longrightarrow> i < 2 ^ 63 \<Longrightarrow> int64 i = i"
  by (simp add: int64_def signed_take_bit_int_eq_self_iff)

lemma backoff_delay_exact:
  assumes "nat (n - BackoffAfter cfg) < 63" "2 ^ nat (n - BackoffAfter cfg) * BackoffBase cfg < 2 ^ 63"
    "0 < BackoffBase cfg"
  shows "backoff_delay e cfg n = min (2 ^ nat (n - BackoffAfter cfg) * BackoffBase cfg) (BackoffMax cfg)"
proof -
  have p: "0 < 2 ^ nat (n - BackoffAfter cfg) * BackoffBase cfg" using assms(3) by simp
  then have "int64 (2 ^ nat (n - BackoffAfter cfg) * BackoffBase cfg)
      = 2 ^ nat (n - BackoffAfter cfg) * BackoffBase cfg"
    using assms(2) by (intro int64_id) linarith+
  then show ?thesis
    using p assms(1) by (auto simp: backoff_delay_def Let_def pow_duration_def min_def)
qed

end
