(* ===== verification/Http.thy ===== *)
theory Http
  imports Domain
begin

text \<open>
  The transport: requests and responses as the handlers see them, the response helpers of
  \<open>pkg/http_server\<close>, the mapping of domain errors in \<open>internal/apierr\<close>, and the credential cookies
  of \<open>pkg/authcookie\<close>. A response body is the error message or the handler's output; the JSON text
  around it is not modelled.
\<close>

section \<open>Requests\<close>

text \<open>Header names are canonical; a header sent on several lines appears several times.\<close>

record request =
  req_headers :: "(string \<times> string) list"
  req_cookies :: "(string \<times> string) list"
  req_remote :: string
  req_agent :: string

definition Header_Get :: "request \<Rightarrow> string \<Rightarrow> string" where
  "Header_Get r name = (case find (\<lambda>h. fst h = name) (req_headers r) of Some h \<Rightarrow> snd h | None \<Rightarrow> [])"

text \<open>The values of \<open>pkg/http_server/context.go\<close>: unset reads as the zero value.\<close>

record ctx =
  cx_client_ip :: string
  cx_bucket :: string
  cx_user :: string
  cx_session :: string
  cx_role :: string
  cx_auth_time :: instant
  cx_actor :: string

definition new_ctx :: ctx where
  "new_ctx = \<lparr>cx_client_ip = [], cx_bucket = [], cx_user = [], cx_session = [], cx_role = [],
     cx_auth_time = zero_time, cx_actor = []\<rparr>"

definition SetIdentity :: "ctx \<Rightarrow> string \<Rightarrow> string \<Rightarrow> string \<Rightarrow> instant \<Rightarrow> ctx" where
  "SetIdentity c userID sessionID role authTime =
     c\<lparr>cx_user := userID, cx_session := sessionID, cx_role := role, cx_auth_time := authTime\<rparr>"

definition SetActor :: "ctx \<Rightarrow> string \<Rightarrow> ctx" where
  "SetActor c actor = c\<lparr>cx_actor := actor\<rparr>"

section \<open>Responses\<close>

datatype same_site = SameSiteStrict | SameSiteLax

record cookie =
  ck_name :: string
  ck_value :: string
  ck_path :: string
  ck_max_age :: int
  ck_http_only :: bool
  ck_secure :: bool
  ck_same_site :: same_site

record 'b response =
  rs_status :: int
  rs_body :: "string + 'b"
  rs_no_store :: bool
  rs_cookies :: "cookie list"

definition fail :: "int \<Rightarrow> string \<Rightarrow> 'b response" where
  "fail code msg = \<lparr>rs_status = code, rs_body = Inl msg, rs_no_store = False, rs_cookies = []\<rparr>"

definition OK :: "'b \<Rightarrow> 'b response" where
  "OK data = \<lparr>rs_status = 200, rs_body = Inr data, rs_no_store = False, rs_cookies = []\<rparr>"

definition Created :: "'b \<Rightarrow> 'b response" where
  "Created data = \<lparr>rs_status = 201, rs_body = Inr data, rs_no_store = False, rs_cookies = []\<rparr>"

definition BadRequest :: "string \<Rightarrow> 'b response" where "BadRequest = fail 400"
definition Unauthorized :: "string \<Rightarrow> 'b response" where "Unauthorized = fail 401"
definition Forbidden :: "string \<Rightarrow> 'b response" where "Forbidden = fail 403"
definition NotFound :: "string \<Rightarrow> 'b response" where "NotFound = fail 404"
definition Conflict :: "string \<Rightarrow> 'b response" where "Conflict = fail 409"
definition TooManyRequests :: "string \<Rightarrow> 'b response" where "TooManyRequests = fail 429"
definition InternalServerError :: "string \<Rightarrow> 'b response" where "InternalServerError = fail 500"
definition ServiceUnavailable :: "string \<Rightarrow> 'b response" where "ServiceUnavailable = fail 503"

lemmas response_defs = fail_def OK_def Created_def BadRequest_def Unauthorized_def Forbidden_def
  NotFound_def Conflict_def TooManyRequests_def InternalServerError_def ServiceUnavailable_def

text \<open>\<open>c.AbortWithStatus(404)\<close>: a bare status.\<close>

definition silent_404 :: "'b response" where "silent_404 = fail 404 []"

section \<open>apierr\<close>

definition apierr_Write :: "error \<Rightarrow> 'b response" where
  "apierr_Write err =
     (if errors_is err ErrUserNotFound \<or> errors_is err ErrNotFound then NotFound ''not found''
      else if errors_is err ErrUserAlreadyExists \<or> errors_is err ErrAlreadyExists then Conflict ''already exists''
      else if errors_is err ErrInvalidCredentials then Unauthorized ''invalid credentials''
      else if errors_is err ErrSessionNotFound \<or> errors_is err ErrSessionExpired
        then Unauthorized ''invalid or expired session''
      else if errors_is err ErrRefreshReused
        then Unauthorized ''refresh token reuse detected, all sessions revoked''
      else if errors_is err ErrUserBlocked then Forbidden ''account is blocked''
      else if errors_is err ErrUserDeleted then Forbidden ''account is deleted''
      else if errors_is err ErrLastAdmin then Conflict ''cannot remove the last active admin''
      else if errors_is err ErrSelfDemote then Conflict ''cannot change your own role''
      else if errors_is err ErrRoleNotFound then NotFound ''role not found''
      else if errors_is err ErrRoleAlreadyExists then Conflict ''role already exists''
      else if errors_is err ErrRoleInUse then Conflict ''role is still assigned to users''
      else if errors_is err ErrRoleProtected then Forbidden ''system role cannot be modified or deleted''
      else if errors_is err ErrRankTaken then Conflict ''rank is already taken by another role''
      else if errors_is err ErrInsufficientRank then Forbidden ''insufficient rank''
      else if errors_is err ErrPermissionUnknown then BadRequest ''unknown permission''
      else if errors_is err ErrPermissionNotHeld then Forbidden ''cannot grant a permission you do not hold''
      else if errors_is err ErrPasswordTooWeak then BadRequest ''password is too short''
      else if errors_is err ErrInvalidIdentifier then BadRequest ''invalid username or email''
      else if errors_is err ErrNoIdentifier then BadRequest ''username or email is required''
      else if errors_is err ErrInvalidInput then BadRequest ''invalid request''
      else if errors_is err ErrRegistrationClosed \<or> errors_is err ErrForbidden then NotFound ''not found''
      else InternalServerError ''internal server error'')"

text \<open>The chain of an error: itself and what it wraps.\<close>

fun root_cause :: "error \<Rightarrow> error" where
  "root_cause (Wrap m e) = root_cause e"
| "root_cause e = e"

lemma errors_is_sentinel: "(\<forall>m e. t \<noteq> Wrap m e) \<Longrightarrow> errors_is err t \<longleftrightarrow> root_cause err = t"
  by (induction err) auto

text \<open>The answer depends on the sentinel alone, however often it was wrapped on the way.\<close>

lemma apierr_root: "apierr_Write err = apierr_Write (root_cause err)"
proof -
  have "errors_is err t = errors_is (root_cause err) t" if "\<forall>m e. t \<noteq> Wrap m e" for t
  proof -
    have "root_cause (root_cause err) = root_cause err" by (induction err) auto
    with that show ?thesis by (simp add: errors_is_sentinel)
  qed
  then show ?thesis by (simp add: apierr_Write_def)
qed

section \<open>Cookies\<close>

record cookie_config =
  cookies_enabled :: bool
  cookies_secure :: bool
  cookies_same_site :: string

definition AccessName :: string where "AccessName = ''goauth_access''"
definition RefreshName :: string where "RefreshName = ''goauth_refresh''"

definition sameSite :: "cookie_config \<Rightarrow> same_site" where
  "sameSite cfg = (if cookies_same_site cfg = ''lax'' then SameSiteLax else SameSiteStrict)"

text \<open>\<open>int(d / time.Second)\<close>: integer division truncates towards zero.\<close>

definition seconds_of :: "duration \<Rightarrow> int" where
  "seconds_of d = (if d < 0 then - ((- d) div Second) else d div Second)"

definition credential_cookie :: "cookie_config \<Rightarrow> string \<Rightarrow> string \<Rightarrow> int \<Rightarrow> cookie" where
  "credential_cookie cfg name value maxAge =
     \<lparr>ck_name = name, ck_value = value, ck_path = ''/'', ck_max_age = maxAge, ck_http_only = True,
      ck_secure = cookies_secure cfg, ck_same_site = sameSite cfg\<rparr>"

definition Set_cookies :: "cookie_config \<Rightarrow> string \<Rightarrow> string \<Rightarrow> duration \<Rightarrow> duration \<Rightarrow> cookie list" where
  "Set_cookies cfg access refresh accessTTL refreshTTL =
     (if \<not> cookies_enabled cfg then []
      else [credential_cookie cfg AccessName access (seconds_of accessTTL),
            credential_cookie cfg RefreshName refresh (seconds_of refreshTTL)])"

definition Clear_cookies :: "cookie_config \<Rightarrow> cookie list" where
  "Clear_cookies cfg =
     (if \<not> cookies_enabled cfg then []
      else map (\<lambda>name. credential_cookie cfg name [] (- 1)) [AccessName, RefreshName])"

definition read_cookie :: "request \<Rightarrow> string \<Rightarrow> string option" where
  "read_cookie r name =
     (case find (\<lambda>c. fst c = name) (req_cookies r) of
        None \<Rightarrow> None
      | Some c \<Rightarrow> if snd c = [] then None else Some (snd c))"

definition AccessFromRequest :: "cookie_config \<Rightarrow> request \<Rightarrow> string option" where
  "AccessFromRequest cfg r = (if \<not> cookies_enabled cfg then None else read_cookie r AccessName)"

definition RefreshFromRequest :: "cookie_config \<Rightarrow> request \<Rightarrow> string option" where
  "RefreshFromRequest cfg r = (if \<not> cookies_enabled cfg then None else read_cookie r RefreshName)"

text \<open>What a browser holds after a response: a cookie replaces the one of the same name and path.\<close>

definition browser_store :: "cookie list \<Rightarrow> cookie list \<Rightarrow> cookie list" where
  "browser_store jar new =
     filter (\<lambda>c. ck_max_age c \<ge> 0) (foldl (\<lambda>j c. filter (\<lambda>d. (ck_name d, ck_path d) \<noteq> (ck_name c, ck_path c)) j @ [c]) jar new)"

end
