(* ===== verification/Services.thy ===== *)
theory Services
  imports Specs Passwordhash Token Ratelimit Http
begin

text \<open>
  The services of \<open>internal/service\<close>: best-effort auditing, the rank guard, and the issuer of token
  pairs. \<open>app\<close> gathers what \<open>cmd/wire.go\<close> injects into the use cases.
\<close>

record 'r app =
  pg :: adapter
  hashing :: hasher
  signing :: signer
  limiting :: "'r limiter"
  fail_closed :: bool
  min_password_len :: int
  registration_mode :: string
  require_email :: bool
  reauth_window :: duration
  admin_token :: string
  cookies :: cookie_config

abbreviation sys :: "'r app \<Rightarrow> ext" where
  "sys a \<equiv> env (pg a)"

section \<open>audit\<close>

text \<open>\<open>Record\<close> logs a failed write and goes on; \<open>Event\<close> is the constructor of entries.\<close>

definition Record :: "'r app \<Rightarrow> audit_entry \<Rightarrow> ('r, unit) io" where
  "Record a e = attempt (InsertAuditEntry (pg a) e) (\<lambda>_. ret ())"

definition Event :: "string \<Rightarrow> string \<Rightarrow> string \<Rightarrow> string \<Rightarrow> (string \<times> meta) list \<Rightarrow> audit_entry" where
  "Event actor action targetUserID ip meta =
     \<lparr>aud_actor = actor, aud_action = action, aud_target = targetUserID, aud_ip = ip, aud_meta = meta\<rparr>"

text \<open>The database but for the audit log.\<close>

definition unaudited :: "db \<Rightarrow> db" where
  "unaudited d = d\<lparr>ga_audit_log := [], audit_serial := 0\<rparr>"

lemma unaudited_sel [simp]:
  "ga_users (unaudited d) = ga_users d" "ga_roles (unaudited d) = ga_roles d"
  "ga_role_permissions (unaudited d) = ga_role_permissions d" "ga_sessions (unaudited d) = ga_sessions d"
  "ga_outbox (unaudited d) = ga_outbox d"
  by (simp_all add: unaudited_def)

lemma unaudited_eq:
  "unaudited d = unaudited d' \<Longrightarrow> ga_users d = ga_users d' \<and> ga_roles d = ga_roles d' \<and>
     ga_role_permissions d = ga_role_permissions d' \<and> ga_sessions d = ga_sessions d' \<and>
     ga_outbox d = ga_outbox d' \<and> outbox_serial d = outbox_serial d'"
  by (metis db.select_convs(8) db.surjective db.update_convs(5) db.update_convs(7) unaudited_def unaudited_sel)

lemma Record_result: "fst (Record a e w) = Inr ()"
  by (simp add: Record_def attempt_simp)

lemma Record_Inr: "Record a e w = (r, w') \<Longrightarrow> r = Inr ()"
  by (metis Record_result fst_conv)

lemma stmt_InsertAuditEntry_unaudited:
  "stmt_keeps (\<lambda>d. unaudited d = v) (q_InsertAuditEntry ac an tg ip mt)"
  by (rule stmt_keepsI) (auto simp: q_InsertAuditEntry_def unaudited_def)

lemma frame_Record [frame_rules]: "frame (\<lambda>w. unaudited (db w)) (Record a e)" "frame cache (Record a e)"
proof -
  show "frame (\<lambda>w. unaudited (db w)) (Record a e)"
    unfolding frame_keeps Record_def InsertAuditEntry_def
    by (intro allI keeps_rules keeps_query [where P = "\<lambda>d. unaudited d = v" for v] stmt_InsertAuditEntry_unaudited)
  show "frame cache (Record a e)"
    unfolding Record_def by (intro frame_rules)
qed

lemma keeps_Record [keeps_rules]: "keeps_ok (Record a e)"
  unfolding Record_def by (intro keeps_rules)

text \<open>What a use case may conclude from having recorded: nothing but the audit log changed.\<close>

lemma Record_db: "Record a e w = (r, w') \<Longrightarrow> unaudited (db w') = unaudited (db w)"
  by (rule frameD [OF frame_Record(1)])

section \<open>roleguard\<close>

definition Actor :: "'r app \<Rightarrow> string \<Rightarrow> ('r, role) io" where
  "Actor a actorUserID =
     (if actorUserID = []
      then ret \<lparr>role_name = RoleSuperAdmin, role_rank = RankSuperAdmin, role_system = True,
                role_perms = AllPermissions, role_created = zero_time\<rparr>
      else ActorRole (pg a) actorUserID)"

definition CanActOnRole :: "role \<Rightarrow> int \<Rightarrow> error + unit" where
  "CanActOnRole actor targetRank =
     (if \<not> MayAssign (role_rank actor) targetRank then Inl ErrInsufficientRank else Inr ())"

definition CanActOnUser :: "role \<Rightarrow> int \<Rightarrow> error + unit" where
  "CanActOnUser actor targetRank =
     (if \<not> CanManage (role_rank actor) targetRank then Inl ErrInsufficientRank else Inr ())"

definition MayPlaceInRole :: "role \<Rightarrow> permission list \<Rightarrow> error + unit" where
  "MayPlaceInRole actor perms =
     (case ValidatePermissions perms of
        Inl err \<Rightarrow> Inl err
      | Inr _ \<Rightarrow> if \<not> HoldsAll (role_perms actor) perms then Inl ErrPermissionNotHeld else Inr ())"

lemma CanActOnRole_Inr [simp]: "CanActOnRole r k = Inr u \<longleftrightarrow> CanManage (role_rank r) k"
  by (simp add: CanActOnRole_def MayAssign_def)

lemma CanActOnUser_Inr [simp]: "CanActOnUser r k = Inr u \<longleftrightarrow> CanManage (role_rank r) k"
  by (simp add: CanActOnUser_def)

lemma MayPlaceInRole_Inr [simp]:
  "MayPlaceInRole r ps = Inr u \<longleftrightarrow> list_all KnownPermission ps \<and> set ps \<subseteq> set (role_perms r)"
  using ValidatePermissions_Inr [of ps]
  by (auto simp: MayPlaceInRole_def split: sum.splits)

lemma frame_Actor [frame_rules]: "frame db (Actor a i)" "frame cache (Actor a i)"
  unfolding Actor_def by (intro frame_rules)+

lemma keeps_Actor [keeps_rules]: "keeps_ok (Actor a i)"
  by (intro keeps_db frame_rules)

text \<open>
  Who acts: the machine caller, a superadmin by construction, or an active account whose rank and
  permissions are those of its role in the database.
\<close>

definition acting_role :: "'r app \<Rightarrow> db \<Rightarrow> string \<Rightarrow> role \<Rightarrow> bool" where
  "acting_role a d actorUserID r \<longleftrightarrow>
     (if actorUserID = [] then role_rank r = RankSuperAdmin \<and> role_perms r = AllPermissions
      else \<exists>i u rr. uuid_parse (sys a) actorUserID = Some i \<and> u \<in> set (ga_users d) \<and> ur_id u = i \<and>
        ur_status u = StatusActive \<and> role_row_of d (ur_role u) = Some rr \<and> role_rank r = rr_rank rr \<and>
        (db_ok d \<longrightarrow> set (role_perms r) = set (perms_of d (ur_role u))))"

lemma Actor_Inr: "Actor a i w = (Inr r, w') \<Longrightarrow> acting_role a (db w) i r \<and> db w' = db w"
  by (auto simp: Actor_def acting_role_def split: if_splits dest!: ActorRole_Inr)

section \<open>tokens\<close>

record pair =
  AccessToken :: string
  RefreshToken :: string
  TokenType :: string
  ExpiresIn :: int
  ExpiresAt :: instant
  RefreshExpiresAt :: instant
  pr_session :: string
  pr_family :: string

record token_context =
  tc_ip :: string
  tc_agent :: string
  tc_auth_time :: instant
  tc_now :: instant

definition refreshTokenBytes :: nat where "refreshTokenBytes = 32"

definition HashRefresh :: "ext \<Rightarrow> string \<Rightarrow> string" where
  "HashRefresh e raw = sha256 e raw"

definition newRefreshToken :: "ext \<Rightarrow> ('r, string \<times> string) io" where
  "newRefreshToken e =
     andthen (map_err (Wrap ''tokens: read random'') (rand_Read e refreshTokenBytes)) (\<lambda>buf.
     let raw = raw_encode True buf in ret (raw, HashRefresh e raw))"

definition sign_pair :: "'r app \<Rightarrow> user \<Rightarrow> session \<Rightarrow> string \<Rightarrow> token_context \<Rightarrow> ('r, pair) io" where
  "sign_pair a u s refresh c =
     andthen (Sign (sys a) (signing a) (usr_id u) (ses_id s) (usr_role u) (tc_auth_time c) (tc_now c))
       (\<lambda>(access, _, expiresAt).
     ret \<lparr>AccessToken = access, RefreshToken = refresh, TokenType = ''Bearer'',
          ExpiresIn = whole_seconds (AccessTTL (sg_cfg (signing a))), ExpiresAt = expiresAt,
          RefreshExpiresAt = ses_expires s, pr_session = ses_id s, pr_family = ses_family s\<rparr>)"

definition session_params ::
  "'r app \<Rightarrow> user \<Rightarrow> string \<Rightarrow> string \<Rightarrow> token_context \<Rightarrow> create_session_params" where
  "session_params a u familyID hash c =
     \<lparr>cs_user = usr_id u, cs_family = familyID, cs_hash = hash,
      cs_expires = tc_now c + RefreshTTL (sg_cfg (signing a)), cs_ip = tc_ip c, cs_agent = tc_agent c\<rparr>"

definition Issue :: "'r app \<Rightarrow> user \<Rightarrow> token_context \<Rightarrow> ('r, pair) io" where
  "Issue a u c =
     andthen (NewString (sys a)) (\<lambda>familyID.
     andthen (newRefreshToken (sys a)) (\<lambda>(refresh, hash).
     andthen (map_err (Wrap ''tokens: create session'')
       (CreateSession (pg a) (session_params a u familyID hash c))) (\<lambda>s.
     sign_pair a u s refresh c)))"

definition Rotate :: "'r app \<Rightarrow> string \<Rightarrow> user \<Rightarrow> string \<Rightarrow> token_context \<Rightarrow> ('r, pair) io" where
  "Rotate a presentedHash u familyID c =
     andthen (newRefreshToken (sys a)) (\<lambda>(refresh, hash).
     andthen (RotateSession (pg a) presentedHash (session_params a u familyID hash c)) (\<lambda>s.
     sign_pair a u s refresh c))"

lemma frame_newRefreshToken [frame_rules]:
  "frame db (newRefreshToken e)" "frame cache (newRefreshToken e)"
  unfolding newRefreshToken_def by (intro frame_rules)+

lemma frame_case_prod [frame_rules]:
  "(\<And>a b. frame f (g a b)) \<Longrightarrow> frame f (case r of (a, b) \<Rightarrow> g a b)"
  by (cases r) auto

lemma frame_sign_pair [frame_rules]:
  "frame db (sign_pair a u s r c)" "frame cache (sign_pair a u s r c)"
  unfolding sign_pair_def by (intro frame_rules)+

lemma keeps_Issue [keeps_rules]: "keeps_ok (Issue a u c)"
  unfolding Issue_def by (intro keeps_rules keeps_db frame_rules)

lemma keeps_Rotate [keeps_rules]: "keeps_ok (Rotate a h u f c)"
  unfolding Rotate_def by (intro keeps_rules keeps_db frame_rules)

lemma newRefreshToken_Inr:
  "newRefreshToken e w = (Inr (raw, hash), w') \<Longrightarrow> hash = HashRefresh e raw \<and> db w' = db w"
  using frameD [OF frame_newRefreshToken(1)]
  by (fastforce simp: newRefreshToken_def act_inv Let_def)

lemma sign_pair_Inr:
  assumes "sign_pair a u s refresh c w = (Inr p, w')"
  shows "RefreshToken p = refresh \<and> RefreshExpiresAt p = ses_expires s \<and> pr_session p = ses_id s \<and>
    pr_family p = ses_family s \<and> db w' = db w \<and>
    (\<exists>jti. jwt_sign (sys a) (sg_priv (signing a)) (sg_kid (signing a))
       (claims_of (signing a) (usr_id u) (ses_id s) (usr_role u) (tc_auth_time c) (tc_now c) jti)
       = Some (AccessToken p))"
  using assms frameD [OF frame_sign_pair(1) assms]
  by (auto simp: sign_pair_def Sign_def act_inv split: option.splits)

text \<open>
  A pair that was issued: its refresh token is stored as its hash, in a new, unspent session of the
  user.
\<close>

lemma Issue_Inr:
  assumes "Issue a u c w = (Inr p, w')"
  shows "\<exists>s. db w' = add_session s (db w) \<and> sr_hash s = HashRefresh (sys a) (RefreshToken p) \<and>
    sr_used s = None \<and> uuid_parse (sys a) (usr_id u) = Some (sr_user s) \<and>
    sr_expires s = tc_now c + RefreshTTL (sg_cfg (signing a)) \<and>
    pr_session p = uuid_text (sys a) (sr_id s) \<and> pr_family p = uuid_text (sys a) (sr_family s)"
proof -
  from assms obtain fam raw hash s0 w1 w2 w3 where
    n: "NewString (sys a) w = (Inr fam :: error + string, w1)" "newRefreshToken (sys a) w1 = (Inr (raw, hash), w2)"
    and cs: "CreateSession (pg a) (session_params a u fam hash c) w2 = (Inr s0, w3)"
    and sp: "sign_pair a u s0 raw c w3 = (Inr p, w')"
    by (auto simp: Issue_def act_inv)
  have "db w1 = db w"
    using frameD [OF frame_NewString [of db] n(1)] by simp
  with newRefreshToken_Inr [OF n(2)] CreateSession_Inr [OF cs] sign_pair_Inr [OF sp]
  show ?thesis by (auto simp: new_session_def session_params_def toDomainSession_def)
qed

lemma Rotate_Inr:
  assumes "Rotate a h u f c w = (Inr p, w')"
  shows "\<exists>now s n. s \<in> set (ga_sessions (db w)) \<and> spendable h now s \<and>
    db w' = add_session n (spend h now (db w)) \<and> sr_hash n = HashRefresh (sys a) (RefreshToken p) \<and>
    sr_hash n \<notin> sr_hash ` set (ga_sessions (spend h now (db w))) \<and>
    sr_used n = None \<and> uuid_parse (sys a) (usr_id u) = Some (sr_user n) \<and>
    uuid_parse (sys a) f = Some (sr_family n) \<and> sr_created n = now \<and>
    sr_expires n = tc_now c + RefreshTTL (sg_cfg (signing a)) \<and>
    pr_session p = uuid_text (sys a) (sr_id n) \<and>
    (\<exists>jti. jwt_sign (sys a) (sg_priv (signing a)) (sg_kid (signing a))
       (claims_of (signing a) (usr_id u) (pr_session p) (usr_role u) (tc_auth_time c) (tc_now c) jti)
       = Some (AccessToken p))"
proof -
  from assms obtain raw hash s0 w2 w3 where
    n: "newRefreshToken (sys a) w = (Inr (raw, hash), w2)"
    and cs: "RotateSession (pg a) h (session_params a u f hash c) w2 = (Inr s0, w3)"
    and sp: "sign_pair a u s0 raw c w3 = (Inr p, w')"
    by (auto simp: Rotate_def act_inv)
  from RotateSession_Inr [OF cs] obtain now s ns where
    "s \<in> set (ga_sessions (db w2))" "spendable h now s" "new_session (pg a) (session_params a u f hash c) ns"
    "s0 = toDomainSession (sys a) ns" "sr_hash ns \<notin> sr_hash ` set (ga_sessions (spend h now (db w2)))"
    "sr_created ns = now" "db w3 = add_session ns (spend h now (db w2))"
    by blast
  with newRefreshToken_Inr [OF n] sign_pair_Inr [OF sp]
  show ?thesis
    by (intro exI [of _ now] exI [of _ s] exI [of _ ns])
      (auto simp: new_session_def session_params_def toDomainSession_def)
qed

end
