(* ===== verification/AuthToken.thy ===== *)
theory AuthToken
  imports Services
begin

text \<open>
  Use case \<open>auth_token\<close>: the password grant and the refresh grant, with the handler in front of
  them.
\<close>

section \<open>Input and output\<close>

definition GrantPassword :: string where "GrantPassword = ''password''"
definition GrantRefresh :: string where "GrantRefresh = ''refresh_token''"

record token_input =
  ti_grant :: string
  ti_identifier :: string
  ti_password :: string
  ti_refresh :: string
  ti_ip :: string
  ti_agent :: string

definition Validate_token :: "token_input \<Rightarrow> error + token_input" where
  "Validate_token inp =
     (let inp = inp\<lparr>ti_grant := TrimSpace (ti_grant inp)\<rparr> in
      if ti_grant inp = GrantPassword then
        if TrimSpace (ti_identifier inp) = [] \<or> ti_password inp = [] then Inl ErrInvalidCredentials
        else Inr inp
      else if ti_grant inp = GrantRefresh then
        if TrimSpace (ti_refresh inp) = [] then Inl ErrSessionNotFound else Inr inp
      else Inl ErrInvalidInput)"

record user_view =
  uv_id :: string
  uv_username :: string
  uv_email :: string
  uv_role :: string

definition viewOf :: "user \<Rightarrow> user_view" where
  "viewOf u = \<lparr>uv_id = usr_id u, uv_username = usr_username u, uv_email = usr_email u, uv_role = usr_role u\<rparr>"

record token_output =
  to_access :: string
  to_type :: string
  to_expires_in :: int
  to_expires_at :: instant
  to_refresh :: string
  to_refresh_expires :: instant
  to_user :: user_view

definition output_of :: "pair \<Rightarrow> user \<Rightarrow> token_output" where
  "output_of p u =
     \<lparr>to_access = AccessToken p, to_type = TokenType p, to_expires_in = ExpiresIn p,
      to_expires_at = ExpiresAt p, to_refresh = RefreshToken p, to_refresh_expires = RefreshExpiresAt p,
      to_user = viewOf u\<rparr>"

section \<open>The grants\<close>

definition login_key :: "string \<Rightarrow> string" where
  "login_key identifier = ''login:'' @ identifier"

definition statusError :: "user \<Rightarrow> error + unit" where
  "statusError u =
     (if usr_status u = StatusBlocked then Inl ErrUserBlocked
      else if usr_status u = StatusDeleted then Inl ErrUserDeleted
      else Inr ())"

definition lookup_user :: "'r app \<Rightarrow> string \<Rightarrow> ('r, user) io" where
  "lookup_user a identifier =
     (if LooksLikeEmail identifier then GetUserByEmail (pg a) identifier
      else GetUserByUsername (pg a) identifier)"

definition penalise :: "'r app \<Rightarrow> string \<Rightarrow> ('r, unit) io" where
  "penalise a identifier =
     attempt (RegisterFailure (limiting a) (login_key identifier)) (\<lambda>_. ret ())"

text \<open>The backoff check at the head of the password grant.\<close>

definition backoff_gate :: "'r app \<Rightarrow> string \<Rightarrow> ('r, unit) io" where
  "backoff_gate a identifier =
     attempt (Backoff (limiting a) (login_key identifier)) (\<lambda>r. case r of
       Inl err \<Rightarrow> if fail_closed a then raise (Wrap ''auth_token: backoff check'' err) else ret ()
     | Inr wait \<Rightarrow> if wait > 0 then raise (Wrap ''retry'' ErrTooManyAttempts) else ret ())"

definition passwordGrant :: "'r app \<Rightarrow> token_input \<Rightarrow> instant \<Rightarrow> ('r, token_output) io" where
  "passwordGrant a inp now =
     (case NormalizeIdentifier (sys a) (ti_identifier inp) of
        Inl _ \<Rightarrow>
          andthen (DummyVerify (sys a) (hashing a) (ti_password inp)) (\<lambda>_. raise ErrInvalidCredentials)
      | Inr identifier \<Rightarrow>
          andthen (backoff_gate a identifier) (\<lambda>_.
          attempt (lookup_user a identifier) (\<lambda>r. case r of
            Inl err \<Rightarrow>
              if errors_is err ErrUserNotFound then
                andthen (DummyVerify (sys a) (hashing a) (ti_password inp)) (\<lambda>_.
                andthen (penalise a identifier) (\<lambda>_.
                andthen (Record a (Event ActorSystem ActionUserLoginFailed [] (ti_ip inp)
                  [(''identifier'', MStr identifier), (''reason'', MStr ''unknown_identifier'')])) (\<lambda>_.
                raise ErrInvalidCredentials)))
              else raise (Wrap ''auth_token: lookup'' err)
          | Inr user \<Rightarrow>
              (case Verify (sys a) (usr_hash user) (ti_password inp) of
                 Inl err \<Rightarrow> raise (Wrap ''auth_token: verify password'' err)
               | Inr ok \<Rightarrow>
                   if \<not> ok then
                     andthen (penalise a identifier) (\<lambda>_.
                     andthen (Record a (Event (ActorUser (usr_id user)) ActionUserLoginFailed (usr_id user)
                       (ti_ip inp) [(''reason'', MStr ''bad_password'')])) (\<lambda>_.
                     raise ErrInvalidCredentials))
                   else
                     andthen (lift (statusError user)) (\<lambda>_.
                     andthen (map_err (Wrap ''auth_token: issue'') (Issue a user
                       \<lparr>tc_ip = ti_ip inp, tc_agent = ti_agent inp, tc_auth_time = now, tc_now = now\<rparr>)) (\<lambda>pair.
                     attempt (Reset (limiting a) (login_key identifier)) (\<lambda>_.
                     andthen (map_err (Wrap ''auth_token: touch login'') (TouchUserLogin (pg a) (usr_id user))) (\<lambda>_.
                     andthen (Record a (Event (ActorUser (usr_id user)) ActionUserLogin (usr_id user)
                       (ti_ip inp) [])) (\<lambda>_.
                     ret (output_of pair user))))))))))"

definition load_error :: "error \<Rightarrow> error" where
  "load_error err =
     (if errors_is err ErrSessionNotFound then ErrSessionNotFound
      else Wrap ''auth_token: load session'' err)"

definition refreshGrant :: "'r app \<Rightarrow> token_input \<Rightarrow> instant \<Rightarrow> ('r, token_output) io" where
  "refreshGrant a inp now =
     (let hash = HashRefresh (sys a) (ti_refresh inp) in
      andthen (map_err load_error (GetSessionByRefreshHash (pg a) hash)) (\<lambda>session.
      if Spent session then
        andthen (map_err (Wrap ''auth_token: destroy reused family'')
          (DeleteSessionFamily (pg a) (ses_family session))) (\<lambda>_.
        andthen (Record a (Event ActorSystem ActionRefreshReuse (ses_user session) (ti_ip inp)
          [(''family_id'', MStr (ses_family session))])) (\<lambda>_.
        raise ErrRefreshReused))
      else if Expired session now then raise ErrSessionExpired
      else
        andthen (map_err (Wrap ''auth_token: load user'') (GetUserByID (pg a) (ses_user session))) (\<lambda>user.
        andthen (lift (statusError user)) (\<lambda>_.
        attempt (Rotate a hash user (ses_family session)
          \<lparr>tc_ip = ti_ip inp, tc_agent = ti_agent inp, tc_auth_time = ses_created session, tc_now = now\<rparr>)
          (\<lambda>r. case r of
            Inl err \<Rightarrow>
              if errors_is err ErrRefreshReused then
                andthen (map_err (Wrap ''auth_token: destroy raced family'')
                  (DeleteSessionFamily (pg a) (ses_family session))) (\<lambda>_.
                raise ErrRefreshReused)
              else raise (Wrap ''auth_token: rotate'' err)
          | Inr pair \<Rightarrow>
              andthen (Record a (Event (ActorUser (usr_id user)) ActionTokenRefreshed (usr_id user)
                (ti_ip inp) [])) (\<lambda>_.
              ret (output_of pair user)))))))"

definition Execute_token :: "'r app \<Rightarrow> token_input \<Rightarrow> ('r, token_output) io" where
  "Execute_token a inp =
     andthen Now (\<lambda>now.
     if ti_grant inp = GrantPassword then passwordGrant a inp now
     else if ti_grant inp = GrantRefresh then refreshGrant a inp now
     else raise ErrInvalidInput)"

section \<open>The handler\<close>

text \<open>\<open>body\<close> is what \<open>ShouldBindJSON\<close> made of the request body.\<close>

definition Handle_token ::
  "'r app \<Rightarrow> ctx \<Rightarrow> request \<Rightarrow> token_input option \<Rightarrow> 'r world \<Rightarrow> token_output response \<times> 'r world" where
  "Handle_token a c req body w =
     (case body of
        None \<Rightarrow> (BadRequest ''invalid request body'', w)
      | Some b \<Rightarrow>
          let inp = b\<lparr>ti_ip := cx_client_ip c, ti_agent := req_agent req\<rparr>;
              inp = (if TrimSpace (ti_grant inp) = GrantRefresh \<and> TrimSpace (ti_refresh inp) = []
                     then (case RefreshFromRequest (cookies a) req of
                             Some raw \<Rightarrow> inp\<lparr>ti_refresh := raw\<rparr> | None \<Rightarrow> inp)
                     else inp)
          in (case Validate_token inp of
                Inl err \<Rightarrow> (apierr_Write err, w)
              | Inr inp \<Rightarrow>
                  (case Execute_token a inp w of
                     (Inl err, w') \<Rightarrow>
                       (if errors_is err ErrTooManyAttempts
                        then TooManyRequests ''too many attempts, try again later'' else apierr_Write err, w')
                   | (Inr out, w') \<Rightarrow>
                       (case (Now w' :: (error + instant) \<times> 'r world) of (r, w2) \<Rightarrow>
                          let t = (case r of Inr t \<Rightarrow> t | Inl _ \<Rightarrow> clock w2) in
                          ((OK out)\<lparr>rs_no_store := True,
                             rs_cookies := Set_cookies (cookies a) (to_access out) (to_refresh out)
                               (to_expires_in out * Second) (to_refresh_expires out - t)\<rparr>, w2)))))"

end
