(* ===== verification/Account.thy ===== *)
theory Account
  imports AuthToken
begin

text \<open>
  The self-service use cases of \<open>internal/usecases/auth\<close> beside the token endpoint: registration,
  password change, the account and session views, logout, the public settings and the JWKS
  document, each with its handler.
\<close>

text \<open>The common end of a handler: \<open>apierr.Write\<close> on an error, the given answer otherwise.\<close>

definition respond :: "('o \<Rightarrow> 'b response) \<Rightarrow> ('r, 'o) io \<Rightarrow> 'r world \<Rightarrow> 'b response \<times> 'r world" where
  "respond f m w = (case m w of
      (Inl err, w') \<Rightarrow> (apierr_Write err, w')
    | (Inr out, w') \<Rightarrow> (f out, w'))"

definition invalid_body :: "'r world \<Rightarrow> 'b response \<times> 'r world" where
  "invalid_body w = (BadRequest ''invalid request body'', w)"

section \<open>auth_register\<close>

definition ModeClosed :: string where "ModeClosed = ''closed''"
definition ModeOpen :: string where "ModeOpen = ''open''"

definition Open :: "'r app \<Rightarrow> bool" where
  "Open a \<longleftrightarrow> registration_mode a = ModeOpen"

record register_input =
  ri_username :: string
  ri_email :: string
  ri_password :: string
  ri_ip :: string
  ri_agent :: string

definition Validate_register :: "register_input \<Rightarrow> error + register_input" where
  "Validate_register inp =
     (let inp = inp\<lparr>ri_username := TrimSpace (ri_username inp), ri_email := TrimSpace (ri_email inp)\<rparr> in
      if ri_username inp = [] \<and> ri_email inp = [] then Inl ErrNoIdentifier
      else if ri_password inp = [] then Inl ErrPasswordTooWeak
      else Inr inp)"

text \<open>\<open>identifiers\<close>: at least one, both normalised; an email is required where configured.\<close>

definition identifiers :: "'r app \<Rightarrow> register_input \<Rightarrow> error + string \<times> string" where
  "identifiers a inp =
     (let hasUsername = TrimSpace (ri_username inp) \<noteq> []; hasEmail = TrimSpace (ri_email inp) \<noteq> [] in
      if \<not> hasUsername \<and> \<not> hasEmail then Inl ErrNoIdentifier
      else if require_email a \<and> \<not> hasEmail then Inl ErrNoIdentifier
      else (case (if hasUsername then NormalizeUsername (sys a) (ri_username inp) else Inr []) of
              Inl err \<Rightarrow> Inl err
            | Inr username \<Rightarrow>
                (case (if hasEmail then NormalizeEmail (sys a) (ri_email inp) else Inr []) of
                   Inl err \<Rightarrow> Inl err
                 | Inr email \<Rightarrow> Inr (username, email))))"

text \<open>The pair a fresh login gets; both registration and the password change end with it.\<close>

definition fresh_login :: "'r app \<Rightarrow> string \<Rightarrow> string \<Rightarrow> string \<Rightarrow> user \<Rightarrow> ('r, pair) io" where
  "fresh_login a msg ip agent user =
     andthen Now (\<lambda>now. map_err (Wrap msg)
       (Issue a user \<lparr>tc_ip = ip, tc_agent = agent, tc_auth_time = now, tc_now = now\<rparr>))"

record register_output =
  rgo_access :: string
  rgo_type :: string
  rgo_expires_in :: int
  rgo_expires_at :: instant
  rgo_refresh :: string
  rgo_user :: user_view

definition register_output_of :: "pair \<Rightarrow> user \<Rightarrow> register_output" where
  "register_output_of p u =
     \<lparr>rgo_access = AccessToken p, rgo_type = TokenType p, rgo_expires_in = ExpiresIn p,
      rgo_expires_at = ExpiresAt p, rgo_refresh = RefreshToken p, rgo_user = viewOf u\<rparr>"

definition Execute_register :: "'r app \<Rightarrow> register_input \<Rightarrow> ('r, register_output) io" where
  "Execute_register a inp =
     (if \<not> Open a then raise ErrRegistrationClosed
      else
        andthen (lift (identifiers a inp)) (\<lambda>(username, email).
        andthen (lift (ValidatePassword (ri_password inp) (min_password_len a))) (\<lambda>_.
        andthen (map_err (Wrap ''auth_register: hash password'') (Hash (sys a) (hp (hashing a)) (ri_password inp))) (\<lambda>hash.
        andthen (CreateUser (pg a) \<lparr>cu_event = Some (named_event EventUserCreated), cu_username = username,
            cu_email = email, cu_hash = hash, cu_role = RoleUser, cu_status = StatusActive\<rparr>) (\<lambda>user.
        andthen (fresh_login a ''auth_register: issue'' (ri_ip inp) (ri_agent inp) user) (\<lambda>pair.
        andthen (Record a (Event (ActorUser (usr_id user)) ActionUserRegistered (usr_id user) (ri_ip inp) [])) (\<lambda>_.
        ret (register_output_of pair user))))))))"

text \<open>The route exists only while registration is open; unlike a login, it sets no cookies.\<close>

definition Enabled_register :: "'r app \<Rightarrow> bool" where
  "Enabled_register a = Open a"

definition Handle_register ::
  "'r app \<Rightarrow> ctx \<Rightarrow> request \<Rightarrow> register_input option \<Rightarrow> 'r world \<Rightarrow> register_output response \<times> 'r world" where
  "Handle_register a c req body =
     (case body of
        None \<Rightarrow> invalid_body
      | Some b \<Rightarrow>
          respond (\<lambda>out. (Created out)\<lparr>rs_no_store := True\<rparr>)
            (andthen (lift (Validate_register (b\<lparr>ri_ip := cx_client_ip c, ri_agent := req_agent req\<rparr>)))
              (Execute_register a)))"

section \<open>auth_password_change\<close>

record password_input =
  pi_current :: string
  pi_new :: string
  pi_user :: string
  pi_ip :: string
  pi_agent :: string

definition Validate_password_change :: "password_input \<Rightarrow> error + password_input" where
  "Validate_password_change inp =
     (if pi_current inp = [] then Inl ErrInvalidCredentials
      else if pi_new inp = [] then Inl ErrPasswordTooWeak
      else Inr inp)"

record password_output =
  po_access :: string
  po_type :: string
  po_expires_in :: int
  po_expires_at :: instant
  po_refresh :: string
  po_refresh_expires :: instant

definition password_output_of :: "pair \<Rightarrow> password_output" where
  "password_output_of p =
     \<lparr>po_access = AccessToken p, po_type = TokenType p, po_expires_in = ExpiresIn p,
      po_expires_at = ExpiresAt p, po_refresh = RefreshToken p, po_refresh_expires = RefreshExpiresAt p\<rparr>"

definition Execute_password_change :: "'r app \<Rightarrow> password_input \<Rightarrow> ('r, password_output) io" where
  "Execute_password_change a inp =
     andthen (GetUserByID (pg a) (pi_user inp)) (\<lambda>user.
     andthen (map_err (Wrap ''auth_password_change: verify current'')
       (lift (Verify (sys a) (usr_hash user) (pi_current inp)))) (\<lambda>ok.
     if \<not> ok then raise ErrInvalidCredentials
     else
       andthen (lift (ValidatePassword (pi_new inp) (min_password_len a))) (\<lambda>_.
       andthen (map_err (Wrap ''auth_password_change: hash'') (Hash (sys a) (hp (hashing a)) (pi_new inp))) (\<lambda>hash.
       andthen (SetPasswordAndRevokeSessions (pg a) (usr_id user) hash (Some (named_event EventUserPasswordChanged)))
         (\<lambda>updated.
       andthen (fresh_login a ''auth_password_change: issue'' (pi_ip inp) (pi_agent inp) updated) (\<lambda>pair.
       andthen (Record a (Event (ActorUser (usr_id user)) ActionPasswordChanged (usr_id user) (pi_ip inp) [])) (\<lambda>_.
       ret (password_output_of pair))))))))"

text \<open>\<open>cookies.Set\<close> after a success, with what \<open>time.Until\<close> says of the refresh lifetime.\<close>

definition set_login_cookies ::
  "'r app \<Rightarrow> string \<Rightarrow> string \<Rightarrow> int \<Rightarrow> instant \<Rightarrow> 'b response \<Rightarrow> 'r world \<Rightarrow> 'b response \<times> 'r world" where
  "set_login_cookies a access refresh expires_in refresh_expires rs w =
     (case (Now w :: (error + instant) \<times> 'r world) of (r, w2) \<Rightarrow>
        let t = (case r of Inr t \<Rightarrow> t | Inl _ \<Rightarrow> clock w2) in
        (rs\<lparr>rs_no_store := True,
            rs_cookies := Set_cookies (cookies a) access refresh (expires_in * Second) (refresh_expires - t)\<rparr>, w2))"

definition Handle_password_change ::
  "'r app \<Rightarrow> ctx \<Rightarrow> request \<Rightarrow> password_input option \<Rightarrow> 'r world \<Rightarrow> password_output response \<times> 'r world" where
  "Handle_password_change a c req body w =
     (case body of
        None \<Rightarrow> invalid_body w
      | Some b \<Rightarrow>
          let inp = b\<lparr>pi_user := cx_user c, pi_ip := cx_client_ip c, pi_agent := req_agent req\<rparr> in
          (case Validate_password_change inp of
             Inl err \<Rightarrow> (apierr_Write err, w)
           | Inr inp \<Rightarrow>
               (case Execute_password_change a inp w of
                  (Inl err, w') \<Rightarrow> (apierr_Write err, w')
                | (Inr out, w') \<Rightarrow>
                    set_login_cookies a (po_access out) (po_refresh out) (po_expires_in out) (po_refresh_expires out)
                      (OK out) w')))"

section \<open>auth_revoke and auth_logout_all\<close>

definition Execute_revoke :: "'r app \<Rightarrow> string \<Rightarrow> string \<Rightarrow> string \<Rightarrow> ('r, int) io" where
  "Execute_revoke a userID sessionID ip =
     (if sessionID = [] then raise ErrSessionNotFound
      else
        attempt (GetSessionByID (pg a) sessionID) (\<lambda>r. case r of
          Inl err \<Rightarrow> if errors_is err ErrSessionNotFound then ret 0 else raise err
        | Inr session \<Rightarrow>
            if ses_user session \<noteq> userID then raise ErrForbidden
            else
              andthen (DeleteSessionFamily (pg a) (ses_family session)) (\<lambda>n.
              andthen (Record a (Event (ActorUser userID) ActionSessionRevoked userID ip
                [(''family_id'', MStr (ses_family session))])) (\<lambda>_.
              ret n))))"

definition with_cleared :: "'r app \<Rightarrow> 'b response \<Rightarrow> 'b response" where
  "with_cleared a rs = rs\<lparr>rs_cookies := Clear_cookies (cookies a)\<rparr>"

definition Handle_revoke :: "'r app \<Rightarrow> ctx \<Rightarrow> 'r world \<Rightarrow> int response \<times> 'r world" where
  "Handle_revoke a c =
     respond (\<lambda>n. with_cleared a (OK n)) (Execute_revoke a (cx_user c) (cx_session c) (cx_client_ip c))"

definition Execute_logout_all :: "'r app \<Rightarrow> string \<Rightarrow> string \<Rightarrow> ('r, int) io" where
  "Execute_logout_all a userID ip =
     andthen (DeleteUserSessions (pg a) userID) (\<lambda>n.
     andthen (Record a (Event (ActorUser userID) ActionSessionsRevoked userID ip [(''count'', MInt n)])) (\<lambda>_.
     ret n))"

definition Handle_logout_all :: "'r app \<Rightarrow> ctx \<Rightarrow> 'r world \<Rightarrow> int response \<times> 'r world" where
  "Handle_logout_all a c =
     respond (\<lambda>n. with_cleared a (OK n)) (Execute_logout_all a (cx_user c) (cx_client_ip c))"

section \<open>auth_me and session_list\<close>

text \<open>The account as its owner sees it: everything but the hash and the time of the last change.\<close>

record me_view =
  me_id :: string
  me_username :: string
  me_email :: string
  me_role :: string
  me_status :: string
  me_last_login :: "instant option"
  me_created :: instant

definition me_of :: "user \<Rightarrow> me_view" where
  "me_of u = \<lparr>me_id = usr_id u, me_username = usr_username u, me_email = usr_email u, me_role = usr_role u,
     me_status = usr_status u, me_last_login = usr_last_login u, me_created = usr_created u\<rparr>"

definition Execute_me :: "'r app \<Rightarrow> string \<Rightarrow> ('r, me_view) io" where
  "Execute_me a userID = andthen (GetUserByID (pg a) userID) (\<lambda>user. ret (me_of user))"

definition Handle_me :: "'r app \<Rightarrow> ctx \<Rightarrow> 'r world \<Rightarrow> me_view response \<times> 'r world" where
  "Handle_me a c = respond OK (Execute_me a (cx_user c))"

record session_view =
  sv_id :: string
  sv_ip :: string
  sv_agent :: string
  sv_created :: instant
  sv_expires :: instant
  sv_current :: bool

definition session_view_of :: "string \<Rightarrow> session \<Rightarrow> session_view" where
  "session_view_of current s = \<lparr>sv_id = ses_id s, sv_ip = ses_ip s, sv_agent = ses_agent s,
     sv_created = ses_created s, sv_expires = ses_expires s, sv_current = (ses_id s = current)\<rparr>"

definition Execute_session_list :: "'r app \<Rightarrow> string \<Rightarrow> string \<Rightarrow> ('r, session_view list) io" where
  "Execute_session_list a userID current =
     andthen (ListLiveUserSessions (pg a) userID) (\<lambda>sessions. ret (map (session_view_of current) sessions))"

definition Handle_session_list :: "'r app \<Rightarrow> ctx \<Rightarrow> 'r world \<Rightarrow> session_view list response \<times> 'r world" where
  "Handle_session_list a c = respond OK (Execute_session_list a (cx_user c) (cx_session c))"

section \<open>auth_settings and auth_jwks\<close>

record settings_view =
  st_registration :: string
  st_min_password_len :: int
  st_issuer :: string

definition Execute_settings :: "'r app \<Rightarrow> ('r, settings_view) io" where
  "Execute_settings a = ret \<lparr>st_registration = registration_mode a, st_min_password_len = min_password_len a,
     st_issuer = Issuer (sg_cfg (signing a))\<rparr>"

definition Handle_settings :: "'r app \<Rightarrow> 'r world \<Rightarrow> settings_view response \<times> 'r world" where
  "Handle_settings a = respond OK (Execute_settings a)"

definition Execute_jwks :: "'r app \<Rightarrow> ('r, jwk list) io" where
  "Execute_jwks a = ret (sg_jwks (signing a))"

definition Handle_jwks :: "'r app \<Rightarrow> 'r world \<Rightarrow> jwk list response \<times> 'r world" where
  "Handle_jwks a = respond OK (Execute_jwks a)"

section \<open>They keep the tables well-formed\<close>

lemma keeps_fresh_login [keeps_rules]: "keeps_ok (fresh_login a m ip ag u)"
  unfolding fresh_login_def by (intro keeps_rules keeps_db frame_rules)

lemma keeps_account [keeps_rules]:
  "keeps_ok (Execute_register a ri)" "keeps_ok (Execute_password_change a pin)"
  "keeps_ok (Execute_revoke a u s ip)" "keeps_ok (Execute_logout_all a u ip)"
  "keeps_ok (Execute_me a u)" "keeps_ok (Execute_session_list a u cur)"
  unfolding Execute_register_def Execute_password_change_def Execute_revoke_def Execute_logout_all_def
    Execute_me_def Execute_session_list_def
  by (intro keeps_rules keeps_db frame_rules)+

end
