(* ===== verification/AdminUsers.thy ===== *)
theory AdminUsers
  imports Account
begin

text \<open>
  The administration of users: the use cases of \<open>internal/usecases/admin\<close> that create, change,
  delete and list accounts, set passwords, end sessions and read the audit log, with their handlers.
  A path parameter is an argument of the handler, a query string the list of its parameters.
\<close>

text \<open>Who calls: \<open>UserID(c)\<close> (empty for a machine), the audit name of the caller, the address.\<close>

record caller =
  by_user :: string
  by_name :: string
  by_ip :: string

definition caller_of :: "ctx \<Rightarrow> caller" where
  "caller_of c = \<lparr>by_user = cx_user c, by_name = cx_actor c, by_ip = cx_client_ip c\<rparr>"

text \<open>
  The rank discipline of delete, set password and revoke: the actor's role and the target's role
  are read, and the actor must sit strictly above.
\<close>

definition guard_target :: "'r app \<Rightarrow> caller \<Rightarrow> user \<Rightarrow> ('r, unit) io" where
  "guard_target a by user =
     andthen (Actor a (by_user by)) (\<lambda>actor.
     andthen (GetRole (pg a) (usr_role user)) (\<lambda>targetRole.
     lift (CanActOnUser actor (role_rank targetRole))))"

text \<open>A step that would take away an active superadmin needs another one.\<close>

definition guard_last_admin :: "'r app \<Rightarrow> bool \<Rightarrow> ('r, unit) io" where
  "guard_last_admin a risky =
     (if risky then andthen (CountActiveSuperAdmins (pg a)) (\<lambda>admins.
        if admins \<le> 1 then raise ErrLastAdmin else ret ())
      else ret ())"

definition present_id :: "string \<Rightarrow> error + unit" where
  "present_id i = (if TrimSpace i = [] then Inl ErrUserNotFound else Inr ())"

section \<open>admin_user_create\<close>

record user_create_input =
  uc_username :: string
  uc_email :: string
  uc_password :: string
  uc_role :: string
  uc_status :: string

definition Validate_user_create :: "user_create_input \<Rightarrow> error + user_create_input" where
  "Validate_user_create inp =
     (if uc_password inp = [] then Inl ErrPasswordTooWeak
      else if uc_status inp \<in> {[], StatusActive, StatusBlocked} then Inr inp
      else Inl ErrInvalidInput)"

record user_summary =
  us_id :: string
  us_username :: string
  us_email :: string
  us_role :: string
  us_status :: string
  us_stamp :: instant

definition created_view :: "user \<Rightarrow> user_summary" where
  "created_view u = \<lparr>us_id = usr_id u, us_username = usr_username u, us_email = usr_email u,
     us_role = usr_role u, us_status = usr_status u, us_stamp = usr_created u\<rparr>"

definition optional_identifier :: "(string \<Rightarrow> error + string) \<Rightarrow> string \<Rightarrow> error + string" where
  "optional_identifier normalise s = (if TrimSpace s \<noteq> [] then normalise s else Inr [])"

definition Execute_user_create :: "'r app \<Rightarrow> caller \<Rightarrow> user_create_input \<Rightarrow> ('r, user_summary) io" where
  "Execute_user_create a by inp =
     andthen (lift (optional_identifier (NormalizeUsername (sys a)) (uc_username inp))) (\<lambda>username.
     andthen (lift (optional_identifier (NormalizeEmail (sys a)) (uc_email inp))) (\<lambda>email.
     if username = [] \<and> email = [] then raise ErrNoIdentifier
     else
       andthen (lift (ValidatePassword (uc_password inp) (min_password_len a))) (\<lambda>_.
       let role = (if uc_role inp = [] then RoleUser else uc_role inp) in
       andthen (GetRole (pg a) role) (\<lambda>assigned.
       andthen (Actor a (by_user by)) (\<lambda>actor.
       andthen (lift (CanActOnRole actor (role_rank assigned))) (\<lambda>_.
       andthen (map_err (Wrap ''admin_user_create: hash'') (Hash (sys a) (hp (hashing a)) (uc_password inp))) (\<lambda>hash.
       let status = (if uc_status inp = [] then StatusActive else uc_status inp) in
       andthen (CreateUser (pg a) \<lparr>cu_event = Some (named_event EventUserCreated), cu_username = username,
           cu_email = email, cu_hash = hash, cu_role = role, cu_status = status\<rparr>) (\<lambda>user.
       andthen (Record a (Event (by_name by) ActionUserCreated (usr_id user) (by_ip by)
         [(''role'', MStr (usr_role user)), (''status'', MStr (usr_status user))])) (\<lambda>_.
       andthen (if usr_role user \<noteq> RoleUser
         then Record a (Event (by_name by) ActionRoleAssigned (usr_id user) (by_ip by) [(''role'', MStr (usr_role user))])
         else ret ()) (\<lambda>_.
       ret (created_view user)))))))))))"

definition Handle_user_create ::
  "'r app \<Rightarrow> ctx \<Rightarrow> user_create_input option \<Rightarrow> 'r world \<Rightarrow> user_summary response \<times> 'r world" where
  "Handle_user_create a c body =
     (case body of
        None \<Rightarrow> invalid_body
      | Some b \<Rightarrow> respond Created (andthen (lift (Validate_user_create b)) (Execute_user_create a (caller_of c))))"

section \<open>admin_user_update\<close>

text \<open>A field is \<open>None\<close> when the patch leaves it out.\<close>

record user_update_input =
  ui_username :: "string option"
  ui_email :: "string option"
  ui_status :: "string option"
  ui_role :: "string option"
  ui_id :: string

definition Validate_user_update :: "user_update_input \<Rightarrow> error + user_update_input" where
  "Validate_user_update inp =
     (if TrimSpace (ui_id inp) = [] then Inl ErrUserNotFound
      else if ui_username inp = None \<and> ui_email inp = None \<and> ui_status inp = None \<and> ui_role inp = None
        then Inl ErrInvalidInput
      else (case ui_status inp of
              None \<Rightarrow> Inr inp
            | Some s \<Rightarrow> if s \<in> {StatusActive, StatusBlocked} then Inr inp else Inl ErrInvalidInput))"

definition updated_view :: "user \<Rightarrow> user_summary" where
  "updated_view u = \<lparr>us_id = usr_id u, us_username = usr_username u, us_email = usr_email u,
     us_role = usr_role u, us_status = usr_status u, us_stamp = usr_updated u\<rparr>"

definition updateEventFor :: "user \<Rightarrow> user_update_input \<Rightarrow> string" where
  "updateEventFor before inp =
     (if ui_role inp \<noteq> None \<and> the (ui_role inp) \<noteq> usr_role before then EventRoleAssigned
      else if ui_status inp \<noteq> None \<and> the (ui_status inp) \<noteq> usr_status before then
        (if the (ui_status inp) = StatusActive then EventUserUnblocked else EventUserBlocked)
      else EventUserUpdated)"

definition optional_patch :: "(string \<Rightarrow> error + string) \<Rightarrow> string option \<Rightarrow> error + string option" where
  "optional_patch normalise v =
     (case v of None \<Rightarrow> Inr None
      | Some s \<Rightarrow> (case normalise s of Inl err \<Rightarrow> Inl err | Inr x \<Rightarrow> Inr (Some x)))"

definition role_changes :: "user_update_input \<Rightarrow> user \<Rightarrow> bool" where
  "role_changes inp current \<longleftrightarrow> ui_role inp \<noteq> None \<and> the (ui_role inp) \<noteq> usr_role current"

definition loses_active :: "user_update_input \<Rightarrow> user \<Rightarrow> bool" where
  "loses_active inp current \<longleftrightarrow> ui_status inp \<noteq> None \<and> Active current \<and> the (ui_status inp) \<noteq> StatusActive"

text \<open>Handing a role out means sitting strictly above it as well.\<close>

definition guard_assigned :: "'r app \<Rightarrow> user_update_input \<Rightarrow> user \<Rightarrow> role \<Rightarrow> ('r, unit) io" where
  "guard_assigned a inp current actor =
     (if role_changes inp current
      then andthen (GetRole (pg a) (the (ui_role inp))) (\<lambda>assigned.
        lift (CanActOnRole actor (role_rank assigned)))
      else ret ())"

text \<open>
  \<open>Execute\<close> in its two parts: everything it reads and decides, and the one write. Between the two
  other requests may run.
\<close>

definition plan_update :: "'r app \<Rightarrow> caller \<Rightarrow> user_update_input \<Rightarrow> ('r, user \<times> update_user_params) io" where
  "plan_update a by inp =
     andthen (GetUserByID (pg a) (ui_id inp)) (\<lambda>current.
     andthen (Actor a (by_user by)) (\<lambda>actor.
     if role_changes inp current \<and> by_user by = usr_id current then raise ErrSelfDemote
     else
       andthen (GetRole (pg a) (usr_role current)) (\<lambda>targetRole.
       andthen (lift (CanActOnUser actor (role_rank targetRole))) (\<lambda>_.
       andthen (lift (optional_patch (NormalizeUsername (sys a)) (ui_username inp))) (\<lambda>username.
       andthen (lift (optional_patch (NormalizeEmail (sys a)) (ui_email inp))) (\<lambda>email.
       andthen (guard_assigned a inp current actor) (\<lambda>_.
       andthen (guard_last_admin a (IsSuperAdmin current \<and> Active current \<and>
           (role_changes inp current \<and> IsSuperAdmin current \<or> loses_active inp current))) (\<lambda>_.
       ret (current, \<lparr>uu_event = Some (named_event (updateEventFor current inp)), uu_id = usr_id current,
         uu_username = username, uu_email = email, uu_status = ui_status inp, uu_role = ui_role inp\<rparr>)))))))))"

definition apply_update :: "'r app \<Rightarrow> user_update_input \<Rightarrow> user \<Rightarrow> update_user_params \<Rightarrow> ('r, user) io" where
  "apply_update a inp current p =
     (if loses_active inp current then UpdateUserAndRevokeSessions (pg a) p else UpdateUser (pg a) p)"

definition record_update :: "'r app \<Rightarrow> caller \<Rightarrow> user \<Rightarrow> user \<Rightarrow> ('r, unit) io" where
  "record_update a by before after =
     andthen (Record a (Event (by_name by) ActionUserUpdated (usr_id after) (by_ip by)
       [(''status'', MStr (usr_status after)), (''role'', MStr (usr_role after))])) (\<lambda>_.
     andthen (if usr_role before \<noteq> usr_role after
       then Record a (Event (by_name by) ActionRoleAssigned (usr_id after) (by_ip by)
         [(''from'', MStr (usr_role before)), (''to'', MStr (usr_role after))])
       else ret ()) (\<lambda>_.
     if usr_status before \<noteq> usr_status after then
       if usr_status after = StatusBlocked
         then Record a (Event (by_name by) ActionUserBlocked (usr_id after) (by_ip by) [])
       else if usr_status after = StatusActive
         then Record a (Event (by_name by) ActionUserUnblocked (usr_id after) (by_ip by) [])
       else ret ()
     else ret ()))"

definition Execute_user_update :: "'r app \<Rightarrow> caller \<Rightarrow> user_update_input \<Rightarrow> ('r, user_summary) io" where
  "Execute_user_update a by inp =
     andthen (plan_update a by inp) (\<lambda>(current, p).
     andthen (apply_update a inp current p) (\<lambda>updated.
     andthen (record_update a by current updated) (\<lambda>_.
     ret (updated_view updated))))"

definition Handle_user_update ::
  "'r app \<Rightarrow> ctx \<Rightarrow> string \<Rightarrow> user_update_input option \<Rightarrow> 'r world \<Rightarrow> user_summary response \<times> 'r world" where
  "Handle_user_update a c param body =
     (case body of
        None \<Rightarrow> invalid_body
      | Some b \<Rightarrow> respond OK (andthen (lift (Validate_user_update (b\<lparr>ui_id := param\<rparr>)))
          (Execute_user_update a (caller_of c))))"

section \<open>admin_user_delete\<close>

text \<open>Read and decide, then write; \<open>None\<close> for an account that is deleted already.\<close>

definition plan_delete :: "'r app \<Rightarrow> caller \<Rightarrow> string \<Rightarrow> ('r, user \<times> bool) io" where
  "plan_delete a by i =
     andthen (GetUserByID (pg a) i) (\<lambda>user.
     if usr_status user = StatusDeleted then ret (user, False)
     else if by_user by = usr_id user then raise ErrSelfDemote
     else
       andthen (guard_target a by user) (\<lambda>_.
       andthen (guard_last_admin a (IsSuperAdmin user \<and> Active user)) (\<lambda>_.
       ret (user, True))))"

definition Execute_user_delete :: "'r app \<Rightarrow> caller \<Rightarrow> string \<Rightarrow> ('r, string \<times> string) io" where
  "Execute_user_delete a by i =
     andthen (plan_delete a by i) (\<lambda>(user, go).
     if \<not> go then ret (usr_id user, usr_status user)
     else
       andthen (SoftDeleteUser (pg a) (usr_id user) (Some (named_event EventUserDeleted))) (\<lambda>deleted.
       andthen (Record a (Event (by_name by) ActionUserDeleted (usr_id deleted) (by_ip by)
         [(''previous_identifier'', MStr (Identifier user))])) (\<lambda>_.
       ret (usr_id deleted, usr_status deleted))))"

definition Handle_user_delete ::
  "'r app \<Rightarrow> ctx \<Rightarrow> string \<Rightarrow> 'r world \<Rightarrow> (string \<times> string) response \<times> 'r world" where
  "Handle_user_delete a c param =
     respond OK (andthen (lift (present_id param)) (\<lambda>_. Execute_user_delete a (caller_of c) param))"

section \<open>admin_user_set_password and admin_user_sessions_revoke\<close>

definition Execute_set_password :: "'r app \<Rightarrow> caller \<Rightarrow> string \<Rightarrow> string \<Rightarrow> ('r, string \<times> bool) io" where
  "Execute_set_password a by i password =
     andthen (GetUserByID (pg a) i) (\<lambda>user.
     andthen (guard_target a by user) (\<lambda>_.
     andthen (lift (ValidatePassword password (min_password_len a))) (\<lambda>_.
     andthen (map_err (Wrap ''admin_user_set_password: hash'') (Hash (sys a) (hp (hashing a)) password)) (\<lambda>hash.
     andthen (SetPasswordAndRevokeSessions (pg a) (usr_id user) hash (Some (named_event EventUserPasswordChanged)))
       (\<lambda>updated.
     andthen (Record a (Event (by_name by) ActionPasswordSetByAdmin (usr_id updated) (by_ip by) [])) (\<lambda>_.
     ret (usr_id updated, True)))))))"

definition Handle_set_password ::
  "'r app \<Rightarrow> ctx \<Rightarrow> string \<Rightarrow> string option \<Rightarrow> 'r world \<Rightarrow> (string \<times> bool) response \<times> 'r world" where
  "Handle_set_password a c param body =
     (case body of
        None \<Rightarrow> invalid_body
      | Some password \<Rightarrow> respond (\<lambda>out. (OK out)\<lparr>rs_no_store := True\<rparr>)
          (andthen (lift (present_id param)) (\<lambda>_.
           if password = [] then raise ErrPasswordTooWeak
           else Execute_set_password a (caller_of c) param password)))"

definition Execute_sessions_revoke :: "'r app \<Rightarrow> caller \<Rightarrow> string \<Rightarrow> ('r, int) io" where
  "Execute_sessions_revoke a by i =
     andthen (GetUserByID (pg a) i) (\<lambda>user.
     andthen (guard_target a by user) (\<lambda>_.
     andthen (DeleteUserSessions (pg a) (usr_id user)) (\<lambda>n.
     andthen (Record a (Event (by_name by) ActionSessionsRevoked (usr_id user) (by_ip by) [(''count'', MInt n)])) (\<lambda>_.
     ret n))))"

definition Handle_sessions_revoke :: "'r app \<Rightarrow> ctx \<Rightarrow> string \<Rightarrow> 'r world \<Rightarrow> int response \<times> 'r world" where
  "Handle_sessions_revoke a c param =
     respond OK (andthen (lift (present_id param)) (\<lambda>_. Execute_sessions_revoke a (caller_of c) param))"

section \<open>The views\<close>

record user_detail =
  ud_id :: string
  ud_username :: string
  ud_email :: string
  ud_role :: string
  ud_status :: string
  ud_last_login :: "instant option"
  ud_created :: instant

record user_full = user_detail +
  ud_updated :: instant

definition full_view :: "user \<Rightarrow> user_full" where
  "full_view u = \<lparr>ud_id = usr_id u, ud_username = usr_username u, ud_email = usr_email u, ud_role = usr_role u,
     ud_status = usr_status u, ud_last_login = usr_last_login u, ud_created = usr_created u,
     ud_updated = usr_updated u\<rparr>"

definition Execute_user_get :: "'r app \<Rightarrow> string \<Rightarrow> ('r, user_full) io" where
  "Execute_user_get a i = andthen (GetUserByID (pg a) i) (\<lambda>user. ret (full_view user))"

definition Handle_user_get :: "'r app \<Rightarrow> string \<Rightarrow> 'r world \<Rightarrow> user_full response \<times> 'r world" where
  "Handle_user_get a param = respond OK (andthen (lift (present_id param)) (\<lambda>_. Execute_user_get a param))"

text \<open>Paging: out of range values are clamped, not refused.\<close>

definition clamp_limit :: "int \<Rightarrow> int \<Rightarrow> int \<Rightarrow> int" where
  "clamp_limit default_limit max_limit n =
     (let n = (if n \<le> 0 then default_limit else n) in if n > max_limit then max_limit else n)"

definition clamp_offset :: "int \<Rightarrow> int" where
  "clamp_offset n = (if n < 0 then 0 else n)"

record user_list_input =
  ul_query :: string
  ul_status :: string
  ul_limit :: int
  ul_offset :: int

definition Validate_user_list :: "user_list_input \<Rightarrow> error + user_list_input" where
  "Validate_user_list inp =
     (let inp = inp\<lparr>ul_limit := clamp_limit 50 200 (ul_limit inp), ul_offset := clamp_offset (ul_offset inp)\<rparr> in
      if ul_status inp \<in> {[], StatusActive, StatusBlocked, StatusDeleted} then Inr inp else Inl ErrInvalidInput)"

record user_page =
  up_users :: "user_detail list"
  up_total :: int
  up_limit :: int
  up_offset :: int

definition detail_view :: "user \<Rightarrow> user_detail" where
  "detail_view u = \<lparr>ud_id = usr_id u, ud_username = usr_username u, ud_email = usr_email u, ud_role = usr_role u,
     ud_status = usr_status u, ud_last_login = usr_last_login u, ud_created = usr_created u\<rparr>"

definition Execute_user_list :: "'r app \<Rightarrow> user_list_input \<Rightarrow> ('r, user_page) io" where
  "Execute_user_list a inp =
     (let p = \<lparr>lu_query = ul_query inp, lu_status = ul_status inp, lu_limit = ul_limit inp, lu_offset = ul_offset inp\<rparr> in
      andthen (ListUsers (pg a) p) (\<lambda>users.
      andthen (CountUsers (pg a) p) (\<lambda>total.
      ret \<lparr>up_users = map detail_view users, up_total = total, up_limit = ul_limit inp, up_offset = ul_offset inp\<rparr>)))"

text \<open>
  \<open>c.Query\<close>: the first value of a parameter; \<open>n, _ := strconv.Atoi(v)\<close>: zero when the text is no
  number, the nearest 64-bit value when it is out of range.
\<close>

definition query_value :: "(string \<times> string) list \<Rightarrow> string \<Rightarrow> string" where
  "query_value qs k = (case find (\<lambda>q. fst q = k) qs of Some q \<Rightarrow> snd q | None \<Rightarrow> [])"

definition query_int :: "(string \<times> string) list \<Rightarrow> string \<Rightarrow> int" where
  "query_int qs k =
     (let v = query_value qs k; neg = HasPrefix v ''-''; t = (if neg \<or> HasPrefix v ''+'' then tl v else v);
          n = (if neg then - int (digits_val t) else int (digits_val t))
      in if t = [] \<or> \<not> list_all digit t then 0 else max (- (2 ^ 63)) (min (2 ^ 63 - 1) n))"

definition Handle_user_list ::
  "'r app \<Rightarrow> (string \<times> string) list \<Rightarrow> 'r world \<Rightarrow> user_page response \<times> 'r world" where
  "Handle_user_list a qs =
     respond OK (andthen (lift (Validate_user_list \<lparr>ul_query = query_value qs ''q'',
       ul_status = query_value qs ''status'', ul_limit = query_int qs ''limit'', ul_offset = query_int qs ''offset''\<rparr>))
       (Execute_user_list a))"

record admin_session_view =
  av_session :: string
  av_family :: string
  av_ip :: string
  av_agent :: string
  av_opened :: instant
  av_expires :: instant

definition admin_session_of :: "session \<Rightarrow> admin_session_view" where
  "admin_session_of s = \<lparr>av_session = ses_id s, av_family = ses_family s, av_ip = ses_ip s, av_agent = ses_agent s,
     av_opened = ses_created s, av_expires = ses_expires s\<rparr>"

definition Execute_user_sessions :: "'r app \<Rightarrow> string \<Rightarrow> ('r, admin_session_view list) io" where
  "Execute_user_sessions a i =
     andthen (ListLiveUserSessions (pg a) i) (\<lambda>sessions. ret (map admin_session_of sessions))"

definition Handle_user_sessions ::
  "'r app \<Rightarrow> string \<Rightarrow> 'r world \<Rightarrow> admin_session_view list response \<times> 'r world" where
  "Handle_user_sessions a param =
     respond OK (andthen (lift (present_id param)) (\<lambda>_. Execute_user_sessions a param))"

definition Validate_audit_list :: "list_audit_params \<Rightarrow> list_audit_params" where
  "Validate_audit_list p = p\<lparr>la_limit := clamp_limit 100 500 (la_limit p), la_offset := clamp_offset (la_offset p)\<rparr>"

definition Execute_audit_list :: "'r app \<Rightarrow> list_audit_params \<Rightarrow> ('r, audit_view list \<times> int \<times> int) io" where
  "Execute_audit_list a p =
     andthen (ListAuditEntries (pg a) p) (\<lambda>entries. ret (entries, la_limit p, la_offset p))"

definition Handle_audit_list ::
  "'r app \<Rightarrow> (string \<times> string) list \<Rightarrow> 'r world \<Rightarrow> (audit_view list \<times> int \<times> int) response \<times> 'r world" where
  "Handle_audit_list a qs =
     respond OK (Execute_audit_list a (Validate_audit_list \<lparr>la_target = query_value qs ''user_id'',
       la_action = query_value qs ''action'', la_limit = query_int qs ''limit'', la_offset = query_int qs ''offset''\<rparr>))"

section \<open>They keep the tables well-formed\<close>

lemma frame_guard_target [frame_rules]: "frame db (guard_target a by u)" "frame cache (guard_target a by u)"
  unfolding guard_target_def by (intro frame_rules)+

lemma frame_guards [frame_rules]:
  "frame db (guard_last_admin a risky)" "frame db (guard_assigned a inp current actor)"
  unfolding guard_last_admin_def guard_assigned_def by (intro frame_rules)+

lemma frame_plan_update [frame_rules]: "frame db (plan_update a by inp)"
  unfolding plan_update_def by (intro frame_rules)

lemma frame_plan_delete [frame_rules]: "frame db (plan_delete a by i)"
  unfolding plan_delete_def by (intro frame_rules)

lemma keeps_admin_users [keeps_rules]:
  "keeps_ok (Execute_user_create a by uci)" "keeps_ok (Execute_user_update a by uui)"
  "keeps_ok (Execute_user_delete a by i)" "keeps_ok (Execute_set_password a by i pw)"
  "keeps_ok (Execute_sessions_revoke a by i)" "keeps_ok (Execute_user_get a i)"
  "keeps_ok (Execute_user_list a uli)" "keeps_ok (Execute_user_sessions a i)" "keeps_ok (Execute_audit_list a lap)"
  unfolding Execute_user_create_def Execute_user_update_def Execute_user_delete_def Execute_set_password_def
    Execute_sessions_revoke_def Execute_user_get_def Execute_user_list_def Execute_user_sessions_def
    Execute_audit_list_def apply_update_def record_update_def Let_def
  by (intro keeps_rules keeps_db frame_rules)+

end
