(* ===== verification/AdminRoles.thy ===== *)
theory AdminRoles
  imports AdminUsers
begin

text \<open>
  The administration of roles: \<open>admin_role_create\<close>, \<open>admin_role_update\<close>, \<open>admin_role_delete\<close> and
  \<open>admin_role_list\<close> of \<open>internal/usecases/admin\<close>, with their handlers.
\<close>

text \<open>
  The handlers of these use cases fill in neither the acting user nor the name nor the address of
  the caller: whoever calls, the use case sees this.
\<close>

definition unnamed_caller :: caller where
  "unnamed_caller = \<lparr>by_user = [], by_name = [], by_ip = []\<rparr>"

definition canonical_name :: "'r app \<Rightarrow> string \<Rightarrow> string" where
  "canonical_name a s = ToLower (unicode_lower (sys a)) (TrimSpace s)"

definition reservedNames :: "string list" where
  "reservedNames = [RoleUser, RoleManager, RoleAdmin, RoleSuperAdmin]"

record role_view =
  rv_name :: string
  rv_rank :: int
  rv_system :: bool
  rv_perms :: "string list"
  rv_created :: instant

definition roleView :: "role \<Rightarrow> role_view" where
  "roleView r = \<lparr>rv_name = role_name r, rv_rank = role_rank r, rv_system = role_system r,
     rv_perms = role_perms r, rv_created = role_created r\<rparr>"

section \<open>admin_role_create\<close>

record role_create_input =
  rc_name :: string
  rc_rank :: int
  rc_perms :: "permission list"

definition role_name_free :: "'r app \<Rightarrow> role_create_input \<Rightarrow> bool" where
  "role_name_free a inp \<longleftrightarrow>
     canonical_name a (rc_name inp) \<notin> set reservedNames \<and> ValidRoleName (canonical_name a (rc_name inp))"

definition Validate_role_create :: "'r app \<Rightarrow> role_create_input \<Rightarrow> error + unit" where
  "Validate_role_create a inp =
     (if \<not> role_name_free a inp then Inl ErrInvalidInput
      else if \<not> ValidCustomRank (rc_rank inp) then Inl ErrInvalidInput
      else ValidatePermissions (rc_perms inp))"

definition Execute_role_create :: "'r app \<Rightarrow> caller \<Rightarrow> role_create_input \<Rightarrow> ('r, role_view) io" where
  "Execute_role_create a by inp =
     (if \<not> role_name_free a inp then raise ErrInvalidInput
      else if \<not> ValidCustomRank (rc_rank inp) then raise ErrInvalidInput
      else
        andthen (Actor a (by_user by)) (\<lambda>actor.
        andthen (lift (CanActOnRole actor (rc_rank inp))) (\<lambda>_.
        andthen (lift (MayPlaceInRole actor (rc_perms inp))) (\<lambda>_.
        andthen (CreateRole (pg a) \<lparr>role_name = canonical_name a (rc_name inp), role_rank = rc_rank inp,
            role_system = False, role_perms = rc_perms inp, role_created = zero_time\<rparr>) (\<lambda>created.
        andthen (Record a (Event (by_name by) ActionRoleCreated [] (by_ip by)
          [(''role'', MStr (role_name created)), (''rank'', MInt (role_rank created)),
           (''permissions'', MList (rc_perms inp))])) (\<lambda>_.
        ret (roleView created)))))))"

definition Handle_role_create :: "'r app \<Rightarrow> role_create_input option \<Rightarrow> 'r world \<Rightarrow> role_view response \<times> 'r world" where
  "Handle_role_create a body =
     (case body of
        None \<Rightarrow> (\<lambda>w. (BadRequest ''invalid request'', w))
      | Some inp \<Rightarrow> respond Created (andthen (lift (Validate_role_create a inp)) (\<lambda>_.
          Execute_role_create a unnamed_caller inp)))"

section \<open>admin_role_update\<close>

text \<open>\<open>None\<close> is a field the patch leaves out; an empty permission list is not.\<close>

record role_update_input =
  ru_name :: string
  ru_rank :: "int option"
  ru_perms :: "permission list option"

definition Validate_role_update :: "role_update_input \<Rightarrow> error + unit" where
  "Validate_role_update inp =
     (if TrimSpace (ru_name inp) = [] then Inl ErrRoleNotFound
      else if ru_rank inp = None \<and> ru_perms inp = None then Inl ErrInvalidInput
      else if ru_rank inp \<noteq> None \<and> \<not> ValidCustomRank (the (ru_rank inp)) then Inl ErrInvalidInput
      else (case ru_perms inp of None \<Rightarrow> Inr () | Some ps \<Rightarrow> ValidatePermissions ps))"

definition Execute_role_update :: "'r app \<Rightarrow> caller \<Rightarrow> role_update_input \<Rightarrow> ('r, role_view) io" where
  "Execute_role_update a by inp =
     (let name = canonical_name a (ru_name inp) in
      andthen (GetRole (pg a) name) (\<lambda>current.
      if role_system current then raise ErrRoleProtected
      else
        andthen (Actor a (by_user by)) (\<lambda>actor.
        andthen (lift (CanActOnRole actor (role_rank current))) (\<lambda>_.
        andthen (case ru_rank inp of
            None \<Rightarrow> ret ()
          | Some rank \<Rightarrow>
              if \<not> ValidCustomRank rank then raise ErrInvalidInput else lift (CanActOnRole actor rank)) (\<lambda>_.
        andthen (case ru_perms inp of
            None \<Rightarrow> ret ()
          | Some perms \<Rightarrow> lift (MayPlaceInRole actor perms)) (\<lambda>_.
        andthen (UpdateRole (pg a) \<lparr>ro_name = name, ro_rank = ru_rank inp, ro_system = None, ro_perms = ru_perms inp\<rparr>)
          (\<lambda>updated.
        andthen (Record a (Event (by_name by) ActionRoleUpdated [] (by_ip by)
          [(''role'', MStr name), (''rank'', MInt (role_rank updated)), (''permissions'', MList (role_perms updated))])) (\<lambda>_.
        ret (roleView updated)))))))))"

definition Handle_role_update ::
  "'r app \<Rightarrow> string \<Rightarrow> role_update_input option \<Rightarrow> 'r world \<Rightarrow> role_view response \<times> 'r world" where
  "Handle_role_update a param body =
     (case body of
        None \<Rightarrow> (\<lambda>w. (BadRequest ''invalid request'', w))
      | Some b \<Rightarrow> respond OK (andthen (lift (Validate_role_update (b\<lparr>ru_name := param\<rparr>))) (\<lambda>_.
          Execute_role_update a unnamed_caller (b\<lparr>ru_name := param\<rparr>))))"

section \<open>admin_role_delete and admin_role_list\<close>

definition Execute_role_delete :: "'r app \<Rightarrow> caller \<Rightarrow> string \<Rightarrow> ('r, string) io" where
  "Execute_role_delete a by n =
     (let name = canonical_name a n in
      andthen (GetRole (pg a) name) (\<lambda>current.
      if role_system current then raise ErrRoleProtected
      else
        andthen (Actor a (by_user by)) (\<lambda>actor.
        andthen (lift (CanActOnRole actor (role_rank current))) (\<lambda>_.
        andthen (DeleteRole (pg a) name) (\<lambda>_.
        andthen (Record a (Event (by_name by) ActionRoleDeleted [] (by_ip by)
          [(''role'', MStr name), (''rank'', MInt (role_rank current))])) (\<lambda>_.
        ret name))))))"

definition Handle_role_delete :: "'r app \<Rightarrow> string \<Rightarrow> 'r world \<Rightarrow> string response \<times> 'r world" where
  "Handle_role_delete a param =
     respond OK (andthen (lift (if TrimSpace param = [] then Inl ErrRoleNotFound else Inr ())) (\<lambda>_.
       Execute_role_delete a unnamed_caller param))"

definition Execute_role_list :: "'r app \<Rightarrow> ('r, role_view list) io" where
  "Execute_role_list a = andthen (ListRoles (pg a)) (\<lambda>roles. ret (map roleView roles))"

definition Handle_role_list :: "'r app \<Rightarrow> 'r world \<Rightarrow> role_view list response \<times> 'r world" where
  "Handle_role_list a = respond OK (Execute_role_list a)"

section \<open>They keep the tables well-formed\<close>

lemma keeps_admin_roles [keeps_rules]:
  "keeps_ok (Execute_role_create a by rci)" "keeps_ok (Execute_role_update a by rui)"
  "keeps_ok (Execute_role_delete a by n)" "keeps_ok (Execute_role_list a)"
  unfolding Execute_role_create_def Execute_role_update_def Execute_role_delete_def Execute_role_list_def Let_def
  by (intro keeps_rules keeps_db frame_rules)+

end
