(* ===== verification/Sample.thy ===== *)
theory Sample
  imports AuthToken "HOL-Library.Code_Target_Nat"
begin

text \<open>
  A concrete installation, on which the theorems with hypotheses are exercised: an environment of
  small stand-ins for the external libraries, four accounts, the built-in roles and one custom
  role, a live and a spent session. Everything evaluates.
\<close>

definition sample_uuid_text :: "uuid \<Rightarrow> string" where
  "sample_uuid_text u = replicate (Suc u) (CHR ''u'')"

definition sample_uuid_parse :: "string \<Rightarrow> uuid option" where
  "sample_uuid_parse s = (if s \<noteq> [] \<and> list_all (\<lambda>c. c = CHR ''u'') s then Some (length s - 1) else None)"

definition sample_env :: ext where
  "sample_env = \<lparr>unicode_lower = (\<lambda>r. r), ilike = Contains, mail_parse = Some,
     uuid_parse = sample_uuid_parse, uuid_text = sample_uuid_text, uuid_new = (\<lambda>n. n + 30),
     rand_read = (\<lambda>n len. Some (replicate len (char_of n))), sha256 = (\<lambda>s. s),
     argon2_idkey = (\<lambda>pw salt t m p n. if t < 1 \<or> p < 1 then None else Some (take n (pw @ replicate n (CHR ''0'')))),
     ed25519_public = (\<lambda>s. s), float_overflow = (\<lambda>n. 0),
     jwt_sign = (\<lambda>key kid c. Some (cl_subject c @ cl_session c)),
     jwt_parse = (\<lambda>opts kf now raw. Inl JwtKeyFunc)\<rparr>"

lemma sample_uuid_law: "uuid_law sample_env"
  by (simp add: uuid_law_def sample_env_def sample_uuid_parse_def sample_uuid_text_def list_all_iff)

definition sample_hash :: string where
  "sample_hash = ''$argon2id$v=19$m=1,t=1,p=1$$c2VjcmV0''"

definition sample_user :: "uuid \<Rightarrow> string \<Rightarrow> string \<Rightarrow> string \<Rightarrow> user_row" where
  "sample_user i name role status =
     \<lparr>ur_id = i, ur_username = Some name, ur_email = None, ur_hash = sample_hash, ur_role = role,
      ur_status = status, ur_last_login = None, ur_created = 1, ur_updated = 1\<rparr>"

definition sample_session :: "uuid \<Rightarrow> uuid \<Rightarrow> string \<Rightarrow> instant option \<Rightarrow> session_row" where
  "sample_session i user hash used =
     \<lparr>sr_id = i, sr_user = user, sr_family = 20, sr_hash = hash, sr_used = used, sr_expires = 1000,
      sr_ip = None, sr_agent = None, sr_created = 5\<rparr>"

definition sample_db :: db where
  "sample_db =
     \<lparr>ga_users = [sample_user 1 ''alice'' ''user'' ''active'', sample_user 2 ''rooty'' ''superadmin'' ''active'',
        sample_user 3 ''bobby'' ''user'' ''blocked'', sample_user 4 ''carol'' ''admin'' ''active''],
      ga_roles = [\<lparr>rr_name = ''user'', rr_rank = 0, rr_system = True, rr_created = 1\<rparr>,
        \<lparr>rr_name = ''admin'', rr_rank = 50, rr_system = True, rr_created = 1\<rparr>,
        \<lparr>rr_name = ''superadmin'', rr_rank = 100, rr_system = True, rr_created = 1\<rparr>,
        \<lparr>rr_name = ''helper'', rr_rank = 5, rr_system = False, rr_created = 1\<rparr>],
      ga_role_permissions = [(''admin'', ''users:read''), (''admin'', ''roles:manage''),
        (''superadmin'', ''roles:manage''), (''helper'', ''users:read'')],
      ga_sessions = [sample_session 10 1 ''live'' None, sample_session 11 1 ''spent'' (Some 6)],
      ga_audit_log = [], ga_outbox = [], audit_serial = 1, outbox_serial = 0\<rparr>"

lemma sample_db_ok: "db_ok sample_db"
  by code_simp

text \<open>A Redis that answers but remembers nothing.\<close>

definition forgetful_redis :: "unit redis" where
  "forgetful_redis =
     \<lparr>cmd_Incr = (\<lambda>k t s. (Inr 1, s)), cmd_Expire = (\<lambda>k d t s. (Inr True, s)),
      cmd_TTL = (\<lambda>k t s. (Inr (- 2), s)), cmd_Set = (\<lambda>k v d t s. (Inr (), s)),
      cmd_Del = (\<lambda>ks t s. (Inr 0, s))\<rparr>"

definition sample_token_config :: token_config where
  "sample_token_config =
     \<lparr>PrivateKey = [], PreviousPublicKeys = [], Issuer = ''goauth'', Audience = ''goauth'',
      AccessTTL = 900 * Second, RefreshTTL = 3600 * Second\<rparr>"

definition sample_app :: "unit app" where
  "sample_app =
     \<lparr>pg = \<lparr>env = sample_env, emitEvents = True\<rparr>,
      hashing = \<lparr>hp = \<lparr>Memory = 1, Iterations = 1, Parallelism = 1, SaltLength = 2, KeyLength = 6\<rparr>,
        dummy = sample_hash\<rparr>,
      signing = \<lparr>sg_cfg = sample_token_config, sg_priv = [], sg_kid = [], verifyKeys = Map.empty, sg_jwks = []\<rparr>,
      limiting = \<lparr>client = forgetful_redis, rl_cfg = ratelimit_defaults, lim_env = sample_env\<rparr>,
      fail_closed = True, min_password_len = 4, registration_mode = ''open'', require_email = False,
      reauth_window = 900 * Second, admin_token = ''token'',
      cookies = \<lparr>cookies_enabled = True, cookies_secure = True, cookies_same_site = ''strict''\<rparr>\<rparr>"

definition sample_world :: "unit world" where
  "sample_world = \<lparr>db = sample_db, cache = (), clock = 10, readings = [], faults = [], draws = 0, tx_now = None\<rparr>"

lemma sample_app_env [simp]: "sys sample_app = sample_env"
  by (simp add: sample_app_def)

lemma sample_world_db [simp]: "db sample_world = sample_db"
  by (simp add: sample_world_def)

definition sample_input :: "string \<Rightarrow> string \<Rightarrow> string \<Rightarrow> string \<Rightarrow> token_input" where
  "sample_input grant name password refresh =
     \<lparr>ti_grant = grant, ti_identifier = name, ti_password = password, ti_refresh = refresh,
      ti_ip = ''10.0.0.1'', ti_agent = []\<rparr>"

text \<open>The result of a call alone, for stating that it succeeds.\<close>

definition succeeds :: "('s, 'e, 'a) act \<Rightarrow> 's \<Rightarrow> bool" where
  "succeeds m w \<longleftrightarrow> (case fst (m w) of Inl _ \<Rightarrow> False | Inr _ \<Rightarrow> True)"

definition fails_with :: "('s, 'e, 'a) act \<Rightarrow> 's \<Rightarrow> 'e \<Rightarrow> bool" where
  "fails_with m w err \<longleftrightarrow> (case fst (m w) of Inl e \<Rightarrow> e = err | Inr _ \<Rightarrow> False)"

lemma succeedsE: "succeeds m w \<Longrightarrow> (\<And>a w'. m w = (Inr a, w') \<Longrightarrow> thesis) \<Longrightarrow> thesis"
  by (cases "m w") (auto simp: succeeds_def split: sum.splits)

lemma fails_withE: "fails_with m w err \<Longrightarrow> (\<And>w'. m w = (Inl err, w') \<Longrightarrow> thesis) \<Longrightarrow> thesis"
  by (cases "m w") (auto simp: fails_with_def split: sum.splits)

lemma sample_login: "succeeds (Execute_token sample_app (sample_input GrantPassword ''alice'' ''secret'' [])) sample_world"
  by code_simp

lemma sample_refresh: "succeeds (Execute_token sample_app (sample_input GrantRefresh [] [] ''live'')) sample_world"
  by code_simp

lemma sample_reuse:
  "fails_with (Execute_token sample_app (sample_input GrantRefresh [] [] ''spent'')) sample_world ErrRefreshReused"
  by code_simp

lemma sample_bad_password:
  "fails_with (Execute_token sample_app (sample_input GrantPassword ''alice'' ''wrong'' [])) sample_world ErrInvalidCredentials"
  by code_simp

end
