(* ===== verification/Grants.thy ===== *)
theory Grants
  imports Sample
begin

text \<open>
  What the two grants of \<open>auth_token\<close> guarantee. A success is taken apart once, into what it says
  about the account, the presented credential and the tables; the properties follow.
\<close>

section \<open>Helpers of the grants\<close>

lemma frame_db_backoff_gate: "frame db (backoff_gate a i)"
  unfolding backoff_gate_def by (intro frame_rules)

lemma frame_db_penalise: "frame db (penalise a i)"
  unfolding penalise_def by (intro frame_rules)

lemma frame_db_lookup: "frame db (lookup_user a i)"
  unfolding lookup_user_def by (intro frame_rules)

lemmas grant_frames = frame_db_backoff_gate frame_db_penalise frame_db_lookup frame_limiter
  frame_DummyVerify [of db]

lemmas grant_db = grant_frames [THEN frameD]

lemma lookup_user_Inr:
  assumes "lookup_user a i w = (Inr x, w')"
  shows "\<exists>r \<in> set (ga_users (db w)). x = toDomainUser (sys a) r \<and>
    (ur_username r = Some i \<or> ur_email r = Some i) \<and> db w' = db w"
  using assms
  by (auto simp: lookup_user_def split: if_splits dest!: GetUserByUsername_Inr GetUserByEmail_Inr)

lemma statusError_Inr: "statusError u = Inr x \<longleftrightarrow> usr_status u \<noteq> StatusBlocked \<and> usr_status u \<noteq> StatusDeleted"
  by (simp add: statusError_def)

lemma db_ok_status:
  "db_ok d \<Longrightarrow> r \<in> set (ga_users d) \<Longrightarrow> ur_status r \<noteq> StatusBlocked \<Longrightarrow> ur_status r \<noteq> StatusDeleted \<Longrightarrow>
     ur_status r = StatusActive"
  by (auto simp: db_ok_def users_ok_def list_all_iff user_check_def)

section \<open>The password grant\<close>

text \<open>A success: who logged in, with what, and what it changed.\<close>

definition logged_in :: "'r app \<Rightarrow> token_input \<Rightarrow> token_output \<Rightarrow> db \<Rightarrow> db \<Rightarrow> bool" where
  "logged_in a inp out d d' \<longleftrightarrow>
     (\<exists>idn r s.
        NormalizeIdentifier (sys a) (ti_identifier inp) = Inr idn \<and>
        r \<in> set (ga_users d) \<and> (ur_username r = Some idn \<or> ur_email r = Some idn) \<and>
        Verify (sys a) (ur_hash r) (ti_password inp) = Inr True \<and>
        ur_status r \<noteq> StatusBlocked \<and> ur_status r \<noteq> StatusDeleted \<and>
        to_user out = viewOf (toDomainUser (sys a) r) \<and>
        uuid_parse (sys a) (uuid_text (sys a) (ur_id r)) = Some (sr_user s) \<and>
        sr_hash s = HashRefresh (sys a) (to_refresh out) \<and> sr_used s = None \<and>
        ga_sessions d' = ga_sessions d @ [s])"

lemma passwordGrant_Inr:
  assumes "passwordGrant a inp now w = (Inr out, w')"
  shows "logged_in a inp out (db w) (db w')"
proof -
  obtain idn where n: "NormalizeIdentifier (sys a) (ti_identifier inp) = Inr idn"
    using assms by (cases "NormalizeIdentifier (sys a) (ti_identifier inp)")
      (auto simp: passwordGrant_def act_inv)
  from assms n obtain u0 w1 q w2 where g: "backoff_gate a idn w = (Inr u0, w1)"
    and l: "lookup_user a idn w1 = (q, w2)"
    by (auto simp: passwordGrant_def act_inv attempt_eq)
  from assms n g l obtain user where q: "q = Inr user"
    by (cases q) (auto simp: passwordGrant_def act_inv attempt_simp split: if_splits)
  from assms n g l q have v: "Verify (sys a) (usr_hash user) (ti_password inp) = Inr True"
    by (cases "Verify (sys a) (usr_hash user) (ti_password inp)")
      (auto simp: passwordGrant_def act_inv attempt_simp split: if_splits)
  from assms n g l q v obtain pair w3 q2 w4 w5 where st: "statusError user = Inr ()"
    and iss: "Issue a user \<lparr>tc_ip = ti_ip inp, tc_agent = ti_agent inp, tc_auth_time = now, tc_now = now\<rparr> w2
      = (Inr pair, w3)"
    and re: "Reset (limiting a) (login_key idn) w3 = (q2, w4)"
    and to: "TouchUserLogin (pg a) (usr_id user) w4 = (Inr (), w5)"
    and rc: "Record a (Event (ActorUser (usr_id user)) ActionUserLogin (usr_id user) (ti_ip inp) []) w5
      = (Inr (), w')"
    and out: "out = output_of pair user"
    by (auto simp: passwordGrant_def act_inv attempt_eq)
  from lookup_user_Inr [OF l [unfolded q]] grant_db(1) [OF g]
  obtain r where r: "r \<in> set (ga_users (db w))" "user = toDomainUser (sys a) r"
    "ur_username r = Some idn \<or> ur_email r = Some idn" "db w2 = db w"
    by auto
  from Issue_Inr [OF iss] r(2, 4) obtain s where s: "db w3 = add_session s (db w)"
    "sr_hash s = HashRefresh (sys a) (RefreshToken pair)" "sr_used s = None"
    "uuid_parse (sys a) (uuid_text (sys a) (ur_id r)) = Some (sr_user s)"
    by (auto simp: toDomainUser_def)
  have "ga_sessions (db w') = ga_sessions (db w) @ [s]"
    using unaudited_eq [OF Record_db [OF rc]] TouchUserLogin_Inr [OF to] grant_db(7) [OF re] s(1)
    by (auto simp: add_session_def)
  with n r s v st out show ?thesis
    unfolding logged_in_def
    by (intro exI [of _ idn] exI [of _ r] exI [of _ s])
      (auto simp: statusError_Inr toDomainUser_def output_of_def)
qed

text \<open>
  A refusal: whenever the answer is one of the credential or status errors, nothing but the audit
  log and the limiter's counters changed.
\<close>

definition refusal :: "error \<Rightarrow> bool" where
  "refusal err \<longleftrightarrow> err \<in> {ErrInvalidCredentials, ErrUserBlocked, ErrUserDeleted, Wrap ''retry'' ErrTooManyAttempts}"

lemma never_Record: "never E (Record a e)"
  by (auto simp: never_def dest: Record_Inr)

lemma keeps_unaudited: "frame db m \<Longrightarrow> keeps (\<lambda>w. unaudited (db w) = d) m"
  by (rule frame_imp_keeps)

lemma keeps_unaudited_Record: "keeps (\<lambda>w. unaudited (db w) = d) (Record a e)"
  using frame_Record(1) [of a e] by (simp add: frame_keeps)

text \<open>Once the session is written, no error of that kind comes any more.\<close>

lemma login_tail_never:
  "never refusal (andthen (map_err (Wrap ''auth_token: issue'') m) (\<lambda>p. attempt (m2 p) (\<lambda>q.
     andthen (map_err (Wrap ''auth_token: touch login'') (m3 p q)) (\<lambda>_. andthen (Record a e) (\<lambda>_. ret (f p))))))"
  by (intro never_rules never_Record) (auto simp: refusal_def)

lemma passwordGrant_on_error:
  "on_error refusal (\<lambda>w. unaudited (db w) = d) (passwordGrant a inp now)"
  unfolding passwordGrant_def
  by (intro on_error_never [OF login_tail_never] on_error_keeps [OF keeps_raise] on_error_case_sum on_error_if
      on_error_andthen on_error_attempt keeps_unaudited_Record keeps_unaudited grant_frames frame_lift)

lemma passwordGrant_refused:
  assumes "passwordGrant a inp now w = (Inl err, w')" "refusal err"
  shows "unaudited (db w') = unaudited (db w)"
  using on_errorD [OF passwordGrant_on_error _ assms] by simp

section \<open>The refresh grant\<close>

text \<open>
  A success: the presented token named a live session of an account that may log in; that session
  is spent, and one new session of the same login takes its place.
\<close>

definition rotated :: "'r app \<Rightarrow> token_input \<Rightarrow> token_output \<Rightarrow> db \<Rightarrow> db \<Rightarrow> bool" where
  "rotated a inp out d d' \<longleftrightarrow>
     (\<exists>now s n r.
        session_of_hash d (HashRefresh (sys a) (ti_refresh inp)) = Some s \<and>
        spendable (HashRefresh (sys a) (ti_refresh inp)) now s \<and>
        user_row_of d (sr_user s) = Some r \<and> ur_status r \<noteq> StatusBlocked \<and> ur_status r \<noteq> StatusDeleted \<and>
        to_user out = viewOf (toDomainUser (sys a) r) \<and>
        sr_user n = sr_user s \<and> sr_family n = sr_family s \<and> sr_used n = None \<and> sr_created n = now \<and>
        sr_hash n = HashRefresh (sys a) (to_refresh out) \<and>
        sr_hash n \<notin> sr_hash ` set (ga_sessions d) \<and>
        ga_sessions d' = ga_sessions (spend (HashRefresh (sys a) (ti_refresh inp)) now d) @ [n] \<and>
        (\<exists>sid jti tnow. jwt_sign (sys a) (sg_priv (signing a)) (sg_kid (signing a))
          (claims_of (signing a) (usr_id (toDomainUser (sys a) r)) sid (ur_role r) (sr_created s) tnow jti)
          = Some (to_access out)))"

lemma spend_hashes: "sr_hash ` set (ga_sessions (spend h now d)) = sr_hash ` set (ga_sessions d)"
proof -
  have "map sr_hash (ga_sessions (spend h now d)) = map sr_hash (ga_sessions d)"
    by (simp add: spend_def)
  then show ?thesis by (metis list.set_map)
qed

lemma refreshGrant_Inr:
  assumes "refreshGrant a inp now w = (Inr out, w')" "uuid_law (sys a)" "db_ok (db w)"
  shows "rotated a inp out (db w) (db w')"
proof -
  let ?h = "HashRefresh (sys a) (ti_refresh inp)"
  from assms(1) obtain ses w1 where g: "GetSessionByRefreshHash (pg a) ?h w = (Inr ses, w1)"
    and ns: "\<not> Spent ses"
    by (auto simp: refreshGrant_def act_inv Let_def split: if_splits)
  from assms(1) g ns obtain user w2 where u: "GetUserByID (pg a) (ses_user ses) w1 = (Inr user, w2)"
    and st: "statusError user = Inr ()"
    by (auto simp: refreshGrant_def act_inv Let_def split: if_splits)
  from assms(1) g ns u st obtain pair w3 where
    ro: "Rotate a ?h user (ses_family ses)
          \<lparr>tc_ip = ti_ip inp, tc_agent = ti_agent inp, tc_auth_time = ses_created ses, tc_now = now\<rparr> w2
        = (Inr pair, w3)"
    and rc: "Record a (Event (ActorUser (usr_id user)) ActionTokenRefreshed (usr_id user) (ti_ip inp) []) w3
        = (Inr (), w')" and out: "out = output_of pair user"
    by (auto simp: refreshGrant_def act_inv attempt_case Let_def split: if_splits)
  from GetSessionByRefreshHash_Inr [OF g] obtain s where s: "session_of_hash (db w) ?h = Some s"
    "ses = toDomainSession (sys a) s" "db w1 = db w" by auto
  from GetUserByID_Inr [OF u] s assms(2) obtain r where r: "user_row_of (db w) (sr_user s) = Some r"
    "user = toDomainUser (sys a) r" "db w2 = db w"
    by (auto simp: toDomainSession_def uuid_law_def)
  have ids: "uuid_parse (sys a) (usr_id user) = Some (sr_user s)" "uuid_parse (sys a) (ses_family ses) = Some (sr_family s)"
    using r s assms(2) user_row_of_Some [OF r(1)] by (auto simp: toDomainUser_def toDomainSession_def uuid_law_def)
  from Rotate_Inr [OF ro, unfolded spend_hashes r(3) token_context.select_convs] obtain t s' n where n: "s' \<in> set (ga_sessions (db w))"
    "spendable ?h t s'" "db w3 = add_session n (spend ?h t (db w))" "sr_hash n = HashRefresh (sys a) (RefreshToken pair)"
    "sr_hash n \<notin> sr_hash ` set (ga_sessions (db w))" "sr_used n = None"
    "uuid_parse (sys a) (usr_id user) = Some (sr_user n)" "uuid_parse (sys a) (ses_family ses) = Some (sr_family n)"
    "sr_created n = t"
    and jwt: "\<exists>jti. jwt_sign (sys a) (sg_priv (signing a)) (sg_kid (signing a))
       (claims_of (signing a) (usr_id user) (pr_session pair) (usr_role user) (ses_created ses) now jti)
       = Some (AccessToken pair)"
    by blast
  have "s' = s"
    using s(1) session_of_hash_mem [OF assms(3) n(1)] n(2) by (simp add: spendable_def)
  moreover have "ga_sessions (db w') = ga_sessions (spend ?h t (db w)) @ [n]"
    using unaudited_eq [OF Record_db [OF rc]] n(3) by (simp add: add_session_def)
  ultimately show ?thesis
    using s r n ids st out jwt unfolding rotated_def
    by (intro exI [of _ t] exI [of _ s] exI [of _ n] exI [of _ r])
      (auto simp: statusError_Inr toDomainUser_def toDomainSession_def output_of_def)
qed

lemma refreshGrant_spent:
  assumes "session_of_hash (db w) (HashRefresh (sys a) (ti_refresh inp)) = Some s" "sr_used s \<noteq> None"
    and "refreshGrant a inp now w = (r, w')"
  shows "\<exists>err. r = Inl err"
  using assms
  by (cases r) (auto simp: refreshGrant_def act_inv Let_def Spent_def toDomainSession_def
      dest!: GetSessionByRefreshHash_Inr)

text \<open>Whenever the answer is that a token was reused, no session of that login is left.\<close>

lemma refreshGrant_reused:
  assumes "refreshGrant a inp now w = (Inl ErrRefreshReused, w')" "uuid_law (sys a)"
  shows "\<exists>s. session_of_hash (db w) (HashRefresh (sys a) (ti_refresh inp)) = Some s \<and>
    (\<forall>x \<in> set (ga_sessions (db w')). sr_family x \<noteq> sr_family s)"
proof -
  let ?h = "HashRefresh (sys a) (ti_refresh inp)"
  have le: "load_error e \<noteq> ErrRefreshReused" for e by (simp add: load_error_def)
  from assms(1) le obtain ses w1 where g: "GetSessionByRefreshHash (pg a) ?h w = (Inr ses, w1)"
    by (auto simp: refreshGrant_def act_inv Let_def) metis
  from GetSessionByRefreshHash_Inr [OF g] obtain s where s: "session_of_hash (db w) ?h = Some s"
    "ses = toDomainSession (sys a) s" by auto
  have gone: "\<forall>x \<in> set (ga_sessions (db v)). sr_family x \<noteq> sr_family s"
    if "DeleteSessionFamily (pg a) (ses_family ses) u = (Inr k, v)" for u k v
    using DeleteSessionFamily_Inr [OF that] s assms(2)
    by (auto simp: toDomainSession_def uuid_law_def drop_family_def)
  have rec: "q = Inr () \<and> ga_sessions (db v) = ga_sessions (db u)" if "Record a e u = (q, v)" for u v e q
    using unaudited_eq [OF Record_db [OF that]] Record_Inr [OF that] by simp
  have "\<forall>x \<in> set (ga_sessions (db w')). sr_family x \<noteq> sr_family s"
    using assms(1) g
    by (auto simp: refreshGrant_def act_inv attempt_case Let_def statusError_def Spent_def Expired_def
        dest!: gone rec split: if_splits)
  with s show ?thesis by blast
qed

lemma keeps_grant_helpers [keeps_rules]:
  "keeps_ok (backoff_gate a i)" "keeps_ok (penalise a i)" "keeps_ok (lookup_user a i)"
  by (intro keeps_db grant_frames)+

lemma keeps_Execute_token [keeps_rules]: "keeps_ok (Execute_token a inp)"
  unfolding Execute_token_def passwordGrant_def refreshGrant_def Let_def
  by (intro keeps_rules keeps_db frame_rules)

section \<open>Without faults\<close>

text \<open>While the database answers, a statement does what it says.\<close>

lemma server_now_total:
  obtains t w1 where "server_now w = (Inr t, w1)" "db w1 = db w" "faults w1 = faults w" "cache w1 = cache w"
    "draws w1 = draws w"
  by (cases "tx_now w"; cases "readings w") (auto simp: server_now_def Now_def)

lemma exec_stmt_fine:
  assumes "faults w = []"
  obtains now u w1 where "exec_stmt e st w = run_stmt st now u w1" "db w1 = db w" "faults w1 = []"
    "cache w1 = cache w"
proof -
  obtain t w1 where t: "server_now w = (Inr t :: pg_error + instant, w1)" "db w1 = db w" "faults w1 = faults w" "cache w1 = cache w"
    "draws w1 = draws w"
    by (rule server_now_total)
  have f: "next_fault w = (Inr Fine :: pg_error + fault, w)" using assms by (simp add: next_fault_def)
  show ?thesis
    by (rule that [of t "uuid_new e (draws w)" "w1\<lparr>draws := draws w + 1\<rparr>"])
      (use t f assms in \<open>simp_all add: exec_stmt_def andthen_simp draw_def\<close>)
qed

lemma query_fine:
  assumes "faults w = []" "\<And>now u. \<exists>a. st now u (db w) = Inr (a, f now u)"
  shows "\<exists>a now u w'. query a' nf st w = (Inr a, w') \<and> db w' = f now u \<and> faults w' = []
    \<and> st now u (db w) = Inr (a, f now u)"
proof -
  obtain now u w1 where e: "exec_stmt (env a') st w = run_stmt st now u w1" "db w1 = db w" "faults w1 = []"
    using exec_stmt_fine [OF assms(1)] by metis
  obtain a where "st now u (db w) = Inr (a, f now u)" using assms(2) by blast
  with e show ?thesis
    by (intro exI [of _ a] exI [of _ now] exI [of _ u] exI [of _ "w1\<lparr>db := f now u\<rparr>"])
      (simp add: query_def map_err_simp run_stmt_def)
qed

lemma DeleteSessionFamily_fine:
  assumes "faults w = []" "uuid_parse (env a) f = Some j"
  shows "\<exists>n w'. DeleteSessionFamily a f w = (Inr n, w') \<and> db w' = drop_family j (db w) \<and> faults w' = []"
proof -
  have "\<exists>n. q_DeleteSessionFamily j now u (db w) = Inr (n, drop_family j (db w))" for now u
    by (simp add: q_DeleteSessionFamily_def delete_sessions_def drop_family_def)
  from query_fine [of w "q_DeleteSessionFamily j" "\<lambda>now u. drop_family j (db w)" a None, OF assms(1) this] assms(2) show ?thesis
    by (auto simp: DeleteSessionFamily_def andthen_simp parse_id_def)
qed

lemma GetSessionByRefreshHash_fine:
  assumes "faults w = []" "session_of_hash (db w) h = Some s"
  shows "\<exists>w'. GetSessionByRefreshHash a h w = (Inr (toDomainSession (env a) s), w') \<and> db w' = db w \<and> faults w' = []"
proof -
  have "\<exists>n. q_GetSessionByRefreshHash h now u (db w) = Inr (n, db w)" for now u
    using assms(2) by (simp add: q_GetSessionByRefreshHash_def one_def session_of_hash_def)
  from query_fine [of w "q_GetSessionByRefreshHash h" "\<lambda>now u. db w" a "Some ErrSessionNotFound", OF assms(1) this] assms(2) show ?thesis
    by (auto simp: GetSessionByRefreshHash_def andthen_simp q_GetSessionByRefreshHash_def one_def session_of_hash_def)
qed

lemma Now_total:
  obtains t w1 where "Now w = (Inr t, w1)" "db w1 = db w" "faults w1 = faults w"
  by (cases "readings w") (auto simp: Now_def)

section \<open>Properties\<close>

lemma Execute_refresh:
  assumes "Execute_token a inp w = (r, w')" "ti_grant inp = GrantRefresh"
  obtains now w1 where "db w1 = db w" "faults w1 = faults w" "refreshGrant a inp now w1 = (r, w')"
proof -
  obtain t w1 where t: "Now w = (Inr t :: error + instant, w1)" "db w1 = db w" "faults w1 = faults w"
    by (rule Now_total)
  show thesis
    using assms t by (intro that [of w1 t]) (simp_all add: Execute_token_def andthen_simp GrantRefresh_def GrantPassword_def)
qed

lemma Execute_password:
  assumes "Execute_token a inp w = (r, w')" "ti_grant inp = GrantPassword"
  obtains now w1 where "db w1 = db w" "passwordGrant a inp now w1 = (r, w')"
proof -
  obtain t w1 where t: "Now w = (Inr t :: error + instant, w1)" "db w1 = db w" "faults w1 = faults w"
    by (rule Now_total)
  show thesis
    using assms t by (intro that [of w1 t]) (simp_all add: Execute_token_def andthen_simp GrantRefresh_def GrantPassword_def)
qed

lemma rotated_spent:
  assumes "rotated a inp out d d'"
  shows "\<exists>s. session_of_hash d' (HashRefresh (sys a) (ti_refresh inp)) = Some s \<and> sr_used s \<noteq> None"
proof -
  let ?h = "HashRefresh (sys a) (ti_refresh inp)"
  obtain now s n where s: "session_of_hash d ?h = Some s" "spendable ?h now s"
    "ga_sessions d' = ga_sessions (spend ?h now d) @ [n]"
    using assms unfolding rotated_def by blast
  have "find (\<lambda>x. sr_hash x = ?h) (map (\<lambda>x. if spendable ?h now x then x\<lparr>sr_used := Some now\<rparr> else x) xs @ ys)
      = Some (s\<lparr>sr_used := Some now\<rparr>)" if "find (\<lambda>x. sr_hash x = ?h) xs = Some s" for xs ys
    using that s(2) by (induction xs) (auto simp: spendable_def split: if_splits)
  with s show ?thesis by (auto simp: session_of_hash_def spend_def)
qed

lemma rotated_new:
  assumes "rotated a inp out d d'"
  shows "\<exists>n. n \<in> set (ga_sessions d') \<and> sr_hash n = HashRefresh (sys a) (to_refresh out) \<and>
    sr_hash n \<notin> sr_hash ` set (ga_sessions d)"
proof -
  from assms obtain n h t where "sr_hash n = HashRefresh (sys a) (to_refresh out)"
    "sr_hash n \<notin> sr_hash ` set (ga_sessions d)" "ga_sessions d' = ga_sessions (spend h t d) @ [n]"
    unfolding rotated_def by blast
  then show ?thesis by (intro exI [of _ n]) simp
qed

text \<open>
  C2. Reuse is detected and answered. While the database answers, presenting a spent refresh token
  always yields the reuse error, and then no session descended from that login exists any more,
  while every other session is untouched.
\<close>

theorem reuse_destroys_family:
  assumes "faults w = []" "uuid_law (sys a)" "ti_grant inp = GrantRefresh"
    and "session_of_hash (db w) (HashRefresh (sys a) (ti_refresh inp)) = Some s" "sr_used s \<noteq> None"
    and "Execute_token a inp w = (r, w')"
  shows "r = Inl ErrRefreshReused \<and>
    ga_sessions (db w') = filter (\<lambda>x. sr_family x \<noteq> sr_family s) (ga_sessions (db w))"
proof -
  from assms(6, 3) obtain now v where v: "db v = db w" "faults v = faults w" "refreshGrant a inp now v = (r, w')"
    by (rule Execute_refresh)
  from GetSessionByRefreshHash_fine [of v "HashRefresh (sys a) (ti_refresh inp)" s "pg a"] v(1, 2) assms(1, 4)
  obtain v1 where g: "GetSessionByRefreshHash (pg a) (HashRefresh (sys a) (ti_refresh inp)) v
      = (Inr (toDomainSession (sys a) s), v1)" "db v1 = db w" "faults v1 = []"
    by auto
  from DeleteSessionFamily_fine [OF g(3), of "pg a" "ses_family (toDomainSession (sys a) s)" "sr_family s"] assms(2)
  obtain n v2 where d: "DeleteSessionFamily (pg a) (ses_family (toDomainSession (sys a) s)) v1 = (Inr n, v2)"
      "db v2 = drop_family (sr_family s) (db w)"
    using g(2) by (auto simp: toDomainSession_def uuid_law_def)
  let ?e = "Event ActorSystem ActionRefreshReuse (ses_user (toDomainSession (sys a) s)) (ti_ip inp)
      [(''family_id'', MStr (ses_family (toDomainSession (sys a) s)))]"
  obtain q v3 where rc: "Record a ?e v2 = (q, v3)" by fastforce
  have "r = Inl ErrRefreshReused \<and> w' = v3"
    using v(3) g(1) d(1) rc Record_Inr [OF rc] assms(5)
    by (simp add: refreshGrant_def Let_def andthen_simp map_err_simp Spent_def toDomainSession_def)
  with unaudited_eq [OF Record_db [OF rc]] d(2) show ?thesis by (simp add: drop_family_def)
qed

text \<open>
  C3. Logging in takes an account and its password. A successful password grant proves that some
  account has the normalised identifier as its username or email, that the submitted password
  verifies against that account's stored hash, and that the account is neither blocked nor deleted;
  the answer is about that account, and the only change to the sessions is one new, unspent session
  of it, stored under the hash of the refresh token handed out.
\<close>

theorem login_genuine:
  assumes "Execute_token a inp w = (Inr out, w')" "ti_grant inp = GrantPassword"
  shows "logged_in a inp out (db w) (db w')"
proof -
  from assms obtain now v where "db v = db w" "passwordGrant a inp now v = (Inr out, w')"
    by (rule Execute_password)
  with passwordGrant_Inr [of a inp now v out w'] show ?thesis by simp
qed

theorem login_genuine_witness:
  "\<exists>out d. logged_in sample_app (sample_input GrantPassword ''alice'' ''secret'' []) out sample_db d"
proof (rule succeedsE [OF sample_login])
  fix out w' assume "Execute_token sample_app (sample_input GrantPassword ''alice'' ''secret'' []) sample_world = (Inr out, w')"
  from login_genuine [OF this] show ?thesis by (auto simp: sample_input_def)
qed

text \<open>
  C4. A refused login leaves no trace but the audit entry and the counters: whenever the password
  grant answers that the credentials are wrong, that the account is blocked or deleted, or that
  there were too many attempts, the database is what it was except for the audit log - under every
  fault of the database along the way.
\<close>

theorem refused_login_changes_nothing:
  assumes "Execute_token a inp w = (Inl err, w')" "ti_grant inp = GrantPassword" "refusal err"
  shows "unaudited (db w') = unaudited (db w)"
proof -
  from assms(1, 2) obtain now v where "db v = db w" "passwordGrant a inp now v = (Inl err, w')"
    by (rule Execute_password)
  with passwordGrant_refused [of a inp now v err w'] assms(3) show ?thesis by simp
qed

theorem refused_login_changes_nothing_witness:
  "\<exists>w'. Execute_token sample_app (sample_input GrantPassword ''alice'' ''wrong'' []) sample_world
      = (Inl ErrInvalidCredentials, w') \<and> unaudited (db w') = unaudited sample_db"
proof (rule fails_withE [OF sample_bad_password])
  fix w' assume e: "Execute_token sample_app (sample_input GrantPassword ''alice'' ''wrong'' []) sample_world
    = (Inl ErrInvalidCredentials, w')"
  from refused_login_changes_nothing [OF e] have "unaudited (db w') = unaudited sample_db"
    by (simp add: sample_input_def refusal_def)
  with e show ?thesis by blast
qed

text \<open>
  C5. A successful refresh rotates. The presented token named a session that was neither spent nor
  expired, of an account that is neither blocked nor deleted; exactly that session is marked spent
  and exactly one session is added, of the same user and the same family, stored under the hash of
  the new refresh token, a hash no session had before; the access token is signed for that account
  with its current role.
\<close>

theorem refresh_rotates:
  assumes "Execute_token a inp w = (Inr out, w')" "ti_grant inp = GrantRefresh" "uuid_law (sys a)" "db_ok (db w)"
  shows "rotated a inp out (db w) (db w')"
proof -
  from assms(1, 2) obtain now v where "db v = db w" "refreshGrant a inp now v = (Inr out, w')"
    by (rule Execute_refresh)
  with refreshGrant_Inr [of a inp now v out w'] assms(3, 4) show ?thesis by simp
qed

theorem refresh_rotates_witness:
  "\<exists>out d. rotated sample_app (sample_input GrantRefresh [] [] ''live'') out sample_db d"
proof (rule succeedsE [OF sample_refresh])
  fix out w' assume e: "Execute_token sample_app (sample_input GrantRefresh [] [] ''live'') sample_world = (Inr out, w')"
  show ?thesis
    using refresh_rotates [OF e] sample_uuid_law sample_db_ok by (auto simp: sample_input_def)
qed

theorem reuse_destroys_family_witness:
  "\<exists>w'. Execute_token sample_app (sample_input GrantRefresh [] [] ''spent'') sample_world = (Inl ErrRefreshReused, w') \<and>
     ga_sessions (db w') = []"
proof -
  let ?i = "sample_input GrantRefresh [] [] ''spent''"
  obtain r w' where r: "Execute_token sample_app ?i sample_world = (r, w')" by fastforce
  have "r = Inl ErrRefreshReused \<and> ga_sessions (db w') = filter (\<lambda>x. sr_family x \<noteq> 20) (ga_sessions sample_db)"
    using reuse_destroys_family [of sample_world sample_app ?i "sample_session 11 1 ''spent'' (Some 6)" r w'] r sample_uuid_law
    by (simp add: sample_world_def sample_input_def session_of_hash_def sample_db_def sample_session_def
        HashRefresh_def sample_env_def)
  with r show ?thesis by (simp add: sample_db_def sample_session_def)
qed

text \<open>
  The age of a login is forgotten after one refresh. When a refresh token obtained from a
  refresh is used in turn, the access token it yields claims as its authentication time the
  creation time of the session row the previous refresh had inserted - not the time a password was
  last verified.
\<close>

theorem second_refresh_renews_auth_time:
  assumes "db_ok (db w)" "uuid_law (sys a)" "ti_grant inp = GrantRefresh" "ti_grant inp2 = GrantRefresh"
    and "Execute_token a inp w = (Inr out, w1)" "db w2 = db w1" "ti_refresh inp2 = to_refresh out"
    and "Execute_token a inp2 w2 = (Inr out2, w3)"
  shows "\<exists>n userID sid role tnow jti. n \<in> set (ga_sessions (db w1)) \<and> sr_hash n \<notin> sr_hash ` set (ga_sessions (db w)) \<and>
    jwt_sign (sys a) (sg_priv (signing a)) (sg_kid (signing a))
      (claims_of (signing a) userID sid role (sr_created n) tnow jti) = Some (to_access out2)"
proof -
  from assms(5, 3) obtain now v where v: "db v = db w" "refreshGrant a inp now v = (Inr out, w1)"
    by (rule Execute_refresh)
  have ok1: "db_ok (db w1)"
    using keepsD [OF keeps_Execute_token assms(5) assms(1)] .
  from rotated_new [OF refreshGrant_Inr [OF v(2) assms(2)]] assms(1) v(1)
  have "\<exists>n. n \<in> set (ga_sessions (db w1)) \<and>
      sr_hash n = HashRefresh (sys a) (to_refresh out) \<and> sr_hash n \<notin> sr_hash ` set (ga_sessions (db w))"
    by simp
  then obtain n where n: "n \<in> set (ga_sessions (db w1))"
      "sr_hash n = HashRefresh (sys a) (to_refresh out)" "sr_hash n \<notin> sr_hash ` set (ga_sessions (db w))"
    by blast
  from assms(8, 4) obtain now2 v2 where v2: "db v2 = db w2" "refreshGrant a inp2 now2 v2 = (Inr out2, w3)"
    by (rule Execute_refresh)
  have f: "session_of_hash (db v2) (HashRefresh (sys a) (ti_refresh inp2)) = Some n"
    using session_of_hash_mem [OF ok1 n(1)] n(2) assms(6, 7) v2(1) by simp
  have "rotated a inp2 out2 (db v2) (db w3)"
    using refreshGrant_Inr [OF v2(2) assms(2)] v2(1) assms(6) ok1 by simp
  with f n(1, 3) show ?thesis
    unfolding rotated_def by (metis option.inject)
qed

lemma sample_refresh_twice:
  "succeeds (andthen (Execute_token sample_app (sample_input GrantRefresh [] [] ''live''))
     (\<lambda>out. Execute_token sample_app (sample_input GrantRefresh [] [] (to_refresh out)))) sample_world"
  by code_simp

theorem second_refresh_renews_auth_time_witness:
  "\<exists>out w1 out2 w3. Execute_token sample_app (sample_input GrantRefresh [] [] ''live'') sample_world = (Inr out, w1) \<and>
    Execute_token sample_app (sample_input GrantRefresh [] [] (to_refresh out)) w1 = (Inr out2, w3) \<and>
    (\<exists>n userID sid role tnow jti. n \<in> set (ga_sessions (db w1)) \<and> sr_hash n \<notin> sr_hash ` set (ga_sessions sample_db) \<and>
      jwt_sign sample_env (sg_priv (signing sample_app)) (sg_kid (signing sample_app))
        (claims_of (signing sample_app) userID sid role (sr_created n) tnow jti) = Some (to_access out2))"
proof (rule succeedsE [OF sample_refresh_twice])
  let ?i = "sample_input GrantRefresh [] [] ''live''"
  fix out2 w3 assume "andthen (Execute_token sample_app ?i)
      (\<lambda>out. Execute_token sample_app (sample_input GrantRefresh [] [] (to_refresh out))) sample_world = (Inr out2, w3)"
  then obtain out w1 where e: "Execute_token sample_app ?i sample_world = (Inr out, w1)"
    "Execute_token sample_app (sample_input GrantRefresh [] [] (to_refresh out)) w1 = (Inr out2, w3)"
    by (auto simp: act_inv)
  have "db_ok (db sample_world)" "uuid_law (sys sample_app)" using sample_db_ok sample_uuid_law by simp_all
  from second_refresh_renews_auth_time [OF this _ _ e(1) refl _ e(2)] e show ?thesis by (auto simp: sample_input_def)
qed

end
