(* ===== verification/AccountLaws.thy ===== *)
theory AccountLaws
  imports Account Grants
begin

text \<open>
  What the self-service use cases guarantee: who a registration creates, what a password change
  leaves behind, whose sessions a logout ends.
\<close>

section \<open>Registration\<close>

lemma identifiers_Inr:
  assumes "identifiers a inp = Inr (un, em)"
  shows "(un \<noteq> [] \<longrightarrow> NormalizeUsername (sys a) (ri_username inp) = Inr un) \<and>
    (em \<noteq> [] \<longrightarrow> NormalizeEmail (sys a) (ri_email inp) = Inr em) \<and> (un \<noteq> [] \<or> em \<noteq> []) \<and>
    (require_email a \<longrightarrow> em \<noteq> [])"
proof -
  have "x \<noteq> []" if "NormalizeUsername e s = Inr x" for e s x
    using that by (auto simp: NormalizeUsername_def Let_def split: if_splits)
  moreover have "x \<noteq> []" if "NormalizeEmail e s = Inr x" for e s x
    using that by (auto simp: NormalizeEmail_def Let_def split: if_splits option.splits)
  ultimately show ?thesis
    using assms by (auto simp: identifiers_def Let_def split: if_splits sum.splits)
qed

lemma fresh_login_Inr:
  assumes "fresh_login a m ip ag u w = (Inr p, w')"
  shows "\<exists>s. db w' = add_session s (db w) \<and> sr_hash s = HashRefresh (sys a) (RefreshToken p) \<and>
    sr_used s = None \<and> uuid_parse (sys a) (usr_id u) = Some (sr_user s)"
  using assms frameD [OF frame_world(1)] by (fastforce simp: fresh_login_def act_inv dest!: Issue_Inr)

text \<open>What a registration did.\<close>

definition registered :: "'r app \<Rightarrow> register_input \<Rightarrow> register_output \<Rightarrow> db \<Rightarrow> db \<Rightarrow> bool" where
  "registered a inp out d d' \<longleftrightarrow>
     (\<exists>un em r s.
        identifiers a inp = Inr (un, em) \<and> ValidatePassword (ri_password inp) (min_password_len a) = Inr () \<and>
        ga_users d' = ga_users d @ [r] \<and> ur_username r = text_in un \<and> ur_email r = text_in em \<and>
        ur_role r = RoleUser \<and> ur_status r = StatusActive \<and> \<not> user_clash (ga_users d) r \<and>
        (params_ok (hp (hashing a)) \<and> argon2_law (sys a) \<longrightarrow> Verify (sys a) (ur_hash r) (ri_password inp) = Inr True) \<and>
        rgo_user out = viewOf (toDomainUser (sys a) r) \<and>
        uuid_parse (sys a) (uuid_text (sys a) (ur_id r)) = Some (sr_user s) \<and>
        sr_hash s = HashRefresh (sys a) (rgo_refresh out) \<and> sr_used s = None \<and>
        ga_sessions d' = ga_sessions d @ [s] \<and>
        (emitEvents (pg a) \<longrightarrow> (\<exists>e. ga_outbox d' = ga_outbox d @ [e] \<and> or_event e = EventUserCreated \<and> pending e)) \<and>
        (\<not> emitEvents (pg a) \<longrightarrow> ga_outbox d' = ga_outbox d))"

lemma Execute_register_Inr:
  assumes "Execute_register a inp w = (Inr out, w')"
  shows "Open a \<and> registered a inp out (db w) (db w')"
proof -
  from assms obtain un em h w1 user w2 pair w3 where op: "Open a"
    and i: "identifiers a inp = Inr (un, em)" and v: "ValidatePassword (ri_password inp) (min_password_len a) = Inr ()"
    and h: "Hash (sys a) (hp (hashing a)) (ri_password inp) w = (Inr h, w1)"
    and c: "CreateUser (pg a) \<lparr>cu_event = Some (named_event EventUserCreated), cu_username = un,
        cu_email = em, cu_hash = h, cu_role = RoleUser, cu_status = StatusActive\<rparr> w1 = (Inr user, w2)"
    and l: "fresh_login a ''auth_register: issue'' (ri_ip inp) (ri_agent inp) user w2 = (Inr pair, w3)"
    and rc: "Record a (Event (ActorUser (usr_id user)) ActionUserRegistered (usr_id user) (ri_ip inp) []) w3 = (Inr (), w')"
    and out: "out = register_output_of pair user"
    by (auto simp: Execute_register_def act_inv map_err_Inr split: if_splits)
  from CreateUser_Inr [OF c] obtain r where r: "user = toDomainUser (sys a) r" "ur_username r = text_in un"
      "ur_email r = text_in em" "ur_hash r = h" "ur_role r = RoleUser" "ur_status r = StatusActive"
      "\<not> user_clash (ga_users (db w1)) r"
      "emitted (pg a) (eventFor (Some (named_event EventUserCreated)) user) ((db w1)\<lparr>ga_users := ga_users (db w1) @ [r]\<rparr>) (db w2)"
    by (auto simp: RoleUser_def StatusActive_def)
  have w1: "db w1 = db w" using frameD [OF frame_Hash(1) h] .
  from fresh_login_Inr [OF l] obtain s where s: "db w3 = add_session s (db w2)"
    "sr_hash s = HashRefresh (sys a) (RefreshToken pair)" "sr_used s = None"
    "uuid_parse (sys a) (usr_id user) = Some (sr_user s)" by auto
  have hv: "params_ok (hp (hashing a)) \<and> argon2_law (sys a) \<longrightarrow> Verify (sys a) (ur_hash r) (ri_password inp) = Inr True"
    using Hash_Verify [OF h] r(4) by auto
  note tabs = emitted_tables [OF r(8)] unaudited_eq [OF Record_db [OF rc]]
  have ev: "(emitEvents (pg a) \<longrightarrow> (\<exists>e. ga_outbox (db w') = ga_outbox (db w) @ [e] \<and> or_event e = EventUserCreated \<and> pending e))
      \<and> (\<not> emitEvents (pg a) \<longrightarrow> ga_outbox (db w') = ga_outbox (db w))"
    using r(8) tabs(6) s(1) w1
    by (auto simp: emitted_def eventFor_def NewUserEvent_def named_event_def add_session_def)
  show ?thesis
    unfolding registered_def
    using op i v r(1-7) s(2-4) hv ev out tabs s(1) w1
    by (intro conjI exI [of _ un] exI [of _ em] exI [of _ r] exI [of _ s])
      (auto simp: add_session_def register_output_of_def toDomainUser_def)
qed

text \<open>
  C15. Registration creates an ordinary account and nothing more. It succeeds only while registration
  is open; then exactly one account was added - role user, active, with the normalised identifiers
  it asked for, none of which another account held, and a hash the chosen password verifies
  against - together with one session for the token handed out and, where webhooks are configured,
  one pending user.created event.
\<close>

theorem registration_creates_user:
  assumes "Execute_register a inp w = (Inr out, w')"
  shows "registration_mode a = ModeOpen \<and> registered a inp out (db w) (db w')"
  using Execute_register_Inr [OF assms] by (simp add: Open_def)

definition sample_registration :: register_input where
  "sample_registration = \<lparr>ri_username = ''Newbie'', ri_email = [], ri_password = ''secret'', ri_ip = [], ri_agent = []\<rparr>"

lemma sample_register: "succeeds (Execute_register sample_app sample_registration) sample_world"
  by code_simp

theorem registration_creates_user_witness:
  "\<exists>out d. registered sample_app sample_registration out sample_db d"
proof (rule succeedsE [OF sample_register])
  fix out w' assume "Execute_register sample_app sample_registration sample_world = (Inr out, w')"
  from registration_creates_user [OF this] show ?thesis by auto
qed

section \<open>Password change\<close>

text \<open>What a password change did: the account, and the only session it has afterwards.\<close>

definition password_changed :: "'r app \<Rightarrow> password_input \<Rightarrow> password_output \<Rightarrow> db \<Rightarrow> db \<Rightarrow> bool" where
  "password_changed a inp out d d' \<longleftrightarrow>
     (\<exists>i r now h s.
        uuid_parse (sys a) (pi_user inp) = Some i \<and> user_row_of d i = Some r \<and>
        Verify (sys a) (ur_hash r) (pi_current inp) = Inr True \<and>
        ValidatePassword (pi_new inp) (min_password_len a) = Inr () \<and>
        (params_ok (hp (hashing a)) \<and> argon2_law (sys a) \<longrightarrow> Verify (sys a) h (pi_new inp) = Inr True) \<and>
        ga_users d' = ga_users (put_user (with_password h now r) d) \<and>
        ga_sessions d' = filter (\<lambda>x. sr_user x \<noteq> i) (ga_sessions d) @ [s] \<and> sr_user s = i \<and>
        sr_used s = None \<and> sr_hash s = HashRefresh (sys a) (po_refresh out))"

lemma password_change_Inr:
  assumes "Execute_password_change a inp w = (Inr out, w')" "uuid_law (sys a)"
  shows "password_changed a inp out (db w) (db w')"
proof -
  from assms(1) obtain user w0 where u: "GetUserByID (pg a) (pi_user inp) w = (Inr user, w0)"
    and v: "Verify (sys a) (usr_hash user) (pi_current inp) = Inr True"
    by (auto simp: Execute_password_change_def act_inv split: if_splits)
  from assms(1) u v obtain h w1 upd w2 pair w3 where
    p: "ValidatePassword (pi_new inp) (min_password_len a) = Inr ()"
    and h: "Hash (sys a) (hp (hashing a)) (pi_new inp) w0 = (Inr h, w1)"
    and c: "SetPasswordAndRevokeSessions (pg a) (usr_id user) h (Some (named_event EventUserPasswordChanged)) w1
        = (Inr upd, w2)"
    and l: "fresh_login a ''auth_password_change: issue'' (pi_ip inp) (pi_agent inp) upd w2 = (Inr pair, w3)"
    and rc: "Record a (Event (ActorUser (usr_id user)) ActionPasswordChanged (usr_id user) (pi_ip inp) []) w3 = (Inr (), w')"
    and out: "out = password_output_of pair"
    by (auto simp: Execute_password_change_def act_inv)
  from GetUserByID_Inr [OF u] obtain i r where r: "uuid_parse (sys a) (pi_user inp) = Some i"
    "user_row_of (db w) i = Some r" "user = toDomainUser (sys a) r" "db w0 = db w" by auto
  have w1: "db w1 = db w" using frameD [OF frame_Hash(1) h] r(4) by simp
  have i: "uuid_parse (sys a) (usr_id user) = Some i"
    using r(3) user_row_of_Some [OF r(2)] assms(2) by (simp add: toDomainUser_def uuid_law_def)
  from SetPasswordAndRevokeSessions_Inr [OF c] i r(2) w1 obtain now where
    c2: "upd = toDomainUser (sys a) (with_password h now r)"
      "emitted (pg a) (eventFor (Some (named_event EventUserPasswordChanged)) upd)
        (drop_user_sessions i (put_user (with_password h now r) (db w))) (db w2)"
    by auto
  from fresh_login_Inr [OF l] obtain s where s: "db w3 = add_session s (db w2)"
    "sr_hash s = HashRefresh (sys a) (RefreshToken pair)" "sr_used s = None"
    "uuid_parse (sys a) (usr_id upd) = Some (sr_user s)" by auto
  have "sr_user s = i"
    using s(4) c2(1) user_row_of_Some [OF r(2)] assms(2)
    by (simp add: toDomainUser_def with_password_def uuid_law_def)
  moreover note emitted_tables [OF c2(2)] unaudited_eq [OF Record_db [OF rc]]
  ultimately show ?thesis
    unfolding password_changed_def
    using r v p Hash_Verify [OF h] s out
    by (intro exI [of _ i] exI [of _ r] exI [of _ now] exI [of _ h] exI [of _ s])
      (auto simp: toDomainUser_def add_session_def drop_user_sessions_def put_user_def password_output_of_def)
qed

text \<open>
  C16. A password change proves knowledge of the old password and ends every other session. After a
  success the current password had verified against the stored hash, the account carries a hash the
  new password verifies against, and the sessions of the account are exactly one: the one whose
  refresh token was handed out. Sessions of other accounts are untouched.
\<close>

theorem password_change_revokes:
  assumes "Execute_password_change a inp w = (Inr out, w')" "uuid_law (sys a)"
  shows "password_changed a inp out (db w) (db w')"
  by (rule password_change_Inr [OF assms])

definition sample_change :: "uuid \<Rightarrow> password_input" where
  "sample_change i = \<lparr>pi_current = ''secret'', pi_new = ''better'', pi_user = sample_uuid_text i, pi_ip = [], pi_agent = []\<rparr>"

lemma sample_password_change: "succeeds (Execute_password_change sample_app (sample_change 1)) sample_world"
  by code_simp

theorem password_change_revokes_witness:
  "\<exists>out d. password_changed sample_app (sample_change 1) out sample_db d"
proof (rule succeedsE [OF sample_password_change])
  fix out w' assume e: "Execute_password_change sample_app (sample_change 1) sample_world = (Inr out, w')"
  show ?thesis using password_change_revokes [OF e] sample_uuid_law by auto
qed

text \<open>
  A blocked account can still change its password. On the sample installation the blocked user
  presents the right current password to the password-change use case and is given a new pair of
  tokens, although a login with the same password is refused because the account is blocked.
\<close>

theorem blocked_account_gets_tokens:
  "user_row_of sample_db 3 = Some (sample_user 3 ''bobby'' ''user'' StatusBlocked) \<and>
   succeeds (Execute_password_change sample_app (sample_change 3)) sample_world \<and>
   fails_with (Execute_token sample_app (sample_input GrantPassword ''bobby'' ''secret'' [])) sample_world ErrUserBlocked"
proof (intro conjI)
  show "user_row_of sample_db 3 = Some (sample_user 3 ''bobby'' ''user'' StatusBlocked)" by code_simp
  show "succeeds (Execute_password_change sample_app (sample_change 3)) sample_world" by code_simp
  show "fails_with (Execute_token sample_app (sample_input GrantPassword ''bobby'' ''secret'' [])) sample_world ErrUserBlocked"
    by code_simp
qed

section \<open>Logout\<close>

text \<open>
  A logout ends only the caller's own login. When revoking the current session answers with a
  count, either no session with that id existed and nothing but the audit log changed, or the
  session belonged to the caller and exactly the sessions of its family are gone; the count is
  their number.
\<close>

theorem revoke_own_family:
  assumes "Execute_revoke a userID sessionID ip w = (Inr n, w')" "uuid_law (sys a)"
  shows "(n = 0 \<and> unaudited (db w') = unaudited (db w)) \<or>
    (\<exists>s \<in> set (ga_sessions (db w)). uuid_parse (sys a) sessionID = Some (sr_id s) \<and>
       userID = uuid_text (sys a) (sr_user s) \<and>
       unaudited (db w') = unaudited (drop_family (sr_family s) (db w)) \<and>
       n = int (length (filter (\<lambda>x. sr_family x = sr_family s) (ga_sessions (db w)))))"
proof -
  from assms(1) obtain q w1 where g: "GetSessionByID (pg a) sessionID w = (q, w1)"
    by (auto simp: Execute_revoke_def act_inv attempt_eq split: if_splits)
  show ?thesis
  proof (cases q)
    case (Inl err)
    with assms(1) g show ?thesis
      using frameD [OF repo_reads(10) g]
      by (auto simp: Execute_revoke_def attempt_simp split: if_splits)
  next
    case (Inr ses)
    with assms(1) g obtain w2 where own: "ses_user ses = userID"
      and d: "DeleteSessionFamily (pg a) (ses_family ses) w1 = (Inr n, w2)"
      and rc: "Record a (Event (ActorUser userID) ActionSessionRevoked userID ip
        [(''family_id'', MStr (ses_family ses))]) w2 = (Inr (), w')"
      by (auto simp: Execute_revoke_def attempt_simp act_inv split: if_splits)
    from GetSessionByID_Inr [OF g [unfolded Inr]] obtain s where s: "s \<in> set (ga_sessions (db w))"
      "uuid_parse (sys a) sessionID = Some (sr_id s)" "ses = toDomainSession (sys a) s" "db w1 = db w"
      by auto
    from DeleteSessionFamily_Inr [OF d] s assms(2) have "db w2 = drop_family (sr_family s) (db w)"
      "n = int (length (filter (\<lambda>x. sr_family x = sr_family s) (ga_sessions (db w))))"
      by (auto simp: toDomainSession_def uuid_law_def)
    with s own Record_db [OF rc] show ?thesis by (auto simp: toDomainSession_def)
  qed
qed

lemma sample_revoke: "succeeds (Execute_revoke sample_app (sample_uuid_text 1) (sample_uuid_text 10) []) sample_world"
  by code_simp

theorem revoke_own_family_witness:
  "\<exists>n d. (n = 0 \<and> unaudited d = unaudited sample_db) \<or>
    (\<exists>s \<in> set (ga_sessions sample_db). uuid_parse sample_env (sample_uuid_text 10) = Some (sr_id s) \<and>
       sample_uuid_text 1 = uuid_text sample_env (sr_user s) \<and>
       unaudited d = unaudited (drop_family (sr_family s) sample_db) \<and>
       n = int (length (filter (\<lambda>x. sr_family x = sr_family s) (ga_sessions sample_db))))"
proof (rule succeedsE [OF sample_revoke])
  fix n w' assume e: "Execute_revoke sample_app (sample_uuid_text 1) (sample_uuid_text 10) [] sample_world = (Inr n, w')"
  show ?thesis
    using revoke_own_family [OF e] sample_uuid_law by (intro exI [of _ n] exI [of _ "db w'"]) simp
qed

lemma ListLiveUserSessions_Inr [answers]:
  assumes "ListLiveUserSessions a u w = (Inr xs, w')"
  shows "\<exists>i now. uuid_parse (env a) u = Some i \<and> db w' = db w \<and> (tx_now w = None \<longrightarrow> now = clock w') \<and>
    xs = map (toDomainSession (env a)) (sort_key (\<lambda>s. - sr_created s)
      (filter (\<lambda>s. sr_user s = i \<and> sr_used s = None \<and> sr_expires s > now) (ga_sessions (db w))))"
  using assms
  by (auto simp: ListLiveUserSessions_def act_inv q_ListLiveUserSessions_def elim!: query_Inr)

text \<open>
  Logging out everywhere ends everything. After the call answered with a count, no session of
  the account is left, every other session is untouched, the count is the number removed, and a
  session list taken from that database is empty.
\<close>

theorem logout_all_complete:
  assumes "Execute_logout_all a userID ip w = (Inr n, w')"
    and "db w2 = db w'" "Execute_session_list a userID cur w2 = (r, w3)"
  shows "\<exists>i. uuid_parse (sys a) userID = Some i \<and>
    ga_sessions (db w') = filter (\<lambda>s. sr_user s \<noteq> i) (ga_sessions (db w)) \<and>
    n = int (length (ga_sessions (db w)) - length (ga_sessions (db w'))) \<and>
    (\<forall>xs. r = Inr xs \<longrightarrow> xs = [])"
proof -
  from assms(1) obtain w1 where d: "DeleteUserSessions (pg a) userID w = (Inr n, w1)"
    and rc: "Record a (Event (ActorUser userID) ActionSessionsRevoked userID ip [(''count'', MInt n)]) w1 = (Inr (), w')"
    by (auto simp: Execute_logout_all_def act_inv)
  from DeleteUserSessions_Inr [OF d] obtain i where i: "uuid_parse (sys a) userID = Some i"
    "db w1 = drop_user_sessions i (db w)" "n = int (length (filter (\<lambda>s. sr_user s = i) (ga_sessions (db w))))"
    by auto
  have s: "ga_sessions (db w') = filter (\<lambda>s. sr_user s \<noteq> i) (ga_sessions (db w))"
    using unaudited_eq [OF Record_db [OF rc]] i(2) by (simp add: drop_user_sessions_def)
  have "xs = []" if "r = Inr xs" for xs
    using assms(3) that i(1) s assms(2)
    by (auto simp: Execute_session_list_def act_inv filter_empty_conv dest!: ListLiveUserSessions_Inr)
  moreover have "length (ga_sessions (db w)) - length (ga_sessions (db w'))
      = length (filter (\<lambda>s. sr_user s = i) (ga_sessions (db w)))"
    using sum_length_filter_compl [of "\<lambda>s. sr_user s = i" "ga_sessions (db w)"] s by simp
  ultimately show ?thesis using i s by auto
qed

lemma sample_logout_all: "succeeds (Execute_logout_all sample_app (sample_uuid_text 1) []) sample_world"
  by code_simp

theorem logout_all_complete_witness:
  "\<exists>n i (d :: db). uuid_parse sample_env (sample_uuid_text 1) = Some i \<and>
     ga_sessions d = filter (\<lambda>s. sr_user s \<noteq> i) (ga_sessions sample_db) \<and>
     n = int (length (ga_sessions sample_db) - length (ga_sessions d))"
proof (rule succeedsE [OF sample_logout_all])
  fix n w' assume e: "Execute_logout_all sample_app (sample_uuid_text 1) [] sample_world = (Inr n, w')"
  obtain r w3 where l: "Execute_session_list sample_app (sample_uuid_text 1) [] w' = (r, w3)" by fastforce
  show ?thesis
    using logout_all_complete [OF e refl l] unfolding sample_app_env sample_world_db by blast
qed

end
