(* ===== verification/AdminLaws.thy ===== *)
theory AdminLaws
  imports AdminRoles AccountLaws
begin

text \<open>
  What the administration of users guarantees: the rank discipline, the effect of every write, and
  the survival of the last active superadmin.
\<close>

section \<open>Rank\<close>

text \<open>
  The caller acts with a role that may manage the role of the account \<open>i\<close> names: the machine caller
  and superadmins any role, everybody else only roles of strictly lower rank.
\<close>

definition outranks :: "'r app \<Rightarrow> db \<Rightarrow> caller \<Rightarrow> string \<Rightarrow> bool" where
  "outranks a d by i \<longleftrightarrow>
     (\<exists>actor u r rr. acting_role a d (by_user by) actor \<and> uuid_parse (sys a) i = Some u \<and>
        user_row_of d u = Some r \<and> role_row_of d (ur_role r) = Some rr \<and>
        (role_rank actor \<ge> RankSuperAdmin \<or> rr_rank rr < role_rank actor))"

lemma CanManage_cases: "CanManage x y \<longleftrightarrow> x \<ge> RankSuperAdmin \<or> y < x"
  by (auto simp: CanManage_def)

lemma guard_target_Inr:
  assumes "guard_target a by u w = (Inr x, w')"
  shows "db w' = db w \<and> (\<exists>actor rr. acting_role a (db w) (by_user by) actor \<and>
    role_row_of (db w) (usr_role u) = Some rr \<and> CanManage (role_rank actor) (rr_rank rr))"
  using assms
  by (fastforce simp: guard_target_def act_inv toDomainRole_def dest!: Actor_Inr GetRole_Inr)

lemma guarded_outranks:
  assumes "GetUserByID (pg a) i w = (Inr u, w1)" "guard_target a by u w1 = (Inr x, w2)"
  shows "outranks a (db w) by i \<and> db w2 = db w"
proof -
  from GetUserByID_Inr [OF assms(1)] obtain k r where r: "uuid_parse (sys a) i = Some k"
    "user_row_of (db w) k = Some r" "u = toDomainUser (sys a) r" "db w1 = db w" by auto
  from guard_target_Inr [OF assms(2)] r obtain actor rr where "acting_role a (db w) (by_user by) actor"
    "role_row_of (db w) (ur_role r) = Some rr" "CanManage (role_rank actor) (rr_rank rr)" "db w2 = db w"
    by (auto simp: toDomainUser_def)
  with r show ?thesis unfolding outranks_def by (auto simp: CanManage_cases)
qed

text \<open>What a finished plan of an update knows.\<close>

definition planned :: "'r app \<Rightarrow> caller \<Rightarrow> user_update_input \<Rightarrow> db \<Rightarrow> user_row \<Rightarrow> user_update_input \<Rightarrow> bool" where
  "planned a by inp d r patch \<longleftrightarrow>
     (\<exists>i actor rr. uuid_parse (sys a) (ui_id inp) = Some i \<and> user_row_of d i = Some r \<and>
        acting_role a d (by_user by) actor \<and> role_row_of d (ur_role r) = Some rr \<and>
        CanManage (role_rank actor) (rr_rank rr) \<and>
        (ui_role inp \<noteq> None \<and> the (ui_role inp) \<noteq> ur_role r \<longrightarrow>
           (\<exists>new. role_row_of d (the (ui_role inp)) = Some new \<and> CanManage (role_rank actor) (rr_rank new) \<and>
              by_user by \<noteq> uuid_text (sys a) (ur_id r))) \<and>
        (db_ok d \<and> active_superadmin r \<and> (ui_role inp \<noteq> None \<and> the (ui_role inp) \<noteq> RoleSuperAdmin \<or>
             ui_status inp \<noteq> None \<and> the (ui_status inp) \<noteq> StatusActive) \<longrightarrow> 1 < superadmins d) \<and>
        optional_patch (NormalizeUsername (sys a)) (ui_username inp) = Inr (ui_username patch) \<and>
        optional_patch (NormalizeEmail (sys a)) (ui_email inp) = Inr (ui_email patch) \<and>
        ui_status patch = ui_status inp \<and> ui_role patch = ui_role inp)"

definition patch_of :: "update_user_params \<Rightarrow> user_update_input" where
  "patch_of p = \<lparr>ui_username = uu_username p, ui_email = uu_email p, ui_status = uu_status p,
     ui_role = uu_role p, ui_id = uu_id p\<rparr>"

lemma guard_last_admin_Inr:
  assumes "guard_last_admin a risky w = (Inr x, w')"
  shows "db w' = db w \<and> (risky \<and> db_ok (db w) \<longrightarrow> 1 < superadmins (db w))"
  using assms
  by (auto simp: guard_last_admin_def act_inv split: if_splits dest!: CountActiveSuperAdmins_Inr)

lemma guard_assigned_Inr:
  assumes "guard_assigned a inp current actor w = (Inr x, w')"
  shows "db w' = db w \<and> (role_changes inp current \<longrightarrow> (\<exists>new. role_row_of (db w) (the (ui_role inp)) = Some new \<and>
    CanManage (role_rank actor) (rr_rank new)))"
  using assms
  by (auto simp: guard_assigned_def act_inv toDomainRole_def split: if_splits dest!: GetRole_Inr)

lemma plan_update_Inr:
  assumes "plan_update a by inp w = (Inr (current, p), w')"
  shows "db w' = db w \<and> (\<exists>r. planned a by inp (db w) r (patch_of p) \<and> current = toDomainUser (sys a) r \<and>
    uu_id p = usr_id current \<and> uu_event p = Some (named_event (updateEventFor current inp)))"
proof -
  from assms obtain w1 where g: "GetUserByID (pg a) (ui_id inp) w = (Inr current, w1)"
    by (auto simp: plan_update_def act_inv split: if_splits)
  from assms g obtain actor w2 t w3 un em w4 where ac: "Actor a (by_user by) w1 = (Inr actor, w2)"
    and self: "\<not> (role_changes inp current \<and> by_user by = usr_id current)"
    and t: "GetRole (pg a) (usr_role current) w2 = (Inr t, w3)"
    and cu: "CanManage (role_rank actor) (role_rank t)"
    and un: "optional_patch (NormalizeUsername (sys a)) (ui_username inp) = Inr un"
    and em: "optional_patch (NormalizeEmail (sys a)) (ui_email inp) = Inr em"
    and ro: "guard_assigned a inp current actor w3 = (Inr (), w4)"
    and co: "guard_last_admin a (IsSuperAdmin current \<and> Active current \<and>
           (role_changes inp current \<and> IsSuperAdmin current \<or> loses_active inp current)) w4 = (Inr (), w')"
    and fin: "p = \<lparr>uu_event = Some (named_event (updateEventFor current inp)), uu_id = usr_id current,
         uu_username = un, uu_email = em, uu_status = ui_status inp, uu_role = ui_role inp\<rparr>"
    by (auto simp: plan_update_def act_inv split: if_splits)
  from GetUserByID_Inr [OF g] obtain i r where r: "uuid_parse (sys a) (ui_id inp) = Some i"
    "user_row_of (db w) i = Some r" "current = toDomainUser (sys a) r" "db w1 = db w" by auto
  from Actor_Inr [OF ac] r have ac2: "acting_role a (db w) (by_user by) actor" "db w2 = db w" by auto
  from GetRole_Inr [OF t] ac2 r obtain rr where rr: "role_row_of (db w) (ur_role r) = Some rr"
    "role_rank t = rr_rank rr" "db w3 = db w"
    by (auto simp: toDomainUser_def toDomainRole_def)
  note ga = guard_assigned_Inr [OF ro, unfolded rr(3)]
  note gl = guard_last_admin_Inr [OF co]
  have "planned a by inp (db w) r (patch_of p)"
    unfolding planned_def
    using r ac2 rr cu un em fin self ga gl
    by (intro exI [of _ i] exI [of _ actor] exI [of _ rr])
      (auto simp: patch_of_def role_changes_def loses_active_def toDomainUser_def active_superadmin_def
        IsSuperAdmin_def Active_def)
  with r fin gl ga show ?thesis by auto
qed

section \<open>The effect of an update\<close>

lemma frame_record_update: "frame (\<lambda>w. unaudited (db w)) (record_update a by u v)"
  unfolding record_update_def by (intro frame_rules)

text \<open>One event, named after the change, where events are on; it is written with the change.\<close>

definition announced :: "'r app \<Rightarrow> string \<Rightarrow> db \<Rightarrow> db \<Rightarrow> bool" where
  "announced a name d d' \<longleftrightarrow>
     (if emitEvents (pg a) then \<exists>e. ga_outbox d' = ga_outbox d @ [e] \<and> or_event e = name \<and> pending e
      else ga_outbox d' = ga_outbox d)"

lemma emitted_announced:
  assumes "emitted (pg a) (eventFor (Some (named_event name)) x) d d'" "ga_outbox d = ga_outbox d0"
    "ga_outbox d'' = ga_outbox d'"
  shows "announced a name d0 d''"
  using assms
  by (auto simp: emitted_def announced_def eventFor_def NewUserEvent_def named_event_def split: if_splits)

definition updated_by :: "'r app \<Rightarrow> caller \<Rightarrow> user_update_input \<Rightarrow> user_summary \<Rightarrow> db \<Rightarrow> db \<Rightarrow> bool" where
  "updated_by a by inp out d d' \<longleftrightarrow>
     (\<exists>r p now.
        planned a by inp d r (patch_of p) \<and> out = updated_view (toDomainUser (sys a) (patched p r now)) \<and>
        ga_users d' = ga_users (put_user (patched p r now) d) \<and>
        ga_sessions d' = (if ur_status r = StatusActive \<and> ui_status inp \<noteq> None \<and> the (ui_status inp) \<noteq> StatusActive
          then filter (\<lambda>s. sr_user s \<noteq> ur_id r) (ga_sessions d) else ga_sessions d) \<and>
        ga_roles d' = ga_roles d \<and> ga_role_permissions d' = ga_role_permissions d \<and>
        announced a (updateEventFor (toDomainUser (sys a) r) inp) d d')"

lemma apply_update_Inr:
  assumes "apply_update a inp (toDomainUser (sys a) r) p w = (Inr x, w')" "uuid_law (sys a)"
    and "user_row_of (db w) i = Some r" "uu_id p = uuid_text (sys a) (ur_id r)"
  shows "\<exists>now d. x = toDomainUser (sys a) (patched p r now) \<and> emitted (pg a) (eventFor (uu_event p) x) d (db w') \<and>
    d = (if loses_active inp (toDomainUser (sys a) r)
      then drop_user_sessions (ur_id r) (put_user (patched p r now) (db w)) else put_user (patched p r now) (db w))"
proof -
  have "uuid_parse (sys a) (uu_id p) = Some i" "ur_id r = i"
    using assms(2-4) user_row_of_Some [OF assms(3)] by (simp_all add: uuid_law_def)
  then show ?thesis
    using assms(1, 3)
    by (auto simp: apply_update_def split: if_splits dest!: UpdateUser_Inr UpdateUserAndRevokeSessions_Inr)
qed

lemma Execute_user_update_Inr:
  assumes "Execute_user_update a by inp w = (Inr out, w')" "uuid_law (sys a)"
  shows "updated_by a by inp out (db w) (db w')"
proof -
  from assms(1) obtain cur p w1 upd w2 w3 where pl: "plan_update a by inp w = (Inr (cur, p), w1)"
    and ap: "apply_update a inp cur p w1 = (Inr upd, w2)" and rc: "record_update a by cur upd w2 = (Inr (), w3)"
    and out: "out = updated_view upd" "w' = w3"
    by (auto simp: Execute_user_update_def act_inv)
  from plan_update_Inr [OF pl] obtain r where r: "planned a by inp (db w) r (patch_of p)"
    "cur = toDomainUser (sys a) r" "uu_id p = usr_id cur" "uu_event p = Some (named_event (updateEventFor cur inp))"
    "db w1 = db w" by auto
  from r(1) obtain i where i: "user_row_of (db w1) i = Some r" using r(5) by (auto simp: planned_def)
  have idp: "uu_id p = uuid_text (sys a) (ur_id r)" using r(2,3) by (simp add: toDomainUser_def)
  note ax = apply_update_Inr [OF ap [unfolded r(2)] assms(2) i idp, unfolded r(5)]
  from ax obtain now d where
    x: "upd = toDomainUser (sys a) (patched p r now)"
    and em: "emitted (pg a) (eventFor (uu_event p) upd) d (db w2)"
    and d: "d = (if loses_active inp (toDomainUser (sys a) r)
      then drop_user_sessions (ur_id r) (put_user (patched p r now) (db w)) else put_user (patched p r now) (db w))"
    by blast
  note un = unaudited_eq [OF frameD [OF frame_record_update rc]]
  have "announced a (updateEventFor (toDomainUser (sys a) r) inp) (db w) (db w')"
    by (rule emitted_announced [OF em [unfolded r(4) r(2)]])
      (use d un out(2) in \<open>auto simp: drop_user_sessions_def put_user_def\<close>)
  moreover note emitted_tables [OF em]
  ultimately show ?thesis
    unfolding updated_by_def
    using r(1) x d un out
    by (intro exI [of _ r] exI [of _ p] exI [of _ now])
      (auto simp: drop_user_sessions_def put_user_def loses_active_def Active_def toDomainUser_def)
qed

text \<open>
  C13. An administrative edit does what it was asked, within the caller's rank, and at once. After a
  success the caller's role could manage the target's role and, when the role changed, the new role
  too, and was not the caller's own account; the account's row is the patched row and no other
  account changed; every session of the account is gone if the edit took it out of the active
  state, and no session changed otherwise; and exactly one event that names the change was queued
  with it, where events are on.
\<close>

theorem user_update_effect:
  assumes "Execute_user_update a by inp w = (Inr out, w')" "uuid_law (sys a)"
  shows "updated_by a by inp out (db w) (db w')"
  by (rule Execute_user_update_Inr [OF assms])

definition sample_caller :: "uuid \<Rightarrow> caller" where
  "sample_caller i = \<lparr>by_user = sample_uuid_text i, by_name = ''user'', by_ip = []\<rparr>"

definition sample_block :: "uuid \<Rightarrow> user_update_input" where
  "sample_block i = \<lparr>ui_username = None, ui_email = None, ui_status = Some ''blocked'', ui_role = None, ui_id = sample_uuid_text i\<rparr>"

lemma sample_admin_blocks: "succeeds (Execute_user_update sample_app (sample_caller 4) (sample_block 1)) sample_world"
  by code_simp

theorem user_update_effect_witness:
  "\<exists>out d. updated_by sample_app (sample_caller 4) (sample_block 1) out sample_db d"
proof (rule succeedsE [OF sample_admin_blocks])
  fix out w' assume e: "Execute_user_update sample_app (sample_caller 4) (sample_block 1) sample_world = (Inr out, w')"
  show ?thesis using user_update_effect [OF e] sample_uuid_law by auto
qed

section \<open>The effect of a deletion\<close>

lemma plan_delete_Inr:
  assumes "plan_delete a by i w = (Inr (user, go), w')"
  shows "db w' = db w \<and> (\<exists>k r. uuid_parse (sys a) i = Some k \<and> user_row_of (db w) k = Some r \<and>
    user = toDomainUser (sys a) r \<and> (go \<longleftrightarrow> ur_status r \<noteq> StatusDeleted) \<and>
    (go \<longrightarrow> outranks a (db w) by i \<and> by_user by \<noteq> usr_id user \<and>
       (db_ok (db w) \<and> active_superadmin r \<longrightarrow> 1 < superadmins (db w))))"
proof -
  from assms obtain w1 where g: "GetUserByID (pg a) i w = (Inr user, w1)"
    by (auto simp: plan_delete_def act_inv split: if_splits)
  from GetUserByID_Inr [OF g] obtain k r where r: "uuid_parse (sys a) i = Some k"
    "user_row_of (db w) k = Some r" "user = toDomainUser (sys a) r" "db w1 = db w" by auto
  show ?thesis
  proof (cases "usr_status user = StatusDeleted")
    case True
    with assms g r show ?thesis by (auto simp: plan_delete_def act_inv toDomainUser_def)
  next
    case False
    with assms g obtain w2 where gu: "guard_target a by user w1 = (Inr (), w2)" "by_user by \<noteq> usr_id user"
      and gl: "guard_last_admin a (IsSuperAdmin user \<and> Active user) w2 = (Inr (), w')" and go: "go"
      by (auto simp: plan_delete_def act_inv split: if_splits)
    from guarded_outranks [OF g gu(1)] guard_last_admin_Inr [OF gl] r gu(2) go False show ?thesis
      by (auto simp: toDomainUser_def active_superadmin_def IsSuperAdmin_def Active_def)
  qed
qed

definition erased :: "'r app \<Rightarrow> caller \<Rightarrow> string \<Rightarrow> db \<Rightarrow> db \<Rightarrow> bool" where
  "erased a by i d d' \<longleftrightarrow>
     (\<exists>r now. uuid_parse (sys a) i = Some (ur_id r) \<and> user_row_of d (ur_id r) = Some r \<and>
        (if ur_status r = StatusDeleted then d' = d
         else outranks a d by i \<and> by_user by \<noteq> uuid_text (sys a) (ur_id r) \<and>
           ga_users d' = ga_users (put_user (deleted_row now r) d) \<and>
           ga_sessions d' = filter (\<lambda>s. sr_user s \<noteq> ur_id r) (ga_sessions d) \<and>
           announced a EventUserDeleted d d'))"

lemma Execute_user_delete_Inr:
  assumes "Execute_user_delete a by i w = (Inr out, w')" "uuid_law (sys a)"
  shows "erased a by i (db w) (db w')"
proof -
  from assms(1) obtain user go w1 where pl: "plan_delete a by i w = (Inr (user, go), w1)"
    by (auto simp: Execute_user_delete_def act_inv)
  from plan_delete_Inr [OF pl] obtain k r where r: "uuid_parse (sys a) i = Some k" "user_row_of (db w) k = Some r"
    "user = toDomainUser (sys a) r" "go \<longleftrightarrow> ur_status r \<noteq> StatusDeleted" "db w1 = db w"
    "go \<longrightarrow> outranks a (db w) by i \<and> by_user by \<noteq> usr_id user" by blast
  have k: "ur_id r = k" using user_row_of_Some [OF r(2)] by simp
  show ?thesis
  proof (cases go)
    case False
    with assms(1) pl r k show ?thesis
      unfolding erased_def by (intro exI [of _ r] exI [of _ 0]) (auto simp: Execute_user_delete_def act_inv)
  next
    case True
    with assms(1) pl obtain x w2 where sd: "SoftDeleteUser (pg a) (usr_id user) (Some (named_event EventUserDeleted)) w1 = (Inr x, w2)"
      and rc: "Record a (Event (by_name by) ActionUserDeleted (usr_id x) (by_ip by)
         [(''previous_identifier'', MStr (Identifier user))]) w2 = (Inr (), w')"
      by (auto simp: Execute_user_delete_def act_inv)
    have "uuid_parse (sys a) (usr_id user) = Some k" using r(3) k assms(2) by (simp add: toDomainUser_def uuid_law_def)
    with SoftDeleteUser_Inr [OF sd] r(2, 5) obtain now where
      em: "emitted (pg a) (eventFor (Some (named_event EventUserDeleted)) x)
        (drop_user_sessions k (put_user (deleted_row now r) (db w))) (db w2)"
      by auto
    note un = unaudited_eq [OF Record_db [OF rc]] and tab = emitted_tables [OF em]
    have "announced a EventUserDeleted (db w) (db w')"
      by (rule emitted_announced [OF em]) (use un in \<open>auto simp: drop_user_sessions_def put_user_def\<close>)
    with True r k un tab show ?thesis
      unfolding erased_def
      by (intro exI [of _ r] exI [of _ now]) (auto simp: drop_user_sessions_def put_user_def toDomainUser_def)
  qed
qed

text \<open>
  C6. Deleting an account erases it. After a success the account was deleted already and nothing
  changed, or the caller outranked it and was not the account itself; then its row has
  neither username nor email, the deleted status and the role user, none of its sessions is left, no
  other account or session changed, and one user.deleted event was queued with it, where events are on.
\<close>

theorem user_delete_effect:
  assumes "Execute_user_delete a by i w = (Inr out, w')" "uuid_law (sys a)"
  shows "erased a by i (db w) (db w')"
  by (rule Execute_user_delete_Inr [OF assms])

lemma sample_delete: "succeeds (Execute_user_delete sample_app (sample_caller 4) (sample_uuid_text 1)) sample_world"
  by code_simp

theorem user_delete_effect_witness:
  "case Execute_user_delete sample_app (sample_caller 4) (sample_uuid_text 1) sample_world of
     (Inr _, w') \<Rightarrow> erased sample_app (sample_caller 4) (sample_uuid_text 1) sample_db (db w') \<and> db w' \<noteq> sample_db
   | (Inl _, w') \<Rightarrow> False"
proof (rule succeedsE [OF sample_delete])
  fix out w' assume e: "Execute_user_delete sample_app (sample_caller 4) (sample_uuid_text 1) sample_world = (Inr out, w')"
  have "length (ga_outbox (db (snd (Execute_user_delete sample_app (sample_caller 4) (sample_uuid_text 1) sample_world))))
      \<noteq> length (ga_outbox sample_db)" by code_simp
  then show ?thesis using user_delete_effect [OF e] sample_uuid_law e by auto
qed

section \<open>Every management call is ranked\<close>

text \<open>A call that took effect: it answered with success, or the database is another one.\<close>

definition took_effect :: "error + 'x \<Rightarrow> db \<Rightarrow> db \<Rightarrow> bool" where
  "took_effect r d d' \<longleftrightarrow> (\<exists>x. r = Inr x) \<or> d' \<noteq> d"

text \<open>On the database \<open>d\<close>, the operation takes effect only if \<open>F\<close> holds: its guards come before its writes.\<close>

definition only_if :: "db \<Rightarrow> bool \<Rightarrow> ('r, 'x) io \<Rightarrow> bool" where
  "only_if d F m \<longleftrightarrow> (\<forall>w r w'. db w = d \<longrightarrow> m w = (r, w') \<longrightarrow> took_effect r d (db w') \<longrightarrow> F)"

lemma only_ifD: "only_if (db w) F m \<Longrightarrow> m w = (r, w') \<Longrightarrow> took_effect r (db w) (db w') \<Longrightarrow> F"
  unfolding only_if_def by blast

lemma only_if_read:
  fixes m :: "('r, 'y) io" and k :: "'y \<Rightarrow> ('r, 'x) io"
  assumes "frame db m" "\<And>w x w1. db w = d \<Longrightarrow> m w = (Inr x, w1) \<Longrightarrow> only_if d F (k x)"
  shows "only_if d F (andthen m k)"
  unfolding only_if_def
proof (intro allI impI)
  fix w :: "'r world" and r w' assume w: "db w = d" "andthen m k w = (r, w')" "took_effect r d (db w')"
  obtain q w1 where m: "m w = (q, w1)" by fastforce
  have d: "db w1 = d" using frameD [OF assms(1) m] w(1) by simp
  show F
  proof (cases q)
    case (Inr x)
    with assms(2) [OF w(1), of x w1] m w(2,3) d show ?thesis by (simp add: andthen_simp only_if_def)
  qed (use m w d in \<open>auto simp: andthen_simp took_effect_def\<close>)
qed

lemma only_if_lift: "(\<And>x. q = Inr x \<Longrightarrow> only_if d F (k x)) \<Longrightarrow> only_if d F (andthen (lift q) k)"
  by (rule only_if_read [OF frame_lift]) simp

lemma only_if_guard: "(\<not> b \<Longrightarrow> only_if d F m) \<Longrightarrow> only_if d F (if b then raise e else m)"
  by (simp add: only_if_def took_effect_def)

lemma only_if_guarded:
  "only_if d (outranks a d by i) (andthen (GetUserByID (pg a) i) (\<lambda>u. andthen (guard_target a by u) (k u)))"
proof (rule only_if_read [OF repo_reads(1)], rule only_if_read [OF frame_guard_target(1)])
  fix w u w1 v x v1
  assume "db w = d" "GetUserByID (pg a) i w = (Inr u, w1)" "db v = d" "guard_target a by u v = (Inr x, v1)"
  moreover from this obtain r s where "uuid_parse (sys a) i = Some r" "user_row_of d r = Some s" "u = toDomainUser (sys a) s"
    using GetUserByID_Inr by blast
  ultimately show "only_if d (outranks a d by i) (k u x)"
    using guard_target_Inr [of a "by" u v x v1]
    by (auto simp: only_if_def outranks_def toDomainUser_def CanManage_cases)
qed


lemma sample_reset: "succeeds (Execute_set_password sample_app (sample_caller 4) (sample_uuid_text 1) ''longer'') sample_world"
  by code_simp

lemma sample_deletion: "succeeds (Execute_user_delete sample_app (sample_caller 4) (sample_uuid_text 1)) sample_world"
  by code_simp

lemma sample_not_deleted: "(case uuid_parse sample_env (sample_uuid_text 1) of None \<Rightarrow> False | Some k \<Rightarrow>
    (case user_row_of sample_db k of None \<Rightarrow> False | Some u \<Rightarrow> ur_status u \<noteq> StatusDeleted))"
  by code_simp


end
