(* ===== verification/RoleLaws.thy ===== *)
theory RoleLaws
  imports AdminLaws
begin

text \<open>
  What the administration of roles guarantees when the use case knows who acts, and what its HTTP
  handlers make of that.
\<close>

section \<open>Creating and changing roles\<close>

text \<open>
  Somebody who acts as \<open>by\<close>, whose role lies above each of the ranks (or is a superadmin's) and holds
  each of the permissions, all of them known ones.
\<close>

definition within_actor :: "'r app \<Rightarrow> db \<Rightarrow> caller \<Rightarrow> int list \<Rightarrow> permission list \<Rightarrow> bool" where
  "within_actor a d by ranks perms \<longleftrightarrow>
     (\<exists>actor. acting_role a d (by_user by) actor \<and>
        (\<forall>rank\<in>set ranks. role_rank actor \<ge> RankSuperAdmin \<or> rank < role_rank actor) \<and>
        list_all KnownPermission perms \<and> set perms \<subseteq> set (role_perms actor))"

lemma within_actorI:
  "Actor a (by_user by) v = (Inr actor, v1) \<Longrightarrow> db v = d \<Longrightarrow> \<forall>rank\<in>set ranks. CanManage (role_rank actor) rank \<Longrightarrow>
     list_all KnownPermission perms \<Longrightarrow> set perms \<subseteq> set (role_perms actor) \<Longrightarrow> within_actor a d by ranks perms"
  unfolding within_actor_def using Actor_Inr by (fastforce simp: CanManage_cases)

text \<open>The custom role a call names, as the database has it.\<close>

definition custom_role :: "'r app \<Rightarrow> db \<Rightarrow> string \<Rightarrow> role_row \<Rightarrow> bool" where
  "custom_role a d name r \<longleftrightarrow> role_row_of d (canonical_name a name) = Some r \<and> \<not> rr_system r"

text \<open>What each call owes to its author.\<close>

definition owed_create :: "'r app \<Rightarrow> db \<Rightarrow> caller \<Rightarrow> role_create_input \<Rightarrow> bool" where
  "owed_create a d by inp \<longleftrightarrow> within_actor a d by [rc_rank inp] (rc_perms inp) \<and> 1 \<le> rc_rank inp \<and> rc_rank inp \<le> 99 \<and>
     canonical_name a (rc_name inp) \<notin> set reservedNames"

definition owed_update :: "'r app \<Rightarrow> db \<Rightarrow> caller \<Rightarrow> role_update_input \<Rightarrow> bool" where
  "owed_update a d by inp \<longleftrightarrow> (\<exists>cur. custom_role a d (ru_name inp) cur \<and>
     within_actor a d by (rr_rank cur # (case ru_rank inp of None \<Rightarrow> [] | Some k \<Rightarrow> [k]))
       (case ru_perms inp of None \<Rightarrow> [] | Some ps \<Rightarrow> ps) \<and>
     (\<forall>k. ru_rank inp = Some k \<longrightarrow> 1 \<le> k \<and> k \<le> 99))"

definition owed_delete :: "'r app \<Rightarrow> db \<Rightarrow> caller \<Rightarrow> string \<Rightarrow> bool" where
  "owed_delete a d by n \<longleftrightarrow> (\<exists>cur. custom_role a d n cur \<and> within_actor a d by [rr_rank cur] [])"

lemma role_create_bounds: "only_if d (owed_create a d by inp) (Execute_role_create a by inp)"
  unfolding Execute_role_create_def
proof (intro only_if_guard only_if_read [OF frame_Actor(1)] only_if_lift)
  fix v actor v1 u u2
  assume "\<not> \<not> role_name_free a inp" "\<not> \<not> ValidCustomRank (rc_rank inp)" "db v = d" "Actor a (by_user by) v = (Inr actor, v1)"
    "CanActOnRole actor (rc_rank inp) = Inr u" "MayPlaceInRole actor (rc_perms inp) = Inr u2"
  then have "owed_create a d by inp"
    unfolding owed_create_def by (auto simp: role_name_free_def ValidCustomRank_def intro!: within_actorI)
  then show "only_if d (owed_create a d by inp) m" for m :: "('r, role_view) io" by (simp add: only_if_def)
qed

lemma read_role:
  "GetRole (pg a) (canonical_name a n) w = (Inr cur, w1) \<Longrightarrow> db w = d \<Longrightarrow> \<not> role_system cur \<Longrightarrow>
     \<exists>r. custom_role a d n r \<and> rr_rank r = role_rank cur"
  by (auto simp: custom_role_def toDomainRole_def dest!: GetRole_Inr)

lemma role_update_bounds: "only_if d (owed_update a d by inp) (Execute_role_update a by inp)"
  unfolding Execute_role_update_def Let_def
proof (intro only_if_guard only_if_read [OF repo_reads(7)] only_if_read [OF frame_Actor(1)] only_if_lift)
  fix w cur w1 v actor v1 u
  assume g: "db w = d" "GetRole (pg a) (canonical_name a (ru_name inp)) w = (Inr cur, w1)" "\<not> role_system cur"
    "db v = d" "Actor a (by_user by) v = (Inr actor, v1)" "CanActOnRole actor (role_rank cur) = Inr u"
  obtain r where r: "custom_role a d (ru_name inp) r" "rr_rank r = role_rank cur" using read_role [OF g(2,1,3)] by blast
  show "only_if d (owed_update a d by inp)
    (andthen (case ru_rank inp of None \<Rightarrow> ret ()
        | Some rank \<Rightarrow> if \<not> ValidCustomRank rank then raise ErrInvalidInput else lift (CanActOnRole actor rank)) (\<lambda>_.
     andthen (case ru_perms inp of None \<Rightarrow> ret () | Some perms \<Rightarrow> lift (MayPlaceInRole actor perms)) k))"
    for k :: "unit \<Rightarrow> ('r, role_view) io"
  proof (intro only_if_read)
    fix v2 x v3 v4 y v5
    assume "(case ru_rank inp of None \<Rightarrow> ret ()
        | Some rank \<Rightarrow> if \<not> ValidCustomRank rank then raise ErrInvalidInput else lift (CanActOnRole actor rank)) v2 = (Inr x, v3)"
      "(case ru_perms inp of None \<Rightarrow> ret () | Some perms \<Rightarrow> lift (MayPlaceInRole actor perms)) v4 = (Inr y, v5)"
    then have "owed_update a d by inp"
      unfolding owed_update_def using g r
      by (intro exI [of _ r] conjI within_actorI [OF g(5,4)])
        (auto simp: ValidCustomRank_def split: option.splits if_splits)
    then show "only_if d (owed_update a d by inp) (k y)" by (simp add: only_if_def)
  qed (intro frame_rules)+
qed

lemma role_delete_bounds: "only_if d (owed_delete a d by n) (Execute_role_delete a by n)"
  unfolding Execute_role_delete_def Let_def
proof (intro only_if_guard only_if_read [OF repo_reads(7)] only_if_read [OF frame_Actor(1)] only_if_lift)
  fix w cur w1 v actor v1 u
  assume g: "db w = d" "GetRole (pg a) (canonical_name a n) w = (Inr cur, w1)" "\<not> role_system cur"
    "db v = d" "Actor a (by_user by) v = (Inr actor, v1)" "CanActOnRole actor (role_rank cur) = Inr u"
  obtain r where r: "custom_role a d n r" "rr_rank r = role_rank cur" using read_role [OF g(2,1,3)] by blast
  have "within_actor a d by [rr_rank r] []" by (rule within_actorI [OF g(5,4)]) (use g r in simp_all)
  with r(1) have "owed_delete a d by n" unfolding owed_delete_def by blast
  then show "only_if d (owed_delete a d by n) m" for m :: "('r, string) io" by (simp add: only_if_def)
qed

text \<open>
  C14. No role is written from below. When the creation of a role takes effect - it answers with
  success, or anything in the database changes - the role has a rank from 1 to 99 below the acting
  role's own and known permissions the acting role holds, and takes no built-in name. When an edit or a
  deletion takes effect, the role was a custom one with a rank below the acting role's, and an edit gives it only a
  rank and permissions within the acting role's too, whichever of the two it changes. An acting role
  of superadmin rank is bound by the permissions but not by the rank.
\<close>

theorem roles_within_author:
  "(Execute_role_create a by inp w = (r1, w1) \<and> took_effect r1 (db w) (db w1) \<longrightarrow> owed_create a (db w) by inp) \<and>
   (Execute_role_update a by upd w = (r2, w2) \<and> took_effect r2 (db w) (db w2) \<longrightarrow> owed_update a (db w) by upd) \<and>
   (Execute_role_delete a by n w = (r3, w3) \<and> took_effect r3 (db w) (db w3) \<longrightarrow> owed_delete a (db w) by n)"
  using only_ifD [OF role_create_bounds] only_ifD [OF role_update_bounds] only_ifD [OF role_delete_bounds] by blast

definition sample_role :: "int \<Rightarrow> permission list \<Rightarrow> role_create_input" where
  "sample_role k ps = \<lparr>rc_name = ''crew'', rc_rank = k, rc_perms = ps\<rparr>"

lemma sample_role_create:
  "succeeds (Execute_role_create sample_app (sample_caller 4) (sample_role 7 [''users:read''])) sample_world"
  by code_simp

lemma sample_role_edit:
  "succeeds (Execute_role_update sample_app (sample_caller 4) \<lparr>ru_name = ''helper'', ru_rank = Some 7, ru_perms = None\<rparr>) sample_world"
  "succeeds (Execute_role_delete sample_app (sample_caller 4) ''helper'') sample_world"
  by code_simp+

theorem roles_within_author_witness:
  "within_actor sample_app sample_db (sample_caller 4) [7] [''users:read''] \<and>
   owed_update sample_app sample_db (sample_caller 4) \<lparr>ru_name = ''helper'', ru_rank = Some 7, ru_perms = None\<rparr> \<and>
   owed_delete sample_app sample_db (sample_caller 4) ''helper''"
proof (intro conjI)
  note all = roles_within_author [where w = sample_world, unfolded took_effect_def]
  show "within_actor sample_app sample_db (sample_caller 4) [7] [''users:read'']"
    by (rule succeedsE [OF sample_role_create])
      (use all [THEN conjunct1] in \<open>fastforce simp: owed_create_def sample_role_def\<close>)
  show "owed_update sample_app sample_db (sample_caller 4) \<lparr>ru_name = ''helper'', ru_rank = Some 7, ru_perms = None\<rparr>"
    by (rule succeedsE [OF sample_role_edit(1)]) (use all [THEN conjunct2, THEN conjunct1] in fastforce)
  show "owed_delete sample_app sample_db (sample_caller 4) ''helper''"
    by (rule succeedsE [OF sample_role_edit(2)]) (use all [THEN conjunct2, THEN conjunct2] in fastforce)
qed

section \<open>The handlers\<close>

text \<open>
  The role endpoints do not know who calls. The use case refuses an admin a role of rank 99 that
  carries permissions the admin does not hold; the handler of the same endpoint, which reads no
  caller from the request, lets the machine caller act instead: the role is created, and its audit
  entry names nobody.
\<close>

theorem role_handler_ignores_caller:
  "fails_with (Execute_role_create sample_app (sample_caller 4) (sample_role 99 AllPermissions)) sample_world ErrInsufficientRank \<and>
   fails_with (Execute_role_create sample_app (sample_caller 4) (sample_role 7 AllPermissions)) sample_world ErrPermissionNotHeld \<and>
   rs_status (fst (Handle_role_create sample_app (Some (sample_role 99 AllPermissions)) sample_world)) = 201 \<and>
   map ar_actor (ga_audit_log (db (snd (Handle_role_create sample_app (Some (sample_role 99 AllPermissions)) sample_world)))) = [[]]"
proof (intro conjI)
  show "fails_with (Execute_role_create sample_app (sample_caller 4) (sample_role 99 AllPermissions)) sample_world ErrInsufficientRank"
    by code_simp
  show "fails_with (Execute_role_create sample_app (sample_caller 4) (sample_role 7 AllPermissions)) sample_world ErrPermissionNotHeld"
    by code_simp
  show "rs_status (fst (Handle_role_create sample_app (Some (sample_role 99 AllPermissions)) sample_world)) = 201"
    by code_simp
  show "map ar_actor (ga_audit_log (db (snd (Handle_role_create sample_app (Some (sample_role 99 AllPermissions)) sample_world)))) = [[]]"
    by code_simp
qed

end
