(* ===== verification/Service.thy ===== *)
theory Service
  imports RoleLaws
begin

text \<open>
  The running service as a state machine: a step serves one request of any kind, whatever the clock,
  the faults of the database and the caches are at that moment, and whatever its answer. Invariants
  of the database over every run follow by rule induction.
\<close>

section \<open>Requests\<close>

datatype request_kind =
    RToken token_input
  | RRegister register_input
  | RPasswordChange password_input
  | RRevoke string string string
  | RLogoutAll string string
  | RMe string
  | RSessions string string
  | RUserCreate caller user_create_input
  | RUserUpdate caller user_update_input
  | RUserDelete caller string
  | RSetPassword caller string string
  | RSessionsRevoke caller string
  | RUserGet string
  | RUserList user_list_input
  | RUserSessions string
  | RAuditList list_audit_params
  | RRoleCreate caller role_create_input
  | RRoleUpdate caller role_update_input
  | RRoleDelete caller string
  | RRoleList

fun serve :: "'r app \<Rightarrow> request_kind \<Rightarrow> 'r world \<Rightarrow> 'r world" where
  "serve a (RToken i) w = snd (Execute_token a i w)"
| "serve a (RRegister i) w = snd (Execute_register a i w)"
| "serve a (RPasswordChange i) w = snd (Execute_password_change a i w)"
| "serve a (RRevoke u s ip) w = snd (Execute_revoke a u s ip w)"
| "serve a (RLogoutAll u ip) w = snd (Execute_logout_all a u ip w)"
| "serve a (RMe u) w = snd (Execute_me a u w)"
| "serve a (RSessions u c) w = snd (Execute_session_list a u c w)"
| "serve a (RUserCreate by i) w = snd (Execute_user_create a by i w)"
| "serve a (RUserUpdate by i) w = snd (Execute_user_update a by i w)"
| "serve a (RUserDelete by i) w = snd (Execute_user_delete a by i w)"
| "serve a (RSetPassword by i p) w = snd (Execute_set_password a by i p w)"
| "serve a (RSessionsRevoke by i) w = snd (Execute_sessions_revoke a by i w)"
| "serve a (RUserGet i) w = snd (Execute_user_get a i w)"
| "serve a (RUserList i) w = snd (Execute_user_list a i w)"
| "serve a (RUserSessions i) w = snd (Execute_user_sessions a i w)"
| "serve a (RAuditList p) w = snd (Execute_audit_list a p w)"
| "serve a (RRoleCreate by i) w = snd (Execute_role_create a by i w)"
| "serve a (RRoleUpdate by i) w = snd (Execute_role_update a by i w)"
| "serve a (RRoleDelete by n) w = snd (Execute_role_delete a by n w)"
| "serve a RRoleList w = snd (Execute_role_list a w)"

inductive run :: "'r app \<Rightarrow> db \<Rightarrow> db \<Rightarrow> bool" for a :: "'r app" and d :: db where
  start: "run a d d"
| step: "run a d (db w) \<Longrightarrow> run a d (db (serve a rq w))"

lemma run_invariant:
  assumes "run a d d'" "P d" "\<And>rq w. P (db w) \<Longrightarrow> P (db (serve a rq w))"
  shows "P d'"
  using assms(1, 2) by (induction rule: run.induct) (auto intro: assms(3))

lemma keeps_snd: "keeps (\<lambda>w. P (db w)) m \<Longrightarrow> P (db w) \<Longrightarrow> P (db (snd (m w)))"
  by (simp add: keeps_def)

section \<open>Well-formed tables\<close>

lemma serve_ok: "db_ok (db w) \<Longrightarrow> db_ok (db (serve a rq w))"
  by (cases rq) (auto intro!: keeps_snd [of db_ok] keeps_account keeps_admin_users keeps_admin_roles keeps_Execute_token)

text \<open>
  The tables stay well-formed. Whatever requests are served, in whatever order and with whatever
  answers, clocks and database faults, from a database that satisfies the invariant - every
  constraint of the schema and every foreign key - only such databases are reached.
\<close>

theorem tables_stay_ok:
  assumes "run a d d'" "db_ok d"
  shows "db_ok d'"
  using run_invariant [of a d d' db_ok] assms serve_ok by blast

theorem tables_stay_ok_witness:
  "db_ok (db (serve sample_app (RUserDelete (sample_caller 4) (sample_uuid_text 1)) sample_world))"
proof -
  have "run sample_app sample_db (db (serve sample_app (RUserDelete (sample_caller 4) (sample_uuid_text 1)) sample_world))"
    by (rule run.step) (simp add: run.start)
  from tables_stay_ok [OF this sample_db_ok] show ?thesis .
qed

section \<open>Statements that take no superadmin away\<close>

text \<open>Well-formed, with at least \<open>n\<close> active superadmins.\<close>

definition manned :: "nat \<Rightarrow> db \<Rightarrow> bool" where
  "manned n d \<longleftrightarrow> db_ok d \<and> n \<le> superadmins d"

named_theorems stmt_manned "statements after which there are no fewer active superadmins"

lemma stmt_mannedI:
  assumes "stmt_keeps db_ok st" "\<And>now u d x d'. st now u d = Inr (x, d') \<Longrightarrow> db_ok d \<Longrightarrow> superadmins d \<le> superadmins d'"
  shows "stmt_keeps (manned n) st"
  using assms unfolding stmt_keeps_def manned_def by (meson le_trans)

lemma manned_pure [stmt_manned]: "stmt_pure st \<Longrightarrow> stmt_keeps (manned n) st"
  by (rule stmt_pure_keeps)

lemma superadmins_users: "ga_users d' = ga_users d \<Longrightarrow> superadmins d' = superadmins d"
  by (simp add: superadmins_def)

lemma stmt_manned_users:
  assumes "stmt_keeps db_ok st" "\<And>now u d x d'. st now u d = Inr (x, d') \<Longrightarrow> ga_users d' = ga_users d"
  shows "stmt_keeps (manned n) st"
proof (rule stmt_mannedI [OF assms(1)])
  fix now u d x d'
  assume "st now u d = Inr (x, d')"
  from assms(2) [OF this] show "superadmins d \<le> superadmins d'" by (simp add: superadmins_def)
qed

lemma manned_other [stmt_manned]:
  "stmt_keeps (manned n) (q_CreateRole nm rk sy)" "stmt_keeps (manned n) (q_UpdateRole nm rk' sy')"
  "stmt_keeps (manned n) (q_DeleteRole nm)" "stmt_keeps (manned n) (q_DeleteRolePermissions nm)"
  "stmt_keeps (manned n) (q_AddRolePermission nm pm)"
  "stmt_keeps (manned n) (session_stmt p i j)" "stmt_keeps (manned n) (q_SpendSession h)"
  "stmt_keeps (manned n) (q_DeleteSessionFamily i)" "stmt_keeps (manned n) (q_DeleteUserSessions i)"
  "stmt_keeps (manned n) (q_InsertAuditEntry ac an tg ip mt)" "stmt_keeps (manned n) (q_InsertOutboxEvent ev pl)"
  by (rule stmt_manned_users, simp add: stmt_oks,
      auto simp: q_CreateRole_def q_UpdateRole_def q_DeleteRole_def q_DeleteRolePermissions_def
        q_AddRolePermission_def session_stmt_def q_CreateSession_def q_SpendSession_def
        q_DeleteSessionFamily_def q_DeleteUserSessions_def delete_sessions_def q_InsertAuditEntry_def
        q_InsertOutboxEvent_def Let_def split: if_splits option.splits)+

lemma manned_create [stmt_manned]: "stmt_keeps (manned n) (q_CreateUser un em h ro st)"
  by (rule stmt_mannedI) (auto simp: stmt_oks q_CreateUser_def superadmins_def Let_def split: if_splits)

lemma filter_map_same:
  "(\<And>x. P (f x) = P x) \<Longrightarrow> length (filter P (map f xs)) = length (filter P xs)"
  by (induction xs) auto

lemma manned_touch [stmt_manned]: "stmt_keeps (manned n) (q_TouchUserLogin i)"
proof (rule stmt_mannedI)
  fix now u d x d'
  assume q: "q_TouchUserLogin i now u d = Inr (x, d')"
  have "length (filter active_superadmin (map (\<lambda>x. if ur_id x = i then x\<lparr>ur_last_login := Some now\<rparr> else x) (ga_users d)))
    = length (filter active_superadmin (ga_users d))"
    by (rule filter_map_same) (simp add: active_superadmin_def)
  with q show "superadmins d \<le> superadmins d'" by (auto simp: q_TouchUserLogin_def superadmins_def)
qed (simp add: stmt_oks)

text \<open>Replacing a row shifts the count by what the row was and what it became.\<close>

lemma count_replaced:
  assumes "distinct (map f xs)" "r \<in> set xs" "f r' = f r"
  shows "length (filter P (map (\<lambda>x. if f x = f r' then r' else x) xs)) + (if P r then 1 else 0)
    = length (filter P xs) + (if P r' then 1 else 0)"
  using assms
proof (induction xs)
  case (Cons y ys)
  show ?case
  proof (cases "f y = f r")
    case True
    with Cons.prems have "y = r" by (metis distinct.simps(2) image_eqI list.set_map list.simps(9) set_ConsD)
    moreover have "map (\<lambda>x. if f x = f r' then r' else x) ys = ys"
      using Cons.prems True by (intro map_idI) (auto simp: image_iff)
    ultimately show ?thesis using Cons.prems(3) by auto
  next
    case False
    with Cons show ?thesis by auto
  qed
qed simp

lemma superadmins_put:
  assumes "db_ok d" "user_row_of d i = Some r" "ur_id r' = i"
  shows "superadmins (put_user r' d) + (if active_superadmin r then 1 else 0)
    = superadmins d + (if active_superadmin r' then 1 else 0)"
  using count_replaced [of ur_id "ga_users d" r r' active_superadmin] user_row_of_Some [OF assms(2)] assms(1, 3)
  by (simp add: superadmins_def put_user_def db_ok_def users_ok_def)

lemma manned_password [stmt_manned]: "stmt_keeps (manned n) (q_SetUserPassword i h)"
proof (rule stmt_mannedI)
  fix now u d x d'
  assume q: "q_SetUserPassword i h now u d = Inr (x, d')" and ok: "db_ok d"
  from update_user_row_put [OF q [unfolded q_SetUserPassword_def]] obtain r where
    r: "user_row_of d i = Some r" "x = with_password h now r" "d' = put_user x d"
    by (auto simp: with_password_def)
  with superadmins_put [OF ok r(1), of x] user_row_of_Some [OF r(1)]
  show "superadmins d \<le> superadmins d'" by (auto simp: with_password_def active_superadmin_def split: if_splits)
qed (simp add: stmt_oks)

section \<open>Operations that take no superadmin away\<close>

abbreviation keeps_manned :: "nat \<Rightarrow> ('r, 'a) io \<Rightarrow> bool" where
  "keeps_manned n m \<equiv> keeps (\<lambda>w. manned n (db w)) m"

lemma manned_repo [keeps_rules]:
  "keeps_manned n (CreateUser a cup)" "keeps_manned n (SetPasswordAndRevokeSessions a i h ev)"
  "keeps_manned n (TouchUserLogin a i)" "keeps_manned n (CreateRole a ro)" "keeps_manned n (UpdateRole a urp)"
  "keeps_manned n (DeleteRole a nm)" "keeps_manned n (CreateSession a csp)" "keeps_manned n (RotateSession a h csp)"
  "keeps_manned n (DeleteSessionFamily a i)" "keeps_manned n (DeleteUserSessions a i)"
  "keeps_manned n (InsertAuditEntry a ae)" "keeps_manned n (insertEvent a oe)"
  unfolding repo_defs Let_def insertEvent_def replaceRolePermissions_def
  by (intro keeps_rules keeps_exec_stmt stmt_manned stmt_pures | simp)+

lemma manned_services [keeps_rules]:
  "keeps_manned n (Record a e)" "keeps_manned n (Issue a u c)" "keeps_manned n (Rotate a h u f c)"
  "keeps_manned n (fresh_login a m ip ag u)"
  unfolding Record_def Issue_def Rotate_def fresh_login_def by (intro keeps_rules keeps_db frame_rules)+

lemma manned_record_update [keeps_rules]: "keeps_manned n (record_update a by u v)"
  unfolding record_update_def by (intro keeps_rules)

lemma manned_use_cases:
  "keeps_manned n (Execute_token a ti)" "keeps_manned n (Execute_register a ri)"
  "keeps_manned n (Execute_password_change a pin)" "keeps_manned n (Execute_revoke a u s ip)"
  "keeps_manned n (Execute_logout_all a u ip)" "keeps_manned n (Execute_me a u)"
  "keeps_manned n (Execute_session_list a u cur)" "keeps_manned n (Execute_user_create a by uci)"
  "keeps_manned n (Execute_set_password a by i pw)" "keeps_manned n (Execute_sessions_revoke a by i)"
  "keeps_manned n (Execute_user_get a i)" "keeps_manned n (Execute_user_list a uli)"
  "keeps_manned n (Execute_user_sessions a i)" "keeps_manned n (Execute_audit_list a lap)"
  "keeps_manned n (Execute_role_create a by rci)" "keeps_manned n (Execute_role_update a by rui)"
  "keeps_manned n (Execute_role_delete a by nm)" "keeps_manned n (Execute_role_list a)"
  unfolding Execute_token_def passwordGrant_def refreshGrant_def Execute_register_def Execute_password_change_def
    Execute_revoke_def Execute_logout_all_def Execute_me_def Execute_session_list_def Execute_user_create_def
    Execute_set_password_def Execute_sessions_revoke_def Execute_user_get_def Execute_user_list_def
    Execute_user_sessions_def Execute_audit_list_def Execute_role_create_def Execute_role_update_def
    Execute_role_delete_def Execute_role_list_def Let_def
  by (intro keeps_rules keeps_db frame_rules grant_frames)+

section \<open>Updates and deletions\<close>

text \<open>A transaction, whatever it answers, did nothing or all of its work.\<close>

lemma withTx_any:
  assumes "withTx fn w = (q, w')"
  obtains "db w' = db w" | w1 w2 x where "db w1 = db w" "fn w1 = (Inr x, w2)" "db w' = db w2"
  using assms by (cases q) (auto elim!: withTx_Inl withTx_Inr)

lemma apply_update_any:
  fixes a :: "'r app"
  assumes "apply_update a inp cur p w = (q, w')"
  shows "db w' = db w \<or> (\<exists>i r now. uuid_parse (sys a) (uu_id p) = Some i \<and> user_row_of (db w) i = Some r \<and>
    ga_users (db w') = ga_users (put_user (patched p r now) (db w)))"
proof (cases "uuid_parse (sys a) (uu_id p)")
  case None
  with assms show ?thesis
    by (auto simp: apply_update_def UpdateUser_def UpdateUserAndRevokeSessions_def andthen_simp parse_id_def split: if_splits)
next
  case (Some i)
  define m :: "('r, user) io" where "m = (if loses_active inp cur
    then andthen (query (pg a) (Some ErrUserNotFound) (update_stmt p i)) (\<lambda>row.
        andthen (query (pg a) None (q_DeleteUserSessions i)) (\<lambda>_.
        let out = toDomainUser (sys a) row
        in andthen (insertEvent (pg a) (eventFor (uu_event p) out)) (\<lambda>_. ret out)))
    else andthen (query (pg a) (Some ErrUserNotFound) (update_stmt p i)) (\<lambda>row.
        let out = toDomainUser (sys a) row
        in andthen (insertEvent (pg a) (eventFor (uu_event p) out)) (\<lambda>_. ret out)))"
  have "withTx m w = (q, w')"
    using assms Some
    by (auto simp: m_def apply_update_def UpdateUser_def UpdateUserAndRevokeSessions_def andthen_simp parse_id_def split: if_splits)
  then show ?thesis
  proof (cases rule: withTx_any)
    case (2 w1 w2 x)
    from 2(2) obtain row v v2 e where st: "query (pg a) (Some ErrUserNotFound) (update_stmt p i) w1 = (Inr row, v)"
        "v2 = v \<or> (\<exists>k. query (pg a) None (q_DeleteUserSessions i) v = (Inr k, v2))"
        "insertEvent (pg a) (eventFor (uu_event p) (toDomainUser (sys a) row)) v2 = (Inr e, w2)"
      by (auto simp: m_def Let_def act_inv split: if_splits)
    from query_update_stmt [OF st(1)] obtain now r where
      r: "user_row_of (db w1) i = Some r" "db v = put_user (patched p r now) (db w1)" by auto
    have "ga_users (db v2) = ga_users (db v)"
      using st(2) query_drop_sessions by (fastforce simp: drop_user_sessions_def)
    then have "ga_users (db w2) = ga_users (db v)"
      using insertEvent_Inr [OF st(3)] emitted_tables(1) by fastforce
    with 2 Some r show ?thesis by auto
  qed simp
qed

lemma SoftDeleteUser_any:
  assumes "SoftDeleteUser b s ev w = (q, w')"
  shows "db w' = db w \<or> (\<exists>i r now. uuid_parse (env b) s = Some i \<and> user_row_of (db w) i = Some r \<and>
    ga_users (db w') = ga_users (put_user (deleted_row now r) (db w)))"
proof (cases "uuid_parse (env b) s")
  case None
  with assms show ?thesis by (auto simp: SoftDeleteUser_def andthen_simp parse_id_def)
next
  case (Some i)
  with assms have "withTx (andthen (query b (Some ErrUserNotFound) (q_SoftDeleteUser i)) (\<lambda>row.
        andthen (query b None (q_DeleteUserSessions i)) (\<lambda>_.
        let out = toDomainUser (env b) row
        in andthen (insertEvent b (eventFor ev out)) (\<lambda>_. ret out)))) w = (q, w')"
    by (simp add: SoftDeleteUser_def andthen_simp parse_id_def)
  then show ?thesis
  proof (cases rule: withTx_any)
    case (2 w1 w2 x)
    from 2(2) obtain row v k v2 e v3 where st: "query b (Some ErrUserNotFound) (q_SoftDeleteUser i) w1 = (Inr row, v)"
        "query b None (q_DeleteUserSessions i) v = (Inr k, v2)"
        "insertEvent b (eventFor ev (toDomainUser (env b) row)) v2 = (Inr e, w2)"
      by (auto simp: Let_def act_inv)
    from query_SoftDeleteUser [OF st(1)] obtain now r where
      r: "user_row_of (db w1) i = Some r" "db v = put_user (deleted_row now r) (db w1)" by auto
    have "ga_users (db w2) = ga_users (db v)"
      using query_drop_sessions [OF st(2)] insertEvent_Inr [OF st(3)] emitted_tables(1)
      by (fastforce simp: drop_user_sessions_def)
    with 2 Some r show ?thesis by auto
  qed simp
qed

text \<open>The guard in front of the write is enough for it.\<close>

lemma superadmins_guarded:
  assumes "db_ok d" "user_row_of d i = Some r" "ur_id r' = ur_id r" "1 \<le> superadmins d"
    and "active_superadmin r \<Longrightarrow> \<not> active_superadmin r' \<Longrightarrow> 1 < superadmins d"
  shows "1 \<le> superadmins (put_user r' d)"
  using superadmins_put [OF assms(1, 2)] user_row_of_Some [OF assms(2)] assms(3-5)
  by (cases "active_superadmin r"; cases "active_superadmin r'") fastforce+

lemma patched_superadmin:
  assumes "active_superadmin r" "\<not> active_superadmin (patched p r now)"
  shows "uu_role p \<noteq> None \<and> the (uu_role p) \<noteq> RoleSuperAdmin \<or> uu_status p \<noteq> None \<and> the (uu_status p) \<noteq> StatusActive"
  using assms
  by (cases "uu_status p"; cases "uu_role p")
    (auto simp: active_superadmin_def patched_def coalesce_def textIn_def text_in_def split: if_splits)

lemma planned_safe:
  assumes "planned a by inp d r (patch_of p)" "db_ok d" "active_superadmin r" "\<not> active_superadmin (patched p r now)"
  shows "1 < superadmins d"
proof -
  have p: "uu_status p = ui_status inp" "uu_role p = ui_role inp"
    using assms(1) by (auto simp: planned_def patch_of_def)
  from assms(1) have "db_ok d \<and> active_superadmin r \<and> (ui_role inp \<noteq> None \<and> the (ui_role inp) \<noteq> RoleSuperAdmin \<or>
      ui_status inp \<noteq> None \<and> the (ui_status inp) \<noteq> StatusActive) \<longrightarrow> 1 < superadmins d"
    unfolding planned_def by (elim exE conjE)
  with patched_superadmin [OF assms(3, 4), unfolded p] assms(2, 3) show ?thesis by blast
qed

lemma manned_update:
  assumes "uuid_law (sys a)" "manned 1 (db w)"
  shows "1 \<le> superadmins (db (snd (Execute_user_update a by inp w)))"
proof -
  have ok: "db_ok (db w)" "1 \<le> superadmins (db w)" using assms(2) by (simp_all add: manned_def)
  obtain q w1 where pl: "plan_update a by inp w = (q, w1)" by fastforce
  have w1: "db w1 = db w" using frameD [OF frame_plan_update pl] .
  show ?thesis
  proof (cases q)
    case (Inl e)
    with pl w1 ok show ?thesis by (simp add: Execute_user_update_def andthen_simp)
  next
    case (Inr cp)
    obtain cur p where cp: "cp = (cur, p)" by fastforce
    from plan_update_Inr [OF pl [unfolded Inr cp]] obtain r where r: "planned a by inp (db w) r (patch_of p)"
      "cur = toDomainUser (sys a) r" "uu_id p = usr_id cur" by auto
    from r(1) obtain i where i: "user_row_of (db w) i = Some r" by (auto simp: planned_def)
    have idp: "uuid_parse (sys a) (uu_id p) = Some i"
      using r(2, 3) user_row_of_Some [OF i] assms(1) by (simp add: toDomainUser_def uuid_law_def)
    obtain q2 w2 where ap: "apply_update a inp cur p w1 = (q2, w2)" by fastforce
    have w2: "1 \<le> superadmins (db w2)"
      using apply_update_any [OF ap]
    proof
      assume "\<exists>j s now. uuid_parse (sys a) (uu_id p) = Some j \<and> user_row_of (db w1) j = Some s \<and>
        ga_users (db w2) = ga_users (put_user (patched p s now) (db w1))"
      then obtain now where u: "ga_users (db w2) = ga_users (put_user (patched p r now) (db w))"
        using idp i w1 by auto
      have "1 \<le> superadmins (put_user (patched p r now) (db w))"
        by (rule superadmins_guarded [OF ok(1) i _ ok(2) planned_safe [OF r(1) ok(1)]]) (simp_all add: patched_def)
      with u show ?thesis by (simp add: superadmins_users [OF u])
    qed (use ok w1 in simp)
    show ?thesis
    proof (cases q2)
      case (Inl e)
      with pl Inr cp ap w2 show ?thesis by (simp add: Execute_user_update_def andthen_simp)
    next
      case (Inr x)
      obtain q3 w3 where rc: "record_update a by cur x w2 = (q3, w3)" by fastforce
      have "ga_users (db w3) = ga_users (db w2)"
        using unaudited_eq [OF frameD [OF frame_record_update rc]] by simp
      with pl \<open>q = Inr cp\<close> cp ap Inr rc w2 show ?thesis
        by (auto simp: Execute_user_update_def andthen_simp superadmins_def split: sum.split)
    qed
  qed
qed

lemma manned_delete:
  assumes "uuid_law (sys a)" "manned 1 (db w)"
  shows "1 \<le> superadmins (db (snd (Execute_user_delete a by t w)))"
proof -
  have ok: "db_ok (db w)" "1 \<le> superadmins (db w)" using assms(2) by (simp_all add: manned_def)
  obtain q w1 where pl: "plan_delete a by t w = (q, w1)" by fastforce
  have w1: "db w1 = db w" using frameD [OF frame_plan_delete pl] .
  show ?thesis
  proof (cases q)
    case (Inl e)
    with pl w1 ok show ?thesis by (simp add: Execute_user_delete_def andthen_simp)
  next
    case (Inr cp)
    obtain user go where cp: "cp = (user, go)" by fastforce
    from plan_delete_Inr [OF pl [unfolded Inr cp]] obtain i r where i: "user_row_of (db w) i = Some r"
      "user = toDomainUser (sys a) r" "go \<longrightarrow> (db_ok (db w) \<and> active_superadmin r \<longrightarrow> 1 < superadmins (db w))"
      by blast
    have idp: "uuid_parse (sys a) (usr_id user) = Some i"
      using i(2) user_row_of_Some [OF i(1)] assms(1) by (simp add: toDomainUser_def uuid_law_def)
    obtain q2 w2 where sd: "SoftDeleteUser (pg a) (usr_id user) (Some (named_event EventUserDeleted)) w1 = (q2, w2)"
      by fastforce
    have w2: "1 \<le> superadmins (db w2)" if go
      using SoftDeleteUser_any [OF sd]
    proof
      assume "\<exists>j s now. uuid_parse (sys a) (usr_id user) = Some j \<and> user_row_of (db w1) j = Some s \<and>
        ga_users (db w2) = ga_users (put_user (deleted_row now s) (db w1))"
      then obtain now where u: "ga_users (db w2) = ga_users (put_user (deleted_row now r) (db w))"
        using idp i w1 by auto
      have "1 \<le> superadmins (put_user (deleted_row now r) (db w))"
        by (rule superadmins_guarded [OF ok(1) i(1) _ ok(2)]) (use i(3) that ok in \<open>simp_all add: deleted_row_def\<close>)
      with u show ?thesis by (simp add: superadmins_users [OF u])
    qed (use ok w1 in simp)
    show ?thesis
    proof (cases "\<not> go")
      case True
      with pl Inr cp w1 ok show ?thesis by (simp add: Execute_user_delete_def andthen_simp)
    next
      case False
      show ?thesis
      proof (cases q2)
        case (Inl e)
        with pl Inr cp sd w2 False show ?thesis by (simp add: Execute_user_delete_def andthen_simp)
      next
        case (Inr x)
        obtain q3 w3 where rc: "Record a (Event (by_name by) ActionUserDeleted (usr_id x) (by_ip by)
          [(''previous_identifier'', MStr (Identifier user))]) w2 = (q3, w3)" by fastforce
        have "ga_users (db w3) = ga_users (db w2)"
          using unaudited_eq [OF Record_db [OF rc]] by simp
        with pl \<open>q = Inr cp\<close> cp sd Inr rc w2 False show ?thesis
          by (auto simp: Execute_user_delete_def andthen_simp superadmins_def split: sum.split)
      qed
    qed
  qed
qed

lemma serve_manned:
  assumes "uuid_law (sys a)" "manned 1 (db w)" shows "manned 1 (db (serve a rq w))"
proof -
  have ok: "db_ok (db (serve a rq w))"
    by (rule serve_ok) (use assms in \<open>simp add: manned_def\<close>)
  show ?thesis
  proof (cases rq)
    case (RUserUpdate who i)
    with manned_update [OF assms] ok show ?thesis by (simp add: manned_def)
  next
    case (RUserDelete who i)
    with manned_delete [OF assms] ok show ?thesis by (simp add: manned_def)
  qed (use assms(2) in \<open>auto simp del: One_nat_def intro!: keeps_snd [of "manned 1"] manned_use_cases\<close>)
qed

text \<open>
  The service never locks itself out, one request at a time. If some active superadmin exists,
  then after any sequence of requests - whatever they ask for, whoever sends them, and whether the
  database answered, refused or lost the answer of a statement - some active superadmin still exists.
\<close>

theorem last_superadmin_survives:
  assumes "run a d d'" "uuid_law (sys a)" "db_ok d" "1 \<le> superadmins d"
  shows "1 \<le> superadmins d'"
proof -
  have "manned 1 d'"
    by (rule run_invariant [OF assms(1)]) (use assms serve_manned in \<open>auto simp: manned_def\<close>)
  then show ?thesis by (simp add: manned_def)
qed

theorem last_superadmin_survives_witness:
  "1 \<le> superadmins (db (serve sample_app (RUserDelete unnamed_caller (sample_uuid_text 2)) sample_world))"
proof -
  have "run sample_app sample_db (db (serve sample_app (RUserDelete unnamed_caller (sample_uuid_text 2)) sample_world))"
    by (rule run.step) (simp add: run.start)
  moreover have "1 \<le> superadmins sample_db" by code_simp
  ultimately show ?thesis
    using last_superadmin_survives sample_uuid_law sample_db_ok sample_app_env by metis
qed

end
