(* ===== verification/Races.thy ===== *)
theory Races
  imports Service
begin

text \<open>
  Requests that overlap. A request that reads, decides and then writes is two steps; between them
  others may run. The conditional UPDATE that spends a refresh token survives this; the count that
  guards the last superadmin does not.
\<close>

section \<open>Two rotations of one token\<close>

lemma RotateSession_spends:
  assumes "RotateSession b h p w = (Inr x, w1)" "db_ok (db w)" "s \<in> set (ga_sessions (db w1))"
  shows "\<not> spendable h t s"
proof -
  from RotateSession_Inr [OF assms(1)] obtain now s0 n where n: "s0 \<in> set (ga_sessions (db w))"
    "spendable h now s0" "sr_hash n \<notin> sr_hash ` set (ga_sessions (spend h now (db w)))"
    "db w1 = add_session n (spend h now (db w))" by blast
  have h: "sr_hash s0 = h" using n(2) by (simp add: spendable_def)
  have only: "y = s0" if "y \<in> set (ga_sessions (db w))" "sr_hash y = h" for y
    using session_of_hash_mem [OF assms(2) that(1)] session_of_hash_mem [OF assms(2) n(1)] that(2) h by simp
  have "sr_hash n \<noteq> h"
    using n(1, 3) h unfolding spend_hashes by (metis imageI)
  moreover have "\<not> spendable h t y" if "y \<in> set (ga_sessions (spend h now (db w)))" for y
    using that only n(2) by (fastforce simp: spend_def spendable_def)
  ultimately show ?thesis
    using assms(3) n(4) by (auto simp: add_session_def spendable_def)
qed

lemma RotateSession_any:
  assumes "RotateSession b h p w = (q, w')"
  shows "(\<exists>err. q = Inl err \<and> db w' = db w) \<or> (\<exists>s t. s \<in> set (ga_sessions (db w)) \<and> spendable h t s)"
proof (cases q)
  case (Inr x)
  with RotateSession_Inr [of b h p w x w'] assms show ?thesis by blast
next
  case (Inl err)
  from assms Inl show ?thesis
    by (auto simp: RotateSession_def act_inv map_err_Inr elim!: withTx_Inl dest!: exec_spend_Inr)
qed

text \<open>
  C11. Two requests that present one refresh token have at most one winner. Both may have read the
  session while it was unspent; once one rotation succeeded, the other - run on the database it
  left, under any clock and any faults - fails and changes nothing.
\<close>

theorem one_rotation_wins:
  assumes "RotateSession b h p w = (Inr x, w1)" "db_ok (db w)" "db w2 = db w1"
    and "RotateSession b h p2 w2 = (q, w3)"
  shows "\<exists>err. q = Inl err \<and> db w3 = db w2"
  using RotateSession_any [OF assms(4)] RotateSession_spends [OF assms(1, 2)] assms(3) by auto

definition sample_next :: "string \<Rightarrow> create_session_params" where
  "sample_next h = \<lparr>cs_user = sample_uuid_text 1, cs_family = sample_uuid_text 20, cs_hash = h, cs_expires = 900,
     cs_ip = [], cs_agent = []\<rparr>"

lemma sample_rotation: "succeeds (RotateSession (pg sample_app) ''live'' (sample_next ''next'')) sample_world"
  by code_simp

theorem one_rotation_wins_witness:
  "\<exists>w1 err w3. RotateSession (pg sample_app) ''live'' (sample_next ''other'') w1 = (Inl err, w3) \<and> db w3 = db (w1 :: unit world)"
proof (rule succeedsE [OF sample_rotation])
  fix x w1 assume e: "RotateSession (pg sample_app) ''live'' (sample_next ''next'') sample_world = (Inr x, w1)"
  obtain q w3 where r: "RotateSession (pg sample_app) ''live'' (sample_next ''other'') w1 = (q, w3)" by fastforce
  from one_rotation_wins [OF e _ refl r] sample_db_ok r show ?thesis by auto
qed

section \<open>Two edits that each spare one superadmin\<close>

text \<open>
  Administrators at work: an edit is planned on the database as it is, and written later, when
  others may have written theirs.
\<close>

type_synonym pending_edit = "user_update_input \<times> user \<times> update_user_params"

inductive overlap :: "'r app \<Rightarrow> db \<times> pending_edit list \<Rightarrow> db \<times> pending_edit list \<Rightarrow> bool" for a :: "'r app" where
  plan: "plan_update a by inp w = (Inr (cur, p), w') \<Longrightarrow> overlap a (db w, es) (db w', es @ [(inp, cur, p)])"
| finish: "apply_update a inp cur p w = (q, w') \<Longrightarrow> overlap a (db w, (inp, cur, p) # es) (db w', es)"

inductive_cases overlap_finishE: "overlap a (d, e # es) (d', es)"

text \<open>The sample installation with a second superadmin.\<close>

definition two_superadmins :: db where
  "two_superadmins = sample_db\<lparr>ga_users := ga_users sample_db @ [sample_user 5 ''secnd'' ''superadmin'' ''active'']\<rparr>"

definition race_plan :: "uuid \<Rightarrow> uuid \<Rightarrow> (unit, user \<times> update_user_params) io" where
  "race_plan i j = plan_update sample_app (sample_caller i) (sample_block j)"

definition race_write :: "uuid \<Rightarrow> user \<times> update_user_params \<Rightarrow> (unit, user) io" where
  "race_write j cp = apply_update sample_app (sample_block j) (fst cp) (snd cp)"

lemma race_runs:
  "case andthen (race_plan 2 5) (\<lambda>p1. andthen (race_plan 5 2) (\<lambda>p2.
      andthen (race_write 5 p1) (\<lambda>_. race_write 2 p2))) (sample_world\<lparr>db := two_superadmins\<rparr>) of
     (Inl e, w) \<Rightarrow> False | (Inr x, w) \<Rightarrow> superadmins (db w) = 0"
  by code_simp

text \<open>
  Overlapping edits can take the last superadmin away. From an installation with two active
  superadmins, two edits that each block the other one - each planned while the other superadmin was
  still active - lead to an installation with none, although each of them alone is refused the
  moment only one superadmin is left.
\<close>

theorem superadmins_can_race:
  "db_ok two_superadmins \<and> superadmins two_superadmins = 2 \<and>
   (\<exists>d. (overlap sample_app)\<^sup>*\<^sup>* (two_superadmins, []) (d, []) \<and> superadmins d = 0)"
proof (intro conjI)
  show "db_ok two_superadmins" by code_simp
  show "superadmins two_superadmins = 2" by code_simp
  let ?w = "sample_world\<lparr>db := two_superadmins\<rparr>"
  obtain p1 w1 p2 w2 u1 w3 u2 w4 where r: "race_plan 2 5 ?w = (Inr p1, w1)" "race_plan 5 2 w1 = (Inr p2, w2)"
    "race_write 5 p1 w2 = (Inr u1, w3)" "race_write 2 p2 w3 = (Inr u2, w4)" and none: "superadmins (db w4) = 0"
    using race_runs by (auto simp: andthen_simp split: prod.splits sum.splits)
  let ?e1 = "(sample_block 5, fst p1, snd p1)" and ?e2 = "(sample_block 2, fst p2, snd p2)"
  have "overlap sample_app (two_superadmins, []) (db w1, [?e1])"
    using overlap.plan [of sample_app "sample_caller 2" "sample_block 5" ?w "fst p1" "snd p1" w1 "[]"] r(1)
    by (simp add: race_plan_def)
  moreover have "overlap sample_app (db w1, [?e1]) (db w2, [?e1, ?e2])"
    using overlap.plan [of sample_app "sample_caller 5" "sample_block 2" w1 "fst p2" "snd p2" w2 "[?e1]"] r(2)
    by (simp add: race_plan_def)
  moreover have "overlap sample_app (db w2, [?e1, ?e2]) (db w3, [?e2])"
    by (rule overlap.finish [OF r(3) [unfolded race_write_def]])
  moreover have "overlap sample_app (db w3, [?e2]) (db w4, [])"
    by (rule overlap.finish [OF r(4) [unfolded race_write_def]])
  ultimately have "(overlap sample_app)\<^sup>*\<^sup>* (two_superadmins, []) (db w4, [])"
    by (meson rtranclp.rtrancl_into_rtrancl rtranclp.rtrancl_refl)
  with none show "\<exists>d. (overlap sample_app)\<^sup>*\<^sup>* (two_superadmins, []) (d, []) \<and> superadmins d = 0" by blast
qed

end
