(* ===== verification/RealIP.thy ===== *)
theory RealIP
  imports Http Decimal "HOL-Library.Word"
begin

unbundle bit_operations_syntax

text \<open>
  Package \<open>pkg/realip\<close>: the client address of a request behind proxies, over the addresses and
  prefixes of Go's \<open>net/netip\<close> as words.
\<close>

section \<open>net/netip\<close>

text \<open>\<open>netip.Addr\<close>: the zero value, an IPv4 address, an IPv6 address with its zone.\<close>

datatype addr = NoAddr | V4 "32 word" | V6 "128 word" string

definition IsValid :: "addr \<Rightarrow> bool" where
  "IsValid ip \<longleftrightarrow> ip \<noteq> NoAddr"

text \<open>\<open>Unmap\<close>: an IPv4 address wrapped in \<open>::ffff:0:0/96\<close> becomes itself.\<close>

definition Unmap :: "addr \<Rightarrow> addr" where
  "Unmap ip = (case ip of
      V6 a z \<Rightarrow> if drop_bit 32 a = 0xFFFF then V4 (ucast a) else ip
    | _ \<Rightarrow> ip)"

text \<open>\<open>parseIPv4\<close>: four decimal fields of one to three digits, at most 255, no leading zero.\<close>

definition ipv4_field :: "string \<Rightarrow> nat option" where
  "ipv4_field s =
     (if s = [] \<or> length s > 3 \<or> \<not> list_all digit s \<or> (length s > 1 \<and> hd s = CHR ''0'') \<or> digits_val s > 255
      then None else Some (digits_val s))"

definition octets :: "nat \<Rightarrow> nat \<Rightarrow> nat \<Rightarrow> nat \<Rightarrow> nat" where
  "octets a b c d = ((a * 256 + b) * 256 + c) * 256 + d"

definition ipv4_value :: "string \<Rightarrow> nat option" where
  "ipv4_value s = (case map ipv4_field (Split (CHR ''.'') s) of
      [Some a, Some b, Some c, Some d] \<Rightarrow> Some (octets a b c d)
    | _ \<Rightarrow> None)"

definition hex_val :: "char \<Rightarrow> nat option" where
  "hex_val c = (let n = byte c in
     if in_range 48 57 n then Some (n - 48)
     else if in_range 97 102 n then Some (n - 87)
     else if in_range 65 70 n then Some (n - 55) else None)"

text \<open>A field of an IPv6 address: one to four hexadecimal digits.\<close>

definition hex_field :: "string \<Rightarrow> nat option" where
  "hex_field s =
     (if s = [] \<or> length s > 4 \<or> list_ex (\<lambda>c. hex_val c = None) s then None
      else Some (foldl (\<lambda>n c. 16 * n + the (hex_val c)) 0 s))"

text \<open>
  Fields separated by colons; the last one may be an IPv4 address, which counts for two.
\<close>

fun hex_fields :: "string list \<Rightarrow> nat list option" where
  "hex_fields [] = Some []"
| "hex_fields (f # fs) =
     (if fs = [] \<and> CHR ''.'' \<in> set f
      then map_option (\<lambda>v. [v div 65536, v mod 65536]) (ipv4_value f)
      else (case hex_field f of
              None \<Rightarrow> None
            | Some n \<Rightarrow> map_option ((#) n) (hex_fields fs)))"

definition colon_fields :: "string \<Rightarrow> nat list option" where
  "colon_fields s = (if s = [] then Some [] else hex_fields (Split (CHR '':'') s))"

text \<open>\<open>parseIPv6\<close> without the zone: eight fields, or fewer around one \<open>::\<close>.\<close>

definition ipv6_fields :: "string \<Rightarrow> nat list option" where
  "ipv6_fields s =
     (case Cut s ''::'' of
        None \<Rightarrow>
          (case colon_fields s of
             Some fs \<Rightarrow> if length fs = 8 then Some fs else None
           | None \<Rightarrow> None)
      | Some (l, r) \<Rightarrow>
          (case (if CHR ''.'' \<in> set l then None else colon_fields l, colon_fields r) of
             (Some ls, Some rs) \<Rightarrow>
               if length ls + length rs < 8 then Some (ls @ replicate (8 - length ls - length rs) 0 @ rs) else None
           | _ \<Rightarrow> None))"

definition ipv6_word :: "nat list \<Rightarrow> 128 word" where
  "ipv6_word fs = foldl (\<lambda>w n. push_bit 16 w OR of_nat n) 0 fs"

text \<open>\<open>netip.ParseAddr\<close>; the first of the characters \<open>.:%\<close> decides the family.\<close>

definition ParseAddr :: "string \<Rightarrow> addr option" where
  "ParseAddr s =
     (case find (\<lambda>c. c \<in> set ''.:%'') s of
        None \<Rightarrow> None
      | Some c \<Rightarrow>
          if c = CHR ''.'' then map_option (\<lambda>v. V4 (of_nat v)) (ipv4_value s)
          else if c = CHR '':'' then
            (case Cut s ''%'' of
               None \<Rightarrow> map_option (\<lambda>fs. V6 (ipv6_word fs) []) (ipv6_fields s)
             | Some (a, z) \<Rightarrow> if z = [] then None else map_option (\<lambda>fs. V6 (ipv6_word fs) z) (ipv6_fields a))
          else None)"

text \<open>\<open>netip.Prefix\<close>; a valid one never carries a zone.\<close>

record prefix =
  px_addr :: addr
  px_bits :: nat

definition BitLen :: "addr \<Rightarrow> nat" where
  "BitLen ip = (case ip of NoAddr \<Rightarrow> 0 | V4 _ \<Rightarrow> 32 | V6 _ _ \<Rightarrow> 128)"

definition Masked :: "prefix \<Rightarrow> prefix" where
  "Masked p = (case px_addr p of
      V4 a \<Rightarrow> p\<lparr>px_addr := V4 (push_bit (32 - px_bits p) (drop_bit (32 - px_bits p) a))\<rparr>
    | V6 a z \<Rightarrow> p\<lparr>px_addr := V6 (push_bit (128 - px_bits p) (drop_bit (128 - px_bits p) a)) []\<rparr>
    | NoAddr \<Rightarrow> p)"

definition prefix_bits :: "string \<Rightarrow> nat \<Rightarrow> nat option" where
  "prefix_bits s most =
     (if length s > 1 \<and> \<not> in_range 49 57 (byte (hd s)) then None
      else (case Atoi s of
              None \<Rightarrow> None
            | Some n \<Rightarrow> if n < 0 \<or> n > int most then None else Some (nat n)))"

definition ParsePrefix :: "string \<Rightarrow> prefix option" where
  "ParsePrefix s =
     (let rest = dropWhile (\<lambda>c. c \<noteq> CHR ''/'') (rev s); bits = rev (takeWhile (\<lambda>c. c \<noteq> CHR ''/'') (rev s)) in
      if rest = [] then None
      else (case ParseAddr (rev (tl rest)) of
              None \<Rightarrow> None
            | Some ip \<Rightarrow>
                (case ip of
                   V6 a z \<Rightarrow> if z \<noteq> [] then None else map_option (\<lambda>n. \<lparr>px_addr = ip, px_bits = n\<rparr>) (prefix_bits bits 128)
                 | _ \<Rightarrow> map_option (\<lambda>n. \<lparr>px_addr = ip, px_bits = n\<rparr>) (prefix_bits bits 32))))"

definition prefix_Contains :: "prefix \<Rightarrow> addr \<Rightarrow> bool" where
  "prefix_Contains p ip =
     (case (px_addr p, ip) of
        (V4 b, V4 a) \<Rightarrow> drop_bit (32 - px_bits p) (a XOR b) = 0
      | (V6 b y, V6 a z) \<Rightarrow> z = [] \<and> drop_bit (128 - px_bits p) (a XOR b) = 0
      | _ \<Rightarrow> False)"

text \<open>\<open>Addr.String\<close>: dotted decimal; hexadecimal fields with the longest run of zeros cut out.\<close>

definition ipv4_string :: "32 word \<Rightarrow> string" where
  "ipv4_string a = (let n = unat a in
     print_nat (n div 16777216) @ ''.'' @ print_nat (n div 65536 mod 256) @ ''.'' @
     print_nat (n div 256 mod 256) @ ''.'' @ print_nat (n mod 256))"

fun hex_print :: "nat \<Rightarrow> string" where
  "hex_print n = (if n < 16 then [''0123456789abcdef'' ! n] else hex_print (n div 16) @ [''0123456789abcdef'' ! (n mod 16)])"

declare hex_print.simps [simp del]

definition word_fields :: "128 word \<Rightarrow> nat list" where
  "word_fields a = map (\<lambda>i. unat (drop_bit (112 - 16 * i) a AND 0xFFFF)) [0..<8]"

fun zero_run :: "nat list \<Rightarrow> nat" where
  "zero_run (0 # ns) = Suc (zero_run ns)"
| "zero_run ns = 0"

text \<open>The first of the longest runs of at least two zero fields: where it starts and ends.\<close>

definition elision :: "nat list \<Rightarrow> (nat \<times> nat) option" where
  "elision fs =
     fold (\<lambda>i best. let n = zero_run (drop i fs) in
       if n \<ge> 2 \<and> (case best of None \<Rightarrow> True | Some (s, e) \<Rightarrow> n > e - s) then Some (i, i + n) else best)
       [0..<length fs] None"

fun colon_join :: "string list \<Rightarrow> string" where
  "colon_join [] = []"
| "colon_join [x] = x"
| "colon_join (x # xs) = x @ '':'' @ colon_join xs"

definition ipv6_string :: "128 word \<Rightarrow> string" where
  "ipv6_string a = (let fs = word_fields a in
     case elision fs of
       None \<Rightarrow> colon_join (map hex_print fs)
     | Some (s, e) \<Rightarrow> colon_join (map hex_print (take s fs)) @ ''::'' @ colon_join (map hex_print (drop e fs)))"

definition addr_String :: "addr \<Rightarrow> string" where
  "addr_String ip = (case ip of
      NoAddr \<Rightarrow> ''invalid IP''
    | V4 a \<Rightarrow> ipv4_string a
    | V6 a z \<Rightarrow>
        (if drop_bit 32 a = 0xFFFF then ''::ffff:'' @ ipv4_string (ucast a) else ipv6_string a)
        @ (if z = [] then [] else CHR ''%'' # z))"

section \<open>The resolver\<close>

definition HeaderCloudflare :: string where "HeaderCloudflare = ''CF-Connecting-IP''"
definition HeaderRealIP :: string where "HeaderRealIP = ''X-Real-IP''"
definition HeaderForwardedFor :: string where "HeaderForwardedFor = ''X-Forwarded-For''"

text \<open>\<open>http.CanonicalHeaderKey\<close>: capitals after hyphens, unless a byte is no token character.\<close>

definition header_byte :: "char \<Rightarrow> bool" where
  "header_byte c \<longleftrightarrow> in_range 48 57 (byte c) \<or> in_range 65 90 (byte c) \<or> in_range 97 122 (byte c) \<or>
     c \<in> set [CHR ''!'', CHR ''#'', CHR ''$'', CHR ''%'', CHR ''&'', CHR 0x27, CHR ''*'', CHR ''+'', CHR ''-'',
       CHR ''.'', CHR ''^'', CHR ''_'', CHR ''`'', CHR ''|'', CHR ''~'']"

fun canonical_bytes :: "bool \<Rightarrow> string \<Rightarrow> string" where
  "canonical_bytes up [] = []"
| "canonical_bytes up (c # cs) =
     (if up \<and> in_range 97 122 (byte c) then char_of (byte c - 32)
      else if \<not> up \<and> in_range 65 90 (byte c) then char_of (byte c + 32) else c)
     # canonical_bytes (c = CHR ''-'') cs"

definition CanonicalHeaderKey :: "string \<Rightarrow> string" where
  "CanonicalHeaderKey s = (if list_all header_byte s then canonical_bytes True s else s)"

record realip_config =
  TrustedProxies :: "string list"
  ClientIPHeader :: string

record resolver =
  trusted :: "prefix list"
  ip_header :: string

definition cloudflareCIDRs :: "string list" where
  "cloudflareCIDRs =
     [''173.245.48.0/20'', ''103.21.244.0/22'', ''103.22.200.0/22'', ''103.31.4.0/22'', ''141.101.64.0/18'',
      ''108.162.192.0/18'', ''190.93.240.0/20'', ''188.114.96.0/20'', ''197.234.240.0/22'', ''198.41.128.0/17'',
      ''162.158.0.0/15'', ''104.16.0.0/13'', ''104.24.0.0/14'', ''172.64.0.0/13'', ''131.0.72.0/22'',
      ''2400:cb00::/32'', ''2606:4700::/32'', ''2803:f800::/32'', ''2405:b500::/32'', ''2405:8100::/32'',
      ''2a06:98c0::/29'', ''2c0f:f248::/32'']"

definition loopbackAndPrivate :: "string list" where
  "loopbackAndPrivate = [''127.0.0.0/8'', ''::1/128'', ''10.0.0.0/8'', ''172.16.0.0/12'', ''192.168.0.0/16'', ''fc00::/7'']"

fun parseCIDRs :: "string list \<Rightarrow> prefix list option" where
  "parseCIDRs [] = Some []"
| "parseCIDRs (c # cs) =
     (case ParsePrefix c of
        None \<Rightarrow> None
      | Some p \<Rightarrow> map_option ((#) p) (parseCIDRs cs))"

definition trusted_entry :: "ext \<Rightarrow> string \<Rightarrow> prefix list option" where
  "trusted_entry e raw =
     (let entry = TrimSpace raw; low = ToLower (unicode_lower e) entry in
      if entry = [] then Some []
      else if low = ''cloudflare'' then parseCIDRs cloudflareCIDRs
      else if low = ''private'' then parseCIDRs loopbackAndPrivate
      else if \<not> Contains entry ''/'' then
        map_option (\<lambda>ip. [\<lparr>px_addr = (case Unmap ip of V6 a z \<Rightarrow> V6 a [] | x \<Rightarrow> x), px_bits = BitLen (Unmap ip)\<rparr>]) (ParseAddr entry)
      else map_option (\<lambda>p. [Masked p]) (ParsePrefix entry))"

fun parseTrusted :: "ext \<Rightarrow> string list \<Rightarrow> prefix list option" where
  "parseTrusted e [] = Some []"
| "parseTrusted e (raw # rest) =
     (case trusted_entry e raw of
        None \<Rightarrow> None
      | Some ps \<Rightarrow> map_option ((@) ps) (parseTrusted e rest))"

definition New_resolver :: "ext \<Rightarrow> realip_config \<Rightarrow> resolver option" where
  "New_resolver e cfg =
     (case parseTrusted e (TrustedProxies cfg) of
        None \<Rightarrow> None
      | Some prefixes \<Rightarrow>
          let header = TrimSpace (ClientIPHeader cfg) in
          if header \<noteq> [] \<and> prefixes = [] then None
          else Some \<lparr>trusted = prefixes, ip_header = CanonicalHeaderKey header\<rparr>)"

definition isTrusted :: "resolver \<Rightarrow> addr \<Rightarrow> bool" where
  "isTrusted r ip = list_ex (\<lambda>p. prefix_Contains p ip) (trusted r)"

text \<open>\<open>net.SplitHostPort\<close>; \<open>None\<close> for every way it can fail.\<close>

definition split_last :: "char \<Rightarrow> string \<Rightarrow> (string \<times> string) option" where
  "split_last d s =
     (if d \<notin> set s then None
      else Some (rev (tl (dropWhile (\<lambda>c. c \<noteq> d) (rev s))), rev (takeWhile (\<lambda>c. c \<noteq> d) (rev s))))"

definition SplitHostPort :: "string \<Rightarrow> (string \<times> string) option" where
  "SplitHostPort s =
     (case split_last (CHR '':'') s of
        None \<Rightarrow> None
      | Some (front, port) \<Rightarrow>
          if CHR ''['' \<in> set port \<or> CHR '']'' \<in> set port then None
          else if HasPrefix front ''['' then
            (if last front = CHR '']'' \<and> CHR '']'' \<notin> set (butlast front) \<and> CHR ''['' \<notin> set (tl front)
             then Some (butlast (tl front), port) else None)
          else if CHR '':'' \<in> set front \<or> CHR ''['' \<in> set front \<or> CHR '']'' \<in> set front then None
          else Some (front, port))"

definition trim_brackets :: "string \<Rightarrow> string" where
  "trim_brackets s = (let f = dropWhile (\<lambda>c. c \<in> set ''[]'') in rev (f (rev (f s))))"

definition peerAddr :: "request \<Rightarrow> addr" where
  "peerAddr req =
     (let host = (case SplitHostPort (req_remote req) of Some (h, _) \<Rightarrow> h | None \<Rightarrow> req_remote req) in
      case ParseAddr (trim_brackets host) of None \<Rightarrow> NoAddr | Some ip \<Rightarrow> Unmap ip)"

text \<open>The hops of the chain from right to left.\<close>

fun walk_hops :: "resolver \<Rightarrow> string list \<Rightarrow> addr option" where
  "walk_hops r [] = None"
| "walk_hops r (h # hs) =
     (case ParseAddr (TrimSpace h) of
        None \<Rightarrow> None
      | Some ip \<Rightarrow> if \<not> isTrusted r (Unmap ip) then Some (Unmap ip) else walk_hops r hs)"

definition fromForwardedFor :: "resolver \<Rightarrow> string \<Rightarrow> addr option" where
  "fromForwardedFor r v = (if v = [] then None else walk_hops r (rev (Split (CHR '','') v)))"

definition ClientIP :: "resolver \<Rightarrow> request \<Rightarrow> addr" where
  "ClientIP r req =
     (let peer = peerAddr req in
      if ip_header r = [] \<or> \<not> IsValid peer \<or> \<not> isTrusted r peer then peer
      else if ip_header r = CanonicalHeaderKey HeaderForwardedFor then
        (case fromForwardedFor r (Header_Get req (CanonicalHeaderKey HeaderForwardedFor)) of Some ip \<Rightarrow> ip | None \<Rightarrow> peer)
      else (case ParseAddr (TrimSpace (Header_Get req (ip_header r))) of Some ip \<Rightarrow> Unmap ip | None \<Rightarrow> peer))"

definition Bucket :: "addr \<Rightarrow> string" where
  "Bucket ip = (case ip of
      NoAddr \<Rightarrow> ''unknown''
    | V4 a \<Rightarrow> addr_String ip
    | V6 a z \<Rightarrow>
        if drop_bit 32 a \<noteq> 0xFFFF
        then addr_String (px_addr (Masked \<lparr>px_addr = ip, px_bits = 64\<rparr>)) @ ''/64''
        else addr_String ip)"

end
