(* ===== verification/RealIPLaws.thy ===== *)
theory RealIPLaws
  imports RealIP "HOL-Library.Code_Target_Numeral"
begin

text \<open>
  What the resolved client address is worth: which headers can influence it, and how addresses are
  counted.
\<close>

section \<open>Who can be believed\<close>

lemma Split_append_sep: "Split d (s @ d # t) = Split d s @ Split d t"
proof (induction s)
  case (Cons c s)
  then show ?case
    using Split_nonempty [of d s] by (cases "Split d s") auto
qed simp

lemma walk_hops_append: "walk_hops r hs = Some ip \<Longrightarrow> walk_hops r (hs @ rest) = Some ip"
  by (induction hs) (auto split: option.splits if_splits)

lemma walk_hops_untrusted: "walk_hops r hs = Some ip \<Longrightarrow> \<not> isTrusted r ip"
  by (induction hs) (auto split: option.splits if_splits)

lemma fromForwardedFor_append:
  assumes "fromForwardedFor r v = Some ip"
  shows "fromForwardedFor r (forged @ CHR '','' # v) = Some ip"
  using assms walk_hops_append
  by (auto simp: fromForwardedFor_def Split_append_sep split: if_splits)

lemma Header_Get_Cons: "Header_Get (req\<lparr>req_headers := (k, v) # hs\<rparr>) k = v"
  by (simp add: Header_Get_def)

text \<open>
  C17. Which part of a forwarding header a client controls. From a peer that is no trusted proxy, no
  header changes the resolved address, which is the peer's. From a trusted proxy that appends to the
  first X-Forwarded-For line, the text in front changes nothing once the part the proxies wrote
  behind it names an untrusted hop, and that hop is what is resolved. Where they name trusted hops
  only, or append a line of their own, the text of the client does count.
\<close>

theorem client_address_not_forgeable:
  "(\<not> isTrusted r (peerAddr req) \<longrightarrow> (\<forall>hs. ClientIP r (req\<lparr>req_headers := hs\<rparr>) = peerAddr req)) \<and>
   (isTrusted r (peerAddr req) \<and> IsValid (peerAddr req) \<and> ip_header r = CanonicalHeaderKey HeaderForwardedFor \<and>
      fromForwardedFor r v = Some ip \<longrightarrow>
      ClientIP r (req\<lparr>req_headers := (CanonicalHeaderKey HeaderForwardedFor, forged @ CHR '','' # v) # hs\<rparr>) = ip \<and>
      \<not> isTrusted r ip)"
proof (intro conjI impI allI)
  fix hs
  assume "\<not> isTrusted r (peerAddr req)"
  moreover have "peerAddr (req\<lparr>req_headers := hs\<rparr>) = peerAddr req" by (simp add: peerAddr_def cong: option.case_cong)
  ultimately show "ClientIP r (req\<lparr>req_headers := hs\<rparr>) = peerAddr req"
    by (simp add: ClientIP_def)
next
  assume a: "isTrusted r (peerAddr req) \<and> IsValid (peerAddr req) \<and> ip_header r = CanonicalHeaderKey HeaderForwardedFor \<and>
      fromForwardedFor r v = Some ip"
  let ?k = "CanonicalHeaderKey HeaderForwardedFor"
  let ?req = "req\<lparr>req_headers := (?k, forged @ CHR '','' # v) # hs\<rparr>"
  have p: "peerAddr ?req = peerAddr req" by (simp add: peerAddr_def cong: option.case_cong)
  have "?k \<noteq> []" by code_simp
  with a p show "ClientIP r ?req = ip"
    by (simp add: ClientIP_def Header_Get_Cons fromForwardedFor_append)
  from a show "\<not> isTrusted r ip"
    by (auto simp: fromForwardedFor_def split: if_splits dest: walk_hops_untrusted)
qed

definition sample_resolver :: resolver where
  "sample_resolver = \<lparr>trusted = [\<lparr>px_addr = V4 0x0A000000, px_bits = 8\<rparr>], ip_header = CanonicalHeaderKey HeaderForwardedFor\<rparr>"

definition sample_request :: "string \<Rightarrow> (string \<times> string) list \<Rightarrow> request" where
  "sample_request remote hs = \<lparr>req_headers = hs, req_cookies = [], req_remote = remote, req_agent = []\<rparr>"

lemma sample_forwarded:
  "isTrusted sample_resolver (peerAddr (sample_request ''10.0.0.1:99'' []))" "IsValid (peerAddr (sample_request ''10.0.0.1:99'' []))"
  "fromForwardedFor sample_resolver ''198.51.100.7, 10.0.0.5'' = Some (V4 0xC6336407)"
  by code_simp+

theorem client_address_not_forgeable_witness:
  "ClientIP sample_resolver (sample_request ''10.0.0.1:99''
     [(CanonicalHeaderKey HeaderForwardedFor, ''1.1.1.1,198.51.100.7, 10.0.0.5'')]) = V4 0xC6336407"
  using client_address_not_forgeable [THEN conjunct2, of sample_resolver "sample_request ''10.0.0.1:99'' []"
      "''198.51.100.7, 10.0.0.5''" "V4 0xC6336407" "''1.1.1.1''" "[]"] sample_forwarded
  by (simp add: sample_resolver_def sample_request_def)

text \<open>
  Only the first line of a repeated header is read. When a proxy adds its X-Forwarded-For as a
  second header line, as several do, the client's own line comes first and names the address that
  is resolved.
\<close>

theorem repeated_header_line_is_forgeable:
  "ClientIP sample_resolver (sample_request ''10.0.0.1:99''
     [(CanonicalHeaderKey HeaderForwardedFor, ''1.1.1.1''), (CanonicalHeaderKey HeaderForwardedFor, ''198.51.100.7'')])
   = V4 0x01010101"
  by code_simp

text \<open>
  One IPv6 client has one bucket. Two IPv6 addresses with the same upper 64 bits, neither an IPv4
  address in disguise, are counted under the same key, whatever their lower bits and zones.
\<close>

theorem same_64_same_bucket:
  assumes "drop_bit 64 a = drop_bit 64 b" "drop_bit 32 a \<noteq> 0xFFFF" "drop_bit 32 b \<noteq> 0xFFFF"
  shows "Bucket (V6 a y) = Bucket (V6 b z)"
  using assms by (simp add: Bucket_def Masked_def)

theorem same_64_same_bucket_witness:
  "Bucket (V6 0x20010db8000100020000000000000001 []) = Bucket (V6 0x20010db800010002FFFFFFFFFFFFFFFF [])"
proof (rule same_64_same_bucket)
  show "drop_bit 64 (0x20010db8000100020000000000000001 :: 128 word) = drop_bit 64 0x20010db800010002FFFFFFFFFFFFFFFF"
    by code_simp
  show "drop_bit 32 (0x20010db8000100020000000000000001 :: 128 word) \<noteq> 0xFFFF" by code_simp
  show "drop_bit 32 (0x20010db800010002FFFFFFFFFFFFFFFF :: 128 word) \<noteq> 0xFFFF" by code_simp
qed

end
