(* ===== verification/Middleware.thy ===== *)
theory Middleware
  imports AdminRoles RealIP
begin

text \<open>
  The guards of \<open>internal/middleware\<close>. A guard is an action whose error is the answer that ends the
  request and whose value is the request context the next handler sees; a chain of guards is their
  sequence, as \<open>c.Next()\<close> and \<open>c.Abort()\<close> make it.
\<close>

type_synonym ('r, 'b) guard = "request \<Rightarrow> ctx \<Rightarrow> ('r world, 'b response, ctx) act"

section \<open>The address of the client and rate limits\<close>

text \<open>\<open>RealIP\<close>: resolved once; an address that cannot be resolved leaves the field unset.\<close>

definition RealIP_guard :: "resolver \<Rightarrow> request \<Rightarrow> ctx \<Rightarrow> ctx" where
  "RealIP_guard res req c =
     (let ip = ClientIP res req;
          c = (if IsValid ip then c\<lparr>cx_client_ip := addr_String ip\<rparr> else c)
      in c\<lparr>cx_bucket := Bucket ip\<rparr>)"

definition toString :: "string \<Rightarrow> string" where
  "toString s = (if s = [] then ''unknown'' else s)"

definition RateLimit :: "'r app \<Rightarrow> rule \<Rightarrow> string \<Rightarrow> ('r, 'b) guard" where
  "RateLimit a rule name req c =
     (let key = name @ '':ip:'' @ toString (cx_bucket c) in
      attempt (Allow (limiting a) key rule) (\<lambda>r. case r of
          Inl _ \<Rightarrow>
            if rl_FailClosed (rl_cfg (limiting a)) then raise (ServiceUnavailable ''service temporarily unavailable'')
            else ret c
        | Inr res \<Rightarrow> if \<not> Allowed res then raise (TooManyRequests ''too many requests'') else ret c))"

section \<open>Credentials\<close>

text \<open>A bearer token: what follows the scheme, without the spaces around it.\<close>

definition bearer :: "request \<Rightarrow> string option" where
  "bearer req =
     (let header = Header_Get req ''Authorization''; prefix = ''Bearer '' in
      if length header \<le> length prefix \<or> \<not> EqualFold_ascii (take (length prefix) header) prefix then None
      else let v = TrimSpace (drop (length prefix) header) in if v = [] then None else Some v)"

definition credential :: "cookie_config \<Rightarrow> request \<Rightarrow> string option" where
  "credential cfg req =
     (case bearer req of
        Some raw \<Rightarrow> Some raw
      | None \<Rightarrow> if \<not> cookies_enabled cfg then None else AccessFromRequest cfg req)"

definition identify :: "claims \<Rightarrow> ctx \<Rightarrow> ctx" where
  "identify cl c =
     SetActor (SetIdentity c (cl_subject cl) (cl_session cl) (cl_role cl) (from_unix (cl_auth_time cl)))
       (ActorUser (cl_subject cl))"

definition Auth :: "'r app \<Rightarrow> ('r, 'b) guard" where
  "Auth a req c =
     (case credential (cookies a) req of
        None \<Rightarrow> raise (Unauthorized ''missing bearer token'')
      | Some raw \<Rightarrow>
          attempt (Verify_token (sys a) (signing a) raw) (\<lambda>r. case r of
              Inl err \<Rightarrow>
                if errors_is err ErrTokenExpired then raise (Unauthorized ''token expired'')
                else raise (Unauthorized ''invalid token'')
            | Inr cl \<Rightarrow> ret (identify cl c)))"

definition AuthSilent :: "'r app \<Rightarrow> ('r, 'b) guard" where
  "AuthSilent a req c =
     (case credential (cookies a) req of
        None \<Rightarrow> raise silent_404
      | Some raw \<Rightarrow>
          attempt (Verify_token (sys a) (signing a) raw) (\<lambda>r. case r of
              Inl err \<Rightarrow>
                if errors_is err ErrTokenExpired then raise (Unauthorized ''token expired'')
                else raise silent_404
            | Inr cl \<Rightarrow> ret (identify cl c)))"

section \<open>Authorisation\<close>

text \<open>The role is read from the database; the one the token claims is not consulted.\<close>

definition RequirePermission :: "'r app \<Rightarrow> permission \<Rightarrow> ('r, 'b) guard" where
  "RequirePermission a p req c =
     (if cx_user c = [] then raise silent_404
      else attempt (ActorRole (pg a) (cx_user c)) (\<lambda>r. case r of
          Inl _ \<Rightarrow> raise silent_404
        | Inr role \<Rightarrow> if \<not> Has role p then raise silent_404 else ret c))"

definition AdminToken :: "'r app \<Rightarrow> ('r, 'b) guard" where
  "AdminToken a req c =
     (case bearer req of
        None \<Rightarrow> raise silent_404
      | Some raw \<Rightarrow> if raw \<noteq> admin_token a then raise silent_404 else ret (SetActor c ActorAdminToken))"

text \<open>\<open>time.Since\<close> saturates at the ends of \<open>time.Duration\<close>.\<close>

definition Since :: "instant \<Rightarrow> instant \<Rightarrow> duration" where
  "Since now t = max (- (2 ^ 63)) (min (2 ^ 63 - 1) (now - t))"

definition RequireRecentAuth :: "'r app \<Rightarrow> ('r, 'b) guard" where
  "RequireRecentAuth a req c =
     (if cx_user c = [] then ret c
      else if cx_auth_time c = zero_time then raise (Forbidden ''reauthentication required'')
      else andthen Now (\<lambda>now.
        if Since now (cx_auth_time c) > reauth_window a then raise (Forbidden ''reauthentication required'')
        else ret c))"

section \<open>A chain of guards\<close>

fun chain :: "('r, 'b) guard list \<Rightarrow> ('r, 'b) guard" where
  "chain [] req c = ret c"
| "chain (g # gs) req c = andthen (g req c) (chain gs req)"

text \<open>Guards read the database, they do not write it.\<close>

lemma frame_guard [frame_rules]:
  "frame db (RateLimit a rule name req c)" "frame db (Auth a req c)" "frame db (AuthSilent a req c)"
  "frame db (RequirePermission a p req c)" "frame db (AdminToken a req c)" "frame db (RequireRecentAuth a req c)"
  unfolding RateLimit_def Auth_def AuthSilent_def RequirePermission_def AdminToken_def RequireRecentAuth_def Let_def
  by (intro frame_rules)+

lemma frame_chain: "(\<And>g c. g \<in> set gs \<Longrightarrow> frame db (g req c)) \<Longrightarrow> frame db (chain gs req c)"
  by (induction gs arbitrary: c) (auto intro!: frame_rules)

text \<open>What a request that passes a guard shows, and what it is answered otherwise.\<close>

definition verified :: "'r app \<Rightarrow> request \<Rightarrow> claims \<Rightarrow> bool" where
  "verified a req cl \<longleftrightarrow> (\<exists>raw now. credential (cookies a) req = Some raw \<and>
     jwt_parse (sys a) (parse_opts (signing a)) (keyFunc (signing a)) now raw = Inr cl)"

lemma Verify_token_Inr:
  "Verify_token e s raw w = (Inr cl, w') \<Longrightarrow>
     (\<exists>now. jwt_parse e (parse_opts s) (keyFunc s) now raw = Inr cl) \<and> db w' = db w"
  by (auto simp: Verify_token_def act_inv dest!: frameD [OF frame_Now [of db, simplified]])

lemma AuthSilent_Inr:
  assumes "AuthSilent a req c w = (Inr c', w')"
  shows "\<exists>cl. verified a req cl \<and> c' = identify cl c \<and> db w' = db w"
  using assms
  by (auto simp: AuthSilent_def attempt_case verified_def split: option.splits if_splits dest!: Verify_token_Inr)

lemma AuthSilent_Inl:
  "AuthSilent a req c w = (Inl resp, w') \<Longrightarrow> resp = silent_404 \<or> resp = Unauthorized ''token expired''"
  by (auto simp: AuthSilent_def attempt_case split: option.splits if_splits)

lemma Auth_Inr:
  assumes "Auth a req c w = (Inr c', w')"
  shows "\<exists>cl. verified a req cl \<and> c' = identify cl c \<and> db w' = db w"
  using assms
  by (auto simp: Auth_def attempt_case verified_def split: option.splits if_splits dest!: Verify_token_Inr)

lemma RequirePermission_Inr:
  assumes "RequirePermission a p req c w = (Inr c', w')"
  shows "c' = c \<and> db w' = db w \<and> cx_user c \<noteq> [] \<and> (\<exists>r. acting_role a (db w) (cx_user c) r \<and> p \<in> set (role_perms r))"
proof -
  have u: "cx_user c \<noteq> []" using assms by (auto simp: RequirePermission_def)
  obtain q v where q: "ActorRole (pg a) (cx_user c) w = (q, v)" by fastforce
  show ?thesis
  proof (cases q)
    case (Inl err)
    with assms u q show ?thesis by (simp add: RequirePermission_def attempt_simp)
  next
    case (Inr r)
    with assms u q have p: "p \<in> set (role_perms r)" and c: "c' = c" "v = w'"
      by (simp_all add: RequirePermission_def attempt_simp Has_def split: if_splits)
    from q Inr u have "Actor a (cx_user c) w = (Inr r, v)" by (simp add: Actor_def)
    from Actor_Inr [OF this] p c u show ?thesis by blast
  qed
qed

lemma RequirePermission_Inl:
  "RequirePermission a p req c w = (Inl resp, w') \<Longrightarrow> resp = silent_404"
  by (auto simp: RequirePermission_def attempt_case split: if_splits)

lemma RequireRecentAuth_Inr:
  assumes "RequireRecentAuth a req c w = (Inr c', w')"
  shows "c' = c \<and> db w' = db w"
  using assms frameD [OF frame_guard(6) assms] by (auto simp: RequireRecentAuth_def act_inv split: if_splits)

lemma RequireRecentAuth_Inl:
  "RequireRecentAuth a req c w = (Inl resp, w') \<Longrightarrow> resp = Forbidden ''reauthentication required''"
  by (auto simp: RequireRecentAuth_def andthen_Inl Now_def split: if_splits list.splits)

lemma AdminToken_Inr:
  "AdminToken a req c w = (Inr c', w') \<Longrightarrow>
     bearer req = Some (admin_token a) \<and> c' = SetActor c ActorAdminToken \<and> w' = w"
  by (auto simp: AdminToken_def split: option.splits if_splits)

lemma bearer_nonempty: "bearer req = Some raw \<Longrightarrow> raw \<noteq> []"
  by (auto simp: bearer_def Let_def split: if_splits)

end
