(* ===== verification/Cors.thy ===== *)
theory Cors
  imports Sample
begin

text \<open>
  Package \<open>pkg/cors\<close>: the configured origins, their parser, and the middleware that answers
  cross-origin requests. \<open>url.Parse\<close> is a parameter, \<open>url_parse\<close>.
\<close>

section \<open>Configuration\<close>

record url_parts =
  url_host :: string
  url_path :: string
  url_query :: string
  url_fragment :: string

record cors_config =
  AllowDomains :: "string list"
  cors_max_age :: duration
  AllowCredentials :: bool

text \<open>One exact origin, or a scheme with a host suffix that starts with a dot.\<close>

record cors_rule =
  exact :: string
  scheme :: string
  suffix :: string

definition canonical_entry :: "ext \<Rightarrow> string \<Rightarrow> string" where
  "canonical_entry e raw = ToLower (unicode_lower e) (TrimSpace (TrimSuffix (TrimSpace raw) ''/''))"

definition bad_entry :: "string \<Rightarrow> error" where
  "bad_entry why = Opaque (''cors: '' @ why)"

text \<open>An entry other than the empty one and \<open>*\<close>.\<close>

definition origin_rule :: "(string \<Rightarrow> url_parts option) \<Rightarrow> string \<Rightarrow> error + cors_rule" where
  "origin_rule url_parse entry =
     (case Cut entry ''://'' of
        None \<Rightarrow> Inl (bad_entry ''full origin'')
      | Some (sch, rest) \<Rightarrow>
          if sch \<noteq> ''http'' \<and> sch \<noteq> ''https'' then Inl (bad_entry ''full origin'')
          else (case CutPrefix rest ''*.'' of
              Some host \<Rightarrow>
                if host = [] then Inl (bad_entry ''no domain'')
                else Inr \<lparr>exact = [], scheme = sch, suffix = ''.'' @ host\<rparr>
            | None \<Rightarrow>
                if Contains rest ''*'' then Inl (bad_entry ''leading wildcard'')
                else (case url_parse entry of
                    None \<Rightarrow> Inl (bad_entry ''no path'')
                  | Some u \<Rightarrow>
                      if url_path u \<noteq> [] \<or> url_query u \<noteq> [] \<or> url_fragment u \<noteq> [] \<or> url_host u = []
                      then Inl (bad_entry ''no path'')
                      else Inr \<lparr>exact = entry, scheme = [], suffix = []\<rparr>)))"

fun parse_origins ::
  "ext \<Rightarrow> (string \<Rightarrow> url_parts option) \<Rightarrow> cors_rule list \<Rightarrow> bool \<Rightarrow> string list \<Rightarrow> error + (cors_rule list \<times> bool)" where
  "parse_origins e up rules allowAny [] = Inr (rules, allowAny)"
| "parse_origins e up rules allowAny (raw # others) =
     (let entry = canonical_entry e raw in
      if entry = [] then parse_origins e up rules allowAny others
      else if entry = ''*'' then parse_origins e up rules True others
      else (case origin_rule up entry of
              Inl err \<Rightarrow> Inl err
            | Inr r \<Rightarrow> parse_origins e up (rules @ [r]) allowAny others))"

section \<open>The middleware\<close>

record cors_middleware =
  cors_rules :: "cors_rule list"
  cors_age :: string
  cors_any :: bool
  credentials :: bool

definition New_cors :: "ext \<Rightarrow> (string \<Rightarrow> url_parts option) \<Rightarrow> cors_config \<Rightarrow> error + cors_middleware" where
  "New_cors e up cfg =
     (case parse_origins e up [] False (AllowDomains cfg) of
        Inl err \<Rightarrow> Inl err
      | Inr (rules, allowAny) \<Rightarrow>
          if AllowCredentials cfg \<and> allowAny then Inl (bad_entry ''wildcard with cookies'')
          else Inr \<lparr>cors_rules = rules, cors_age = print_int (whole_seconds (cors_max_age cfg)),
                    cors_any = allowAny, credentials = AllowCredentials cfg\<rparr>)"

definition Enabled_cors :: "cors_middleware \<Rightarrow> bool" where
  "Enabled_cors m \<longleftrightarrow> cors_any m \<or> cors_rules m \<noteq> []"

definition rule_matches :: "cors_rule \<Rightarrow> string \<Rightarrow> bool" where
  "rule_matches r origin =
     (if exact r \<noteq> [] then origin = exact r
      else (case CutPrefix origin (scheme r @ ''://'') of
              None \<Rightarrow> False
            | Some host \<Rightarrow> HasSuffix host (suffix r) \<and> length host > length (suffix r)))"

definition allow_origin :: "ext \<Rightarrow> cors_middleware \<Rightarrow> string \<Rightarrow> string option" where
  "allow_origin e m origin =
     (if cors_any m then Some ''*''
      else
        let normalized = ToLower (unicode_lower e) (TrimSuffix origin ''/'') in
        if list_ex (\<lambda>r. rule_matches r normalized) (cors_rules m) then Some origin else None)"

definition allowMethods :: string where "allowMethods = ''GET, POST, PATCH, DELETE, OPTIONS''"
definition allowHeaders :: string where "allowHeaders = ''Authorization, Content-Type''"

text \<open>
  The handler: the headers it sets, and whether it ends the request with an empty answer of status
  204 (\<open>True\<close>) or lets the chain go on.
\<close>

definition Handler_cors :: "ext \<Rightarrow> cors_middleware \<Rightarrow> bool \<Rightarrow> request \<Rightarrow> (string \<times> string) list \<times> bool" where
  "Handler_cors e m preflight req =
     (let origin = Header_Get req ''Origin'' in
      if \<not> Enabled_cors m \<or> origin = [] then ([], False)
      else (case allow_origin e m origin of
          None \<Rightarrow> ([], preflight)
        | Some allowed \<Rightarrow>
            ([(''Access-Control-Allow-Origin'', allowed)]
             @ (if allowed \<noteq> ''*'' then [(''Vary'', ''Origin'')] else [])
             @ (if credentials m then [(''Access-Control-Allow-Credentials'', ''true'')] else [])
             @ (if preflight then [(''Access-Control-Allow-Methods'', allowMethods),
                  (''Access-Control-Allow-Headers'', allowHeaders), (''Access-Control-Max-Age'', cors_age m)] else []),
             preflight)))"

section \<open>What the rules admit\<close>

text \<open>
  The origins an entry names, as the documentation of the setting states them: a full origin names
  itself, a wildcard the proper subdomains, an empty entry nothing.
\<close>

definition names_origin :: "string \<Rightarrow> string \<Rightarrow> bool" where
  "names_origin entry origin \<longleftrightarrow>
     entry \<noteq> [] \<and> (entry = ''*'' \<or> entry = origin
     \<or> (\<exists>sch dom sub. sch \<in> {''http'', ''https''} \<and> dom \<noteq> [] \<and> sub \<noteq> [] \<and>
          entry = sch @ ''://*.'' @ dom \<and> origin = sch @ ''://'' @ sub @ ''.'' @ dom))"

lemma origin_rule_names:
  assumes "origin_rule up entry = Inr r" "rule_matches r origin"
  shows "names_origin entry origin"
proof -
  obtain sch rest where cut: "Cut entry ''://'' = Some (sch, rest)" and sch: "sch \<in> {''http'', ''https''}"
    using assms(1) by (auto simp: origin_rule_def split: option.splits if_splits)
  show ?thesis
  proof (cases "CutPrefix rest ''*.''")
    case None
    with assms cut sch have "origin = entry"
      using Cut_sound [OF cut]
      by (auto simp: origin_rule_def rule_matches_def split: option.splits if_splits)
    with Cut_sound [OF cut] show ?thesis by (simp add: names_origin_def)
  next
    case (Some dom)
    with assms(1) cut sch have r: "r = \<lparr>exact = [], scheme = sch, suffix = ''.'' @ dom\<rparr>" and dom: "dom \<noteq> []"
      by (auto simp: origin_rule_def split: if_splits)
    from assms(2) r obtain host where "CutPrefix origin (sch @ ''://'') = Some host"
      and o2: "HasSuffix host (''.'' @ dom)" "length host > length (''.'' @ dom)"
      by (cases "CutPrefix origin (sch @ ''://'')") (simp_all add: rule_matches_def)
    then have o1: "origin = sch @ ''://'' @ host" by (simp add: CutPrefix_Some)
    from o2(1) obtain sub where host: "host = sub @ ''.'' @ dom" unfolding HasSuffix_iff by blast
    with o2(2) have sub: "sub \<noteq> []" by auto
    have entry: "entry = sch @ ''://*.'' @ dom"
      using Cut_sound [OF cut] Some by (simp add: CutPrefix_Some)
    have "origin = sch @ ''://'' @ sub @ ''.'' @ dom" using o1 host by simp
    with entry dom sub sch show ?thesis unfolding names_origin_def by blast
  qed
qed

definition covered :: "ext \<Rightarrow> string list \<Rightarrow> string \<Rightarrow> bool" where
  "covered e entries origin \<longleftrightarrow> (\<exists>raw\<in>set entries. names_origin (canonical_entry e raw) origin)"

lemma parse_origins_sound:
  assumes "parse_origins e up rules any0 entries = Inr (rules', any')"
  shows "(any' \<longrightarrow> any0 \<or> (\<exists>raw\<in>set entries. canonical_entry e raw = ''*'')) \<and>
    (\<forall>r\<in>set rules'. r \<in> set rules \<or> (\<forall>origin. rule_matches r origin \<longrightarrow> covered e entries origin))"
  using assms
proof (induction e up rules any0 entries rule: parse_origins.induct)
  case (2 e up rules any0 raw others)
  show ?case
  proof (cases "canonical_entry e raw \<in> {[], ''*''}")
    case True
    with 2 show ?thesis by (fastforce simp: covered_def Let_def split: if_splits)
  next
    case False
    with "2.prems" obtain r where r: "origin_rule up (canonical_entry e raw) = Inr r"
      and rec: "parse_origins e up (rules @ [r]) any0 others = Inr (rules', any')"
      by (auto simp: Let_def split: sum.splits)
    from False r rec have IH: "(any' \<longrightarrow> any0 \<or> (\<exists>raw\<in>set others. canonical_entry e raw = ''*'')) \<and>
        (\<forall>q\<in>set rules'. q \<in> set (rules @ [r]) \<or> (\<forall>origin. rule_matches q origin \<longrightarrow> covered e others origin))"
      using "2.IH"(3) by simp
    have "rule_matches r origin \<longrightarrow> covered e (raw # others) origin" for origin
      using origin_rule_names [OF r] by (simp add: covered_def)
    moreover have "covered e others origin \<longrightarrow> covered e (raw # others) origin" for origin
      by (simp add: covered_def)
    ultimately have "\<forall>q\<in>set rules'. q \<in> set rules \<or> (\<forall>origin. rule_matches q origin \<longrightarrow> covered e (raw # others) origin)"
      using IH by fastforce
    with IH show ?thesis by auto
  qed
qed simp

lemma origin_rule_matches:
  assumes "origin_rule up entry = Inr r" "names_origin entry origin" "entry \<noteq> ''*''"
  shows "rule_matches r origin"
proof -
  obtain sch rest where cut: "Cut entry ''://'' = Some (sch, rest)" and sch: "sch \<in> {''http'', ''https''}"
    using assms(1) by (auto simp: origin_rule_def split: option.splits if_splits)
  have entry: "entry = sch @ ''://'' @ rest" using Cut_sound [OF cut] .
  have same: "sch' = sch \<and> x = rest" if "sch' \<in> {''http'', ''https''}" "entry = sch' @ ''://'' @ x" for sch' x
    using that entry sch by auto
  show ?thesis
  proof (cases "CutPrefix rest ''*.''")
    case None
    then have "entry \<noteq> sch' @ ''://*.'' @ dom" if "sch' \<in> {''http'', ''https''}" for sch' dom
      using same [OF that, of "''*.'' @ dom"] CutPrefix_Some [of rest "''*.''"] by auto
    with assms(2,3) have "origin = entry" by (auto simp: names_origin_def)
    with None assms(1) cut sch entry show ?thesis
      by (auto simp: origin_rule_def rule_matches_def split: option.splits if_splits)
  next
    case (Some dom)
    then have rest: "rest = ''*.'' @ dom" by (simp add: CutPrefix_Some)
    have r: "r = \<lparr>exact = [], scheme = sch, suffix = ''.'' @ dom\<rparr>"
      using assms(1) cut sch Some by (auto simp: origin_rule_def split: if_splits)
    have "\<exists>sub. sub \<noteq> [] \<and> origin = sch @ ''://'' @ sub @ ''.'' @ dom"
      using assms(2,3) unfolding names_origin_def
    proof (elim conjE disjE exE)
      assume "entry = origin"
      then show ?thesis using entry rest by (intro exI [of _ "''*''"]) simp
    next
      fix sch' dom' sub
      assume "sch' \<in> {''http'', ''https''}" "sub \<noteq> []" "entry = sch' @ ''://*.'' @ dom'" "origin = sch' @ ''://'' @ sub @ ''.'' @ dom'"
      then show ?thesis using same [of sch' "''*.'' @ dom'"] rest by auto
    qed simp
    then obtain sub where o: "sub \<noteq> []" "origin = (sch @ ''://'') @ sub @ ''.'' @ dom" by auto
    then have "CutPrefix origin (sch @ ''://'') = Some (sub @ ''.'' @ dom)" by (simp only: CutPrefix_Some)
    with o(1) show ?thesis by (auto simp: rule_matches_def r HasSuffix_iff)
  qed
qed

lemma parse_origins_complete:
  assumes "parse_origins e up rules any0 entries = Inr (rules', any')"
  shows "set rules \<subseteq> set rules' \<and> (any0 \<longrightarrow> any') \<and> ((\<exists>raw\<in>set entries. canonical_entry e raw = ''*'') \<longrightarrow> any') \<and>
    (\<forall>raw\<in>set entries. canonical_entry e raw \<notin> {[], ''*''} \<longrightarrow> (\<exists>r\<in>set rules'. origin_rule up (canonical_entry e raw) = Inr r))"
  using assms
proof (induction e up rules any0 entries rule: parse_origins.induct)
  case (2 e up rules any0 raw others)
  show ?case
  proof (cases "canonical_entry e raw \<in> {[], ''*''}")
    case True
    with 2 show ?thesis by (fastforce simp: Let_def split: if_splits)
  next
    case False
    with "2.prems" obtain r where r: "origin_rule up (canonical_entry e raw) = Inr r"
      and rec: "parse_origins e up (rules @ [r]) any0 others = Inr (rules', any')"
      by (auto simp: Let_def split: sum.splits)
    from False r rec have "set (rules @ [r]) \<subseteq> set rules' \<and> (any0 \<longrightarrow> any') \<and>
        ((\<exists>raw\<in>set others. canonical_entry e raw = ''*'') \<longrightarrow> any') \<and>
        (\<forall>raw\<in>set others. canonical_entry e raw \<notin> {[], ''*''} \<longrightarrow> (\<exists>r\<in>set rules'. origin_rule up (canonical_entry e raw) = Inr r))"
      using "2.IH"(3) [OF refl _ _ r rec] by simp
    with False r show ?thesis by auto
  qed
qed simp

text \<open>What a successful \<open>New\<close> answers, in terms of the configured entries.\<close>

lemma New_cors_rules:
  assumes "New_cors e up cfg = Inr m"
  shows "cors_any m \<longleftrightarrow> (\<exists>raw\<in>set (AllowDomains cfg). canonical_entry e raw = ''*'')"
    and "\<not> cors_any m \<Longrightarrow> (\<exists>r\<in>set (cors_rules m). rule_matches r origin) \<longleftrightarrow> covered e (AllowDomains cfg) origin"
    and "\<not> (cors_any m \<and> credentials m)"
proof -
  obtain rules anyone where p: "parse_origins e up [] False (AllowDomains cfg) = Inr (rules, anyone)"
    and m: "cors_rules m = rules" "cors_any m = anyone" "credentials m = AllowCredentials cfg" "\<not> (AllowCredentials cfg \<and> anyone)"
    using assms by (auto simp: New_cors_def split: sum.splits if_splits)
  note snd = parse_origins_sound [OF p] and cpl = parse_origins_complete [OF p]
  show anyone: "cors_any m \<longleftrightarrow> (\<exists>raw\<in>set (AllowDomains cfg). canonical_entry e raw = ''*'')"
    using snd cpl m(2) by auto
  show "\<not> (cors_any m \<and> credentials m)" using m by auto
  assume none: "\<not> cors_any m"
  have "\<exists>r\<in>set rules. rule_matches r origin" if c: "covered e (AllowDomains cfg) origin"
  proof -
    from c obtain raw where raw: "raw \<in> set (AllowDomains cfg)" "names_origin (canonical_entry e raw) origin"
      unfolding covered_def by blast
    moreover from raw none anyone have ne: "canonical_entry e raw \<notin> {[], ''*''}" by (auto simp: names_origin_def)
    ultimately obtain r where "r \<in> set rules" "origin_rule up (canonical_entry e raw) = Inr r" using cpl by blast
    with raw(2) ne origin_rule_matches show ?thesis by blast
  qed
  with snd m(1) show "(\<exists>r\<in>set (cors_rules m). rule_matches r origin) \<longleftrightarrow> covered e (AllowDomains cfg) origin" by auto
qed

text \<open>
  C25. Cross-origin answers follow the configuration. The handler of a middleware built from a
  configuration names an allowed origin for a request exactly in these cases: the request has an
  origin, and \<open>*\<close> is configured, and then it answers \<open>*\<close>; or \<open>*\<close> is not configured and some entry names the
  origin of the request - the entry itself, or a wildcard entry of the same scheme whose proper subdomain it is,
  never the bare domain nor a look-alike - and then it answers that origin. It never combines \<open>*\<close> with cookies.
\<close>

theorem cors_follows_configuration:
  assumes "New_cors e up cfg = Inr m"
  shows "((''Access-Control-Allow-Origin'', allowed) \<in> set (fst (Handler_cors e m preflight req)) \<longleftrightarrow>
      Header_Get req ''Origin'' \<noteq> [] \<and>
      (if \<exists>raw\<in>set (AllowDomains cfg). canonical_entry e raw = ''*'' then allowed = ''*''
       else allowed = Header_Get req ''Origin'' \<and>
         covered e (AllowDomains cfg) (ToLower (unicode_lower e) (TrimSuffix allowed ''/''))))
    \<and> ((\<exists>raw\<in>set (AllowDomains cfg). canonical_entry e raw = ''*'') \<longrightarrow>
      (\<forall>v. (''Access-Control-Allow-Credentials'', v) \<notin> set (fst (Handler_cors e m preflight req))))"
proof -
  let ?origin = "Header_Get req ''Origin''"
  note N = New_cors_rules [OF assms]
  have named: "((''Access-Control-Allow-Origin'', x) \<in> set (fst (Handler_cors e m preflight req))) \<longleftrightarrow>
      ?origin \<noteq> [] \<and> (if cors_any m then x = ''*'' else x = ?origin \<and>
        covered e (AllowDomains cfg) (ToLower (unicode_lower e) (TrimSuffix x ''/'')))" for x
  proof (cases "cors_any m")
    case True
    then show ?thesis by (auto simp: Handler_cors_def Let_def allow_origin_def Enabled_cors_def)
  next
    case False
    note match = N(2) [OF False, of "ToLower (unicode_lower e) (TrimSuffix ?origin ''/'')"]
    have "allow_origin e m ?origin = (if covered e (AllowDomains cfg) (ToLower (unicode_lower e) (TrimSuffix ?origin ''/''))
        then Some ?origin else None)"
      using False match by (simp add: allow_origin_def Let_def list_ex_iff)
    moreover have "Enabled_cors m" if "covered e (AllowDomains cfg) (ToLower (unicode_lower e) (TrimSuffix ?origin ''/''))"
      using match that by (auto simp: Enabled_cors_def)
    ultimately show ?thesis using False by (auto simp: Handler_cors_def Let_def)
  qed
  show ?thesis
  proof
    show "(''Access-Control-Allow-Origin'', allowed) \<in> set (fst (Handler_cors e m preflight req)) \<longleftrightarrow>
      ?origin \<noteq> [] \<and> (if \<exists>raw\<in>set (AllowDomains cfg). canonical_entry e raw = ''*'' then allowed = ''*''
       else allowed = ?origin \<and> covered e (AllowDomains cfg) (ToLower (unicode_lower e) (TrimSuffix allowed ''/'')))"
      unfolding named N(1) by (rule refl)
    show "(\<exists>raw\<in>set (AllowDomains cfg). canonical_entry e raw = ''*'') \<longrightarrow>
      (\<forall>v. (''Access-Control-Allow-Credentials'', v) \<notin> set (fst (Handler_cors e m preflight req)))"
      using N(1,3) by (auto simp: Handler_cors_def Let_def split: option.splits)
  qed
qed

definition sample_cors :: cors_config where
  "sample_cors = \<lparr>AllowDomains = ['' https://*.Example.com/''], cors_max_age = Hour, AllowCredentials = True\<rparr>"

definition sample_cross :: request where
  "sample_cross = \<lparr>req_headers = [(''Origin'', ''https://panel.example.com'')], req_cookies = [],
     req_remote = ''10.0.0.1:1'', req_agent = []\<rparr>"

lemma sample_cors_New:
  "New_cors sample_env (\<lambda>_. None) sample_cors =
     Inr \<lparr>cors_rules = [\<lparr>exact = [], scheme = ''https'', suffix = ''.example.com''\<rparr>], cors_age = ''3600'',
       cors_any = False, credentials = True\<rparr>"
  by code_simp

theorem cors_follows_configuration_witness:
  "(''Access-Control-Allow-Origin'', ''https://panel.example.com'') \<in> set (fst (Handler_cors sample_env
     \<lparr>cors_rules = [\<lparr>exact = [], scheme = ''https'', suffix = ''.example.com''\<rparr>], cors_age = ''3600'',
       cors_any = False, credentials = True\<rparr> False sample_cross))"
proof -
  have low: "ToLower (unicode_lower sample_env) (TrimSuffix ''https://panel.example.com'' ''/'') = ''https://panel.example.com''"
    by code_simp
  have hd: "Header_Get sample_cross ''Origin'' = ''https://panel.example.com''" by code_simp
  have entry: "canonical_entry sample_env '' https://*.Example.com/'' = ''https://*.example.com''" by code_simp
  have "names_origin ''https://*.example.com'' ''https://panel.example.com''"
    unfolding names_origin_def
    by (intro conjI disjI2 exI [of _ "''https''"] exI [of _ "''example.com''"] exI [of _ "''panel''"]) simp_all
  then have "covered sample_env (AllowDomains sample_cors) ''https://panel.example.com''"
    by (simp add: covered_def sample_cors_def entry)
  then show ?thesis
    using cors_follows_configuration [OF sample_cors_New, of "''https://panel.example.com''" False sample_cross]
    by (simp add: hd low sample_cors_def entry)
qed

end
