(* ===== verification/Routes.thy ===== *)
theory Routes
  imports Middleware Cors Service
begin

text \<open>
  The two HTTP surfaces: the public router of \<open>internal/controller/http_v1\<close> and the private,
  machine-facing one of \<open>internal/controller/admin_v1\<close>, which mount the same administration routes
  behind different guards. The router itself is gin's: a request is served by the route whose method
  and pattern match, and one that matches none is answered by the router (\<open>srv_no_route\<close>, a
  parameter). Decoding a JSON body is the library's too (\<open>srv_decode\<close>).
\<close>

section \<open>Requests, answers and the health check\<close>

record http_request =
  hr_method :: string
  hr_path :: string
  hr_query :: "(string \<times> string) list"
  hr_head :: request
  hr_body :: string

record decoders =
  decode_token :: "string \<Rightarrow> token_input option"
  decode_register :: "string \<Rightarrow> register_input option"
  decode_password :: "string \<Rightarrow> password_input option"
  decode_user_create :: "string \<Rightarrow> user_create_input option"
  decode_user_update :: "string \<Rightarrow> user_update_input option"
  decode_set_password :: "string \<Rightarrow> string option"
  decode_role_create :: "string \<Rightarrow> role_create_input option"
  decode_role_update :: "string \<Rightarrow> role_update_input option"

record health =
  h_status :: string
  h_postgres :: string
  h_redis :: string

text \<open>The pings are the drivers': whether each backend answers in this world.\<close>

definition Execute_health :: "('r world \<Rightarrow> bool) \<Rightarrow> ('r world \<Rightarrow> bool) \<Rightarrow> ('r, health) io" where
  "Execute_health ping_pg ping_redis w =
     (let out = \<lparr>h_status = ''ok'', h_postgres = ''ok'', h_redis = ''ok''\<rparr> in
      if \<not> ping_pg w then (Inl (Wrap ''sys_health: postgres'' (Opaque ''ping'')), w)
      else if \<not> ping_redis w then (Inr (out\<lparr>h_status := ''degraded'', h_redis := ''down''\<rparr>), w)
      else (Inr out, w))"

datatype payload =
    PHealth health
  | PJwks "jwk list"
  | PSettings settings_view
  | PToken token_output
  | PRegister register_output
  | PMe me_view
  | PSessions "session_view list"
  | PPassword password_output
  | PCount int
  | PUser user_summary
  | PUsers user_page
  | PUserFull user_full
  | PDeleted "string \<times> string"
  | PPasswordSet "string \<times> bool"
  | PUserSessions "admin_session_view list"
  | PAudit "audit_view list \<times> int \<times> int"
  | PRole role_view
  | PRoles "role_view list"
  | PRoleDeleted string

definition wrap :: "('b \<Rightarrow> payload) \<Rightarrow> 'b response \<times> 'r world \<Rightarrow> payload response \<times> 'r world" where
  "wrap f p = (\<lparr>rs_status = rs_status (fst p), rs_body = map_sum (\<lambda>x. x) f (rs_body (fst p)),
     rs_no_store = rs_no_store (fst p), rs_cookies = rs_cookies (fst p)\<rparr>, snd p)"

record 'r server =
  srv_app :: "'r app"
  srv_resolver :: resolver
  srv_cors :: cors_middleware
  srv_decode :: decoders
  srv_no_route :: "http_request \<Rightarrow> payload response"
  srv_ping_pg :: "'r world \<Rightarrow> bool"
  srv_ping_redis :: "'r world \<Rightarrow> bool"

definition Handle_health :: "'r server \<Rightarrow> 'r world \<Rightarrow> health response \<times> 'r world" where
  "Handle_health s w =
     (case Execute_health (srv_ping_pg s) (srv_ping_redis s) w of
        (Inl _, w') \<Rightarrow> (ServiceUnavailable ''unhealthy'', w')
      | (Inr out, w') \<Rightarrow> (OK out, w'))"

section \<open>Routes\<close>

datatype endpoint =
    Health | Jwks | Settings | Token | Register | Me | Sessions | Password | Revoke | LogoutAll
  | UserList | UserGet | SessionsList | AuditList | RoleList | UserCreate | SessionsRevoke
  | RoleCreate | RoleUpdate | RoleDelete | UserUpdate | UserDelete | UserSetPassword

text \<open>The handler of an endpoint; \<open>param\<close> is the value of the path parameter.\<close>

fun handle :: "'r server \<Rightarrow> endpoint \<Rightarrow> http_request \<Rightarrow> string \<Rightarrow> ctx \<Rightarrow> 'r world \<Rightarrow> payload response \<times> 'r world" where
  "handle s Health rq param c w = wrap PHealth (Handle_health s w)"
| "handle s Jwks rq param c w = wrap PJwks (Handle_jwks (srv_app s) w)"
| "handle s Settings rq param c w = wrap PSettings (Handle_settings (srv_app s) w)"
| "handle s Token rq param c w =
     wrap PToken (Handle_token (srv_app s) c (hr_head rq) (decode_token (srv_decode s) (hr_body rq)) w)"
| "handle s Register rq param c w =
     wrap PRegister (Handle_register (srv_app s) c (hr_head rq) (decode_register (srv_decode s) (hr_body rq)) w)"
| "handle s Me rq param c w = wrap PMe (Handle_me (srv_app s) c w)"
| "handle s Sessions rq param c w = wrap PSessions (Handle_session_list (srv_app s) c w)"
| "handle s Password rq param c w =
     wrap PPassword (Handle_password_change (srv_app s) c (hr_head rq) (decode_password (srv_decode s) (hr_body rq)) w)"
| "handle s Revoke rq param c w = wrap PCount (Handle_revoke (srv_app s) c w)"
| "handle s LogoutAll rq param c w = wrap PCount (Handle_logout_all (srv_app s) c w)"
| "handle s UserList rq param c w = wrap PUsers (Handle_user_list (srv_app s) (hr_query rq) w)"
| "handle s UserGet rq param c w = wrap PUserFull (Handle_user_get (srv_app s) param w)"
| "handle s SessionsList rq param c w = wrap PUserSessions (Handle_user_sessions (srv_app s) param w)"
| "handle s AuditList rq param c w = wrap PAudit (Handle_audit_list (srv_app s) (hr_query rq) w)"
| "handle s RoleList rq param c w = wrap PRoles (Handle_role_list (srv_app s) w)"
| "handle s UserCreate rq param c w =
     wrap PUser (Handle_user_create (srv_app s) c (decode_user_create (srv_decode s) (hr_body rq)) w)"
| "handle s SessionsRevoke rq param c w = wrap PCount (Handle_sessions_revoke (srv_app s) c param w)"
| "handle s RoleCreate rq param c w =
     wrap PRole (Handle_role_create (srv_app s) (decode_role_create (srv_decode s) (hr_body rq)) w)"
| "handle s RoleUpdate rq param c w =
     wrap PRole (Handle_role_update (srv_app s) param (decode_role_update (srv_decode s) (hr_body rq)) w)"
| "handle s RoleDelete rq param c w = wrap PRoleDeleted (Handle_role_delete (srv_app s) param w)"
| "handle s UserUpdate rq param c w =
     wrap PUser (Handle_user_update (srv_app s) c param (decode_user_update (srv_decode s) (hr_body rq)) w)"
| "handle s UserDelete rq param c w = wrap PDeleted (Handle_user_delete (srv_app s) c param w)"
| "handle s UserSetPassword rq param c w =
     wrap PPasswordSet (Handle_set_password (srv_app s) c param (decode_set_password (srv_decode s) (hr_body rq)) w)"

datatype seg = Lit string | Param

record 'r route =
  rt_method :: string
  rt_path :: "seg list"
  rt_guards :: "('r, payload) guard list"
  rt_endpoint :: endpoint

text \<open>A pattern against the segments of a path: the parameter, which matches no empty segment.\<close>

fun match_path :: "seg list \<Rightarrow> string list \<Rightarrow> string \<Rightarrow> string option" where
  "match_path [] [] param = Some param"
| "match_path (Lit l # ps) (x # xs) param = (if l = x then match_path ps xs param else None)"
| "match_path (Param # ps) (x # xs) param = (if x = [] then None else match_path ps xs x)"
| "match_path _ _ param = None"

definition segments :: "string \<Rightarrow> string list" where
  "segments path = Split (CHR ''/'') path"

definition root :: "seg list \<Rightarrow> seg list" where
  "root ps = Lit [] # ps"

definition admin_path :: "seg list \<Rightarrow> seg list" where
  "admin_path ps = root (Lit ''admin'' # ps)"

text \<open>\<open>RegisterRoutes\<close>: \<open>requireScope\<close> is \<open>None\<close> on the private listener.\<close>

definition scope_guard :: "(string \<Rightarrow> ('r, payload) guard) option \<Rightarrow> string \<Rightarrow> ('r, payload) guard" where
  "scope_guard requireScope p = (case requireScope of None \<Rightarrow> (\<lambda>req c. ret c) | Some f \<Rightarrow> f p)"

definition RegisterRoutes ::
  "('r, payload) guard \<Rightarrow> (string \<Rightarrow> ('r, payload) guard) option \<Rightarrow> ('r, payload) guard \<Rightarrow> 'r route list" where
  "RegisterRoutes auth requireScope sudo =
     (let scope = scope_guard requireScope;
          admin = (\<lambda>m p sc h. \<lparr>rt_method = m, rt_path = admin_path p, rt_guards = [auth, scope sc], rt_endpoint = h\<rparr>);
          destructive = (\<lambda>m p sc h.
            \<lparr>rt_method = m, rt_path = admin_path p, rt_guards = [auth, sudo, scope sc], rt_endpoint = h\<rparr>)
      in [admin ''GET'' [Lit ''users''] ''users:read'' UserList,
          admin ''GET'' [Lit ''users'', Param] ''users:read'' UserGet,
          admin ''GET'' [Lit ''users'', Param, Lit ''sessions''] ''sessions:read'' SessionsList,
          admin ''GET'' [Lit ''audit''] ''audit:read'' AuditList,
          admin ''GET'' [Lit ''roles''] ''roles:read'' RoleList,
          admin ''POST'' [Lit ''users''] ''users:create'' UserCreate,
          admin ''DELETE'' [Lit ''users'', Param, Lit ''sessions''] ''sessions:revoke'' SessionsRevoke,
          admin ''POST'' [Lit ''roles''] ''roles:manage'' RoleCreate,
          admin ''PATCH'' [Lit ''roles'', Param] ''roles:manage'' RoleUpdate,
          admin ''DELETE'' [Lit ''roles'', Param] ''roles:manage'' RoleDelete,
          destructive ''PATCH'' [Lit ''users'', Param] ''users:update'' UserUpdate,
          destructive ''DELETE'' [Lit ''users'', Param] ''users:delete'' UserDelete,
          destructive ''POST'' [Lit ''users'', Param, Lit ''password''] ''password:set'' UserSetPassword])"

definition open_routes :: "'r app \<Rightarrow> 'r route list" where
  "open_routes a =
     (let r = (\<lambda>m p gs h. \<lparr>rt_method = m, rt_path = root p, rt_guards = gs, rt_endpoint = h\<rparr>);
          authed = (\<lambda>m x h. r m [Lit ''auth'', Lit x] [Auth a] h)
      in [r ''GET'' [Lit ''healthz''] [] Health,
          r ''GET'' [Lit ''.well-known'', Lit ''jwks.json''] [] Jwks,
          r ''GET'' [Lit ''auth'', Lit ''settings''] [] Settings,
          r ''POST'' [Lit ''auth'', Lit ''token''] [RateLimit a (LoginIP (rl_cfg (limiting a))) ''login''] Token]
       @ (if Enabled_register a
          then [r ''POST'' [Lit ''auth'', Lit ''register''] [RateLimit a (Ratelimit.Register (rl_cfg (limiting a))) ''register''] Register]
          else [])
       @ [authed ''GET'' ''me'' Me, authed ''GET'' ''sessions'' Sessions, authed ''POST'' ''password'' Password,
          authed ''POST'' ''revoke'' Revoke, authed ''POST'' ''logout-all'' LogoutAll])"

definition public_routes :: "'r app \<Rightarrow> 'r route list" where
  "public_routes a =
     open_routes a @ RegisterRoutes (AuthSilent a) (Some (RequirePermission a)) (RequireRecentAuth a)"

definition private_routes :: "'r app \<Rightarrow> 'r route list" where
  "private_routes a = RegisterRoutes (AdminToken a) None (RequireRecentAuth a)"

section \<open>Serving a request\<close>

definition route_matches :: "http_request \<Rightarrow> 'r route \<Rightarrow> bool" where
  "route_matches rq rt \<longleftrightarrow>
     rt_method rt = hr_method rq \<and> match_path (rt_path rt) (segments (hr_path rq)) [] \<noteq> None"

definition through :: "'r server \<Rightarrow> 'r route \<Rightarrow> http_request \<Rightarrow> ctx \<Rightarrow> 'r world \<Rightarrow> payload response \<times> 'r world" where
  "through s rt rq c w =
     (case chain (rt_guards rt) (hr_head rq) c w of
        (Inl resp, w') \<Rightarrow> (resp, w')
      | (Inr c', w') \<Rightarrow>
          handle s (rt_endpoint rt) rq (the (match_path (rt_path rt) (segments (hr_path rq)) [])) c' w')"

definition dispatch :: "'r server \<Rightarrow> 'r route list \<Rightarrow> http_request \<Rightarrow> 'r world \<Rightarrow> payload response \<times> 'r world" where
  "dispatch s routes rq w =
     (case find (route_matches rq) routes of
        None \<Rightarrow> (srv_no_route s rq, w)
      | Some rt \<Rightarrow> through s rt rq (RealIP_guard (srv_resolver s) (hr_head rq) new_ctx) w)"

definition empty_204 :: "payload response" where
  "empty_204 = fail 204 []"

text \<open>The public listener: the headers of the cross-origin policy and the answer.\<close>

definition serve_public ::
  "'r server \<Rightarrow> http_request \<Rightarrow> 'r world \<Rightarrow> (string \<times> string) list \<times> payload response \<times> 'r world" where
  "serve_public s rq w =
     (case Handler_cors (sys (srv_app s)) (srv_cors s) (hr_method rq = ''OPTIONS'') (hr_head rq) of
        (hs, True) \<Rightarrow> (hs, empty_204, w)
      | (hs, False) \<Rightarrow> (hs, dispatch s (public_routes (srv_app s)) rq w))"

text \<open>The private listener exists only when a token is configured.\<close>

definition serve_private :: "'r server \<Rightarrow> (http_request \<Rightarrow> 'r world \<Rightarrow> payload response \<times> 'r world) option" where
  "serve_private s =
     (if admin_token (srv_app s) = [] then None else Some (dispatch s (private_routes (srv_app s))))"

end
