(* ===== verification/RoutesLaws.thy ===== *)
theory RoutesLaws
  imports Routes
begin

text \<open>
  What the two surfaces guarantee: the permission each administration route needs, the answers that
  refuse, the machine token of the private listener, and the rate limit of the login endpoint.
\<close>

section \<open>The administration routes\<close>

text \<open>The permission a request under \<open>/admin\<close> needs, by method and path.\<close>

fun needed :: "string \<Rightarrow> string list \<Rightarrow> permission option" where
  "needed m [x] =
     (if x = ''users'' then (if m = ''GET'' then Some PermUsersRead else if m = ''POST'' then Some PermUsersCreate else None)
      else if x = ''audit'' \<and> m = ''GET'' then Some PermAuditRead
      else if x = ''roles'' then (if m = ''GET'' then Some PermRolesRead else if m = ''POST'' then Some PermRolesManage else None)
      else None)"
| "needed m [x, i] =
     (if x = ''users'' then
        (if m = ''GET'' then Some PermUsersRead else if m = ''PATCH'' then Some PermUsersUpdate
         else if m = ''DELETE'' then Some PermUsersDelete else None)
      else if x = ''roles'' \<and> m \<in> {''PATCH'', ''DELETE''} then Some PermRolesManage
      else None)"
| "needed m [x, i, y] =
     (if x \<noteq> ''users'' then None
      else if y = ''sessions'' then
        (if m = ''GET'' then Some PermSessionsRead else if m = ''DELETE'' then Some PermSessionsRevoke else None)
      else if y = ''password'' \<and> m = ''POST'' then Some PermPasswordSet else None)"
| "needed m xs = None"

definition admin_request :: "http_request \<Rightarrow> bool" where
  "admin_request rq \<longleftrightarrow> (\<exists>rest. segments (hr_path rq) = [] # ''admin'' # rest)"

lemma find_append_none: "(\<And>x. x \<in> set xs \<Longrightarrow> \<not> P x) \<Longrightarrow> find P (xs @ ys) = find P ys"
  by (induction xs) auto

text \<open>A route of the administration surface that serves a request: its guards and its scope.\<close>

fun path_fits :: "seg list \<Rightarrow> string list \<Rightarrow> bool" where
  "path_fits [] xs \<longleftrightarrow> xs = []"
| "path_fits (Lit l # ps) xs \<longleftrightarrow> (\<exists>ys. xs = l # ys \<and> path_fits ps ys)"
| "path_fits (Param # ps) xs \<longleftrightarrow> (\<exists>x ys. xs = x # ys \<and> x \<noteq> [] \<and> path_fits ps ys)"

lemma match_path_fits: "match_path ps xs q \<noteq> None \<longleftrightarrow> path_fits ps xs"
  by (induction ps xs q rule: match_path.induct) (auto elim: path_fits.elims)

lemma route_matches_fits:
  "route_matches rq rt \<longleftrightarrow> rt_method rt = hr_method rq \<and> path_fits (rt_path rt) (segments (hr_path rq))"
  by (simp add: route_matches_def match_path_fits del: not_None_eq)

lemma open_routes_not_admin:
  "admin_request rq \<Longrightarrow> rt \<in> set (open_routes a) \<Longrightarrow> \<not> route_matches rq rt"
  by (auto simp: admin_request_def open_routes_def route_matches_fits root_def Let_def)

definition guarded_by :: "('r, payload) guard \<Rightarrow> (string \<Rightarrow> ('r, payload) guard) option \<Rightarrow> ('r, payload) guard
    \<Rightarrow> 'r route \<Rightarrow> permission \<Rightarrow> bool" where
  "guarded_by auth rs sudo rt sc \<longleftrightarrow>
     (rt_guards rt = [auth, scope_guard rs sc] \<or> rt_guards rt = [auth, sudo, scope_guard rs sc]) \<and>
     (\<forall>rq. route_matches rq rt \<longrightarrow>
        (\<exists>rest. segments (hr_path rq) = [] # ''admin'' # rest \<and> needed (hr_method rq) rest = Some sc))"

lemma guarded_byI:
  assumes "rt_guards rt = [auth, scope_guard rs sc] \<or> rt_guards rt = [auth, sudo, scope_guard rs sc]"
    and "rt_path rt = admin_path ps" "\<And>xs. path_fits ps xs \<Longrightarrow> needed (rt_method rt) xs = Some sc"
  shows "guarded_by auth rs sudo rt sc"
  using assms by (auto simp: guarded_by_def route_matches_fits admin_path_def root_def)

lemma admin_route:
  assumes "rt \<in> set (RegisterRoutes auth rs sudo)"
  shows "\<exists>sc. guarded_by auth rs sudo rt sc"
proof -
  have "list_all (\<lambda>rt. \<exists>sc. guarded_by auth rs sudo rt sc) (RegisterRoutes auth rs sudo)"
    unfolding RegisterRoutes_def Let_def list.pred_inject(2)
    by (intro conjI exI guarded_byI, auto simp: perm_defs)
  with assms show ?thesis by (simp add: list_all_iff)
qed

text \<open>The caller is a verified token's subject: an active account whose role holds the permission.\<close>

definition authorised :: "'r app \<Rightarrow> db \<Rightarrow> http_request \<Rightarrow> bool" where
  "authorised a d rq \<longleftrightarrow>
     (\<exists>cl sc r. verified a (hr_head rq) cl \<and>
        needed (hr_method rq) (drop 2 (segments (hr_path rq))) = Some sc \<and>
        cl_subject cl \<noteq> [] \<and> acting_role a d (cl_subject cl) r \<and> sc \<in> set (role_perms r))"

text \<open>The answers that refuse a request under \<open>/admin\<close>.\<close>

definition refusals :: "payload response set" where
  "refusals = {silent_404, Unauthorized ''token expired'', Forbidden ''reauthentication required''}"

lemma panel_chain:
  assumes "rt_guards rt = [AuthSilent a, scope_guard (Some (RequirePermission a)) sc] \<or>
      rt_guards rt = [AuthSilent a, RequireRecentAuth a, scope_guard (Some (RequirePermission a)) sc]"
    and "chain (rt_guards rt) req c w = (r, w')"
  shows "db w' = db w \<and> (case r of
      Inl resp \<Rightarrow> resp \<in> refusals
    | Inr c' \<Rightarrow> \<exists>cl ro. verified a req cl \<and> cl_subject cl \<noteq> [] \<and> acting_role a (db w) (cl_subject cl) ro \<and>
        sc \<in> set (role_perms ro))"
proof -
  have d: "db w' = db w"
    using assms by (intro frameD [OF frame_chain]) (auto intro!: frame_rules simp: scope_guard_def)
  have user [simp]: "cx_user (identify cl c) = cl_subject cl" for cl
    by (simp add: identify_def SetActor_def SetIdentity_def)
  show ?thesis
  proof (cases r)
    case (Inl resp)
    with assms d show ?thesis
      by (auto simp: scope_guard_def act_inv refusals_def
        dest!: AuthSilent_Inl RequireRecentAuth_Inl RequirePermission_Inl)
  next
    case (Inr c')
    with assms d show ?thesis
      by (fastforce simp: scope_guard_def act_inv
        dest!: AuthSilent_Inr RequireRecentAuth_Inr RequirePermission_Inr)
  qed
qed

text \<open>
  C18. The administration surface on the public listener. A request under \<open>/admin\<close> either comes with
  an access token that verifies, whose subject is an active account holding, according to the
  database at that moment, the permission of the route; or it changes nothing in the database and is
  answered by the preflight of the cross-origin policy, by the router as for a path without a route,
  or by one of three refusals: a bare 404, 401 for an expired token, 403 for a login too old.
\<close>

theorem admin_needs_permission:
  assumes "serve_public s rq w = (hs, resp, w')" "admin_request rq"
  shows "authorised (srv_app s) (db w) rq \<or>
    (db w' = db w \<and> resp \<in> {empty_204, srv_no_route s rq} \<union> refusals)"
proof (cases "snd (Handler_cors (sys (srv_app s)) (srv_cors s) (hr_method rq = ''OPTIONS'') (hr_head rq))")
  case True
  with assms(1) show ?thesis by (auto simp: serve_public_def split: prod.splits bool.splits)
next
  case False
  let ?a = "srv_app s"
  let ?rs = "RegisterRoutes (AuthSilent ?a) (Some (RequirePermission ?a)) (RequireRecentAuth ?a)"
  from False assms have disp: "dispatch s (public_routes ?a) rq w = (resp, w')"
    by (auto simp: serve_public_def split: prod.splits bool.splits)
  have fnd: "find (route_matches rq) (public_routes ?a) = find (route_matches rq) ?rs"
    unfolding public_routes_def by (rule find_append_none) (rule open_routes_not_admin [OF assms(2)])
  show ?thesis
  proof (cases "find (route_matches rq) ?rs")
    case None
    with disp fnd show ?thesis by (simp add: dispatch_def)
  next
    case (Some rt)
    then have rt: "rt \<in> set ?rs" "route_matches rq rt" by (auto simp: find_Some_iff)
    obtain sc where g: "guarded_by (AuthSilent ?a) (Some (RequirePermission ?a)) (RequireRecentAuth ?a) rt sc"
      using admin_route [OF rt(1)] by blast
    with rt(2) have need: "needed (hr_method rq) (drop 2 (segments (hr_path rq))) = Some sc"
      by (auto simp: guarded_by_def)
    obtain r w1 where c: "chain (rt_guards rt) (hr_head rq) (RealIP_guard (srv_resolver s) (hr_head rq) new_ctx) w = (r, w1)"
      by fastforce
    from g have "rt_guards rt = [AuthSilent ?a, scope_guard (Some (RequirePermission ?a)) sc] \<or>
      rt_guards rt = [AuthSilent ?a, RequireRecentAuth ?a, scope_guard (Some (RequirePermission ?a)) sc]"
      by (simp add: guarded_by_def)
    note pc = panel_chain [OF this c]
    show ?thesis
    proof (cases r)
      case (Inl e)
      with pc disp fnd Some c show ?thesis by (simp add: dispatch_def through_def)
    next
      case (Inr c')
      with pc need show ?thesis by (auto simp: authorised_def)
    qed
  qed
qed

definition sample_server :: "unit server" where
  "sample_server = \<lparr>srv_app = sample_app, srv_resolver = \<lparr>trusted = [], ip_header = []\<rparr>,
     srv_cors = \<lparr>cors_rules = [], cors_age = [], cors_any = False, credentials = False\<rparr>,
     srv_decode = \<lparr>decode_token = (\<lambda>_. None), decode_register = (\<lambda>_. None), decode_password = (\<lambda>_. None),
       decode_user_create = (\<lambda>_. None), decode_user_update = (\<lambda>_. None), decode_set_password = (\<lambda>_. None),
       decode_role_create = (\<lambda>_. None), decode_role_update = (\<lambda>_. None)\<rparr>,
     srv_no_route = (\<lambda>_. fail 404 ''404 page not found''), srv_ping_pg = (\<lambda>_. True), srv_ping_redis = (\<lambda>_. True)\<rparr>"

definition sample_request :: "string \<Rightarrow> string \<Rightarrow> (string \<times> string) list \<Rightarrow> http_request" where
  "sample_request m p hs = \<lparr>hr_method = m, hr_path = p, hr_query = [],
     hr_head = \<lparr>req_headers = hs, req_cookies = [], req_remote = ''192.0.2.1:7'', req_agent = []\<rparr>, hr_body = []\<rparr>"

lemma sample_segments: "segments ''/admin/users/u'' = [[], ''admin'', ''users'', ''u'']"
  by code_simp

theorem admin_needs_permission_witness:
  "case serve_public sample_server (sample_request ''DELETE'' ''/admin/users/u'' []) sample_world of
     (hs, resp, w') \<Rightarrow> authorised sample_app sample_db (sample_request ''DELETE'' ''/admin/users/u'' []) \<or>
       (db w' = sample_db \<and> resp \<in> {empty_204, fail 404 ''404 page not found''} \<union> refusals)"
proof -
  obtain hs resp w' where e: "serve_public sample_server (sample_request ''DELETE'' ''/admin/users/u'' []) sample_world
      = (hs, resp, w')" by (metis prod.collapse)
  have "admin_request (sample_request ''DELETE'' ''/admin/users/u'' [])"
    by (simp add: admin_request_def sample_request_def sample_segments)
  from admin_needs_permission [OF e this] show ?thesis
    by (simp add: e) (simp add: sample_server_def)
qed

text \<open>The route of a destructive request, found behind the token and the recent login.\<close>

lemma destructive_route:
  assumes "segments (hr_path rq) = [[], ''admin'', ''users'', i]" "i \<noteq> []" "hr_method rq = ''PATCH''"
  shows "find (route_matches rq) (public_routes a) =
    Some \<lparr>rt_method = ''PATCH'', rt_path = admin_path [Lit ''users'', Param],
      rt_guards = [AuthSilent a, RequireRecentAuth a, scope_guard (Some (RequirePermission a)) ''users:update''],
      rt_endpoint = UserUpdate\<rparr>"
proof -
  have "find (route_matches rq) (public_routes a) =
      find (route_matches rq) (RegisterRoutes (AuthSilent a) (Some (RequirePermission a)) (RequireRecentAuth a))"
    unfolding public_routes_def
    by (rule find_append_none) (rule open_routes_not_admin, simp_all add: admin_request_def assms)
  then show ?thesis
    by (simp add: RegisterRoutes_def Let_def route_matches_fits admin_path_def root_def assms)
qed

lemma Now_eq: "Now w = (Inr t, w') \<Longrightarrow> t \<in> set (clock w # readings w) \<and>
    set (clock w' # readings w') \<subseteq> set (clock w # readings w)"
  by (auto simp: Now_def split: list.splits)

text \<open>
  A login that is too old is told so before its permissions are looked at. Whoever holds a valid
  access token, with or without any permission, is answered 403 by an edit of a user once the login
  is older than the window: the check of a recent login runs before the check of the permission, so
  the answer tells the holder of an ordinary account that the administration surface is there.
\<close>

theorem stale_login_sees_admin:
  assumes "segments (hr_path rq) = [[], ''admin'', ''users'', i]" "i \<noteq> []" "hr_method rq = ''PATCH''"
    and "credential (cookies (srv_app s)) (hr_head rq) = Some raw"
    and "\<And>now. jwt_parse (sys (srv_app s)) (parse_opts (signing (srv_app s))) (keyFunc (signing (srv_app s))) now raw = Inr cl"
    and "cl_subject cl \<noteq> []"
    and old: "\<And>t. t \<in> set (clock w # readings w) \<Longrightarrow> Since t (from_unix (cl_auth_time cl)) > reauth_window (srv_app s)"
  shows "fst (snd (serve_public s rq w)) = Forbidden ''reauthentication required''"
proof -
  let ?a = "srv_app s" and ?c = "RealIP_guard (srv_resolver s) (hr_head rq) new_ctx"
  obtain t w1 where n1: "(Now w :: (error + instant) \<times> _) = (Inr t, w1)"
    by (cases "readings w") (auto simp: Now_def)
  have auth: "(AuthSilent ?a :: (_, payload) guard) (hr_head rq) ?c w = (Inr (identify cl ?c), w1)"
    by (simp add: AuthSilent_def assms(4) attempt_simp Verify_token_def andthen_simp n1 map_err_simp assms(5))
  obtain t2 w2 where n2: "(Now w1 :: (payload response + instant) \<times> _) = (Inr t2, w2)"
    by (cases "readings w1") (auto simp: Now_def)
  have "t2 \<in> set (clock w # readings w)" using Now_eq [OF n1] Now_eq [OF n2] by auto
  from old [OF this] have sudo: "(RequireRecentAuth ?a :: (_, payload) guard) (hr_head rq) (identify cl ?c) w1
      = (Inl (Forbidden ''reauthentication required''), if from_unix (cl_auth_time cl) = zero_time then w1 else w2)"
    by (simp add: RequireRecentAuth_def identify_def SetActor_def SetIdentity_def assms(6) andthen_simp n2)
  have "dispatch s (public_routes ?a) rq w = (Forbidden ''reauthentication required'',
      if from_unix (cl_auth_time cl) = zero_time then w1 else w2)"
    by (simp add: dispatch_def destructive_route [OF assms(1-3)] through_def andthen_simp auth sudo)
  moreover have "snd (Handler_cors (sys ?a) (srv_cors s) (hr_method rq = ''OPTIONS'') (hr_head rq)) = False"
    by (simp add: Handler_cors_def Let_def assms(3) split: option.split)
  ultimately show ?thesis by (simp add: serve_public_def split_beta split: bool.split)
qed

definition sample_holder :: claims where
  "sample_holder = \<lparr>cl_session = ''s'', cl_role = ''user'', cl_auth_time = 100, cl_issuer = ''goauth'',
     cl_subject = sample_uuid_text 1, cl_audience = [''goauth''], cl_expires = Some 5000, cl_issued = Some 100,
     cl_not_before = Some 100, cl_id = []\<rparr>"

definition trusting_server :: "unit server" where
  "trusting_server = sample_server\<lparr>srv_app :=
     sample_app\<lparr>pg := \<lparr>env = sample_env\<lparr>jwt_parse := (\<lambda>opts kf now raw. Inr sample_holder)\<rparr>, emitEvents = True\<rparr>\<rparr>\<rparr>"

definition with_bearer :: "string \<Rightarrow> string \<Rightarrow> http_request" where
  "with_bearer m p = sample_request m p [(''Authorization'', ''Bearer x.y.z'')]"

lemma with_bearer_simps [simp]:
  "hr_method (with_bearer m p) = m" "hr_path (with_bearer m p) = p"
  "bearer (hr_head (with_bearer m p)) = Some ''x.y.z''"
  by (simp_all add: with_bearer_def sample_request_def bearer_def Header_Get_def, code_simp)

theorem stale_login_sees_admin_witness:
  "fst (snd (serve_public trusting_server (with_bearer ''PATCH'' ''/admin/users/u'')
     (sample_world\<lparr>clock := 2000 * Second\<rparr>))) = Forbidden ''reauthentication required''"
proof (rule stale_login_sees_admin [where i = "''u''" and raw = "''x.y.z''" and cl = sample_holder])
  show "credential (cookies (srv_app trusting_server)) (hr_head (with_bearer ''PATCH'' ''/admin/users/u'')) = Some ''x.y.z''"
    by (simp add: credential_def)
  show "Since t (from_unix (cl_auth_time sample_holder)) > reauth_window (srv_app trusting_server)"
    if "t \<in> set (clock (sample_world\<lparr>clock := 2000 * Second\<rparr>) # readings (sample_world\<lparr>clock := 2000 * Second\<rparr>))" for t
    using that by (simp add: sample_world_def sample_holder_def trusting_server_def sample_server_def sample_app_def
        Since_def from_unix_def Second_def)
qed (simp_all add: sample_segments trusting_server_def sample_holder_def sample_uuid_text_def)

section \<open>The private listener\<close>

text \<open>
  C19. The private listener exists only with a configured token, and serves nothing without it: a
  request whose bearer token is not exactly the configured one changes nothing at all and is answered
  by a bare 404, or by the router as for a path without a route.
\<close>

theorem private_listener_needs_token:
  assumes "serve_private s = Some listener" "bearer (hr_head rq) \<noteq> Some (admin_token (srv_app s))"
  shows "admin_token (srv_app s) \<noteq> [] \<and>
    (listener rq w = (silent_404, w) \<or> listener rq w = (srv_no_route s rq, w))"
proof -
  let ?a = "srv_app s"
  from assms(1) have l: "listener = dispatch s (private_routes ?a)" "admin_token ?a \<noteq> []"
    by (auto simp: serve_private_def split: if_splits)
  have refuse: "AdminToken ?a (hr_head rq) c w = (Inl silent_404, w)" for c
    using assms(2) by (auto simp: AdminToken_def split: option.split)
  show ?thesis
  proof (cases "find (route_matches rq) (private_routes ?a)")
    case None
    with l show ?thesis by (simp add: dispatch_def)
  next
    case (Some rt)
    then have "rt \<in> set (private_routes ?a)" by (auto simp: find_Some_iff)
    from admin_route [OF this [unfolded private_routes_def]]
    obtain gs where "rt_guards rt = AdminToken ?a # gs" by (auto simp: guarded_by_def)
    with Some l show ?thesis by (simp add: dispatch_def through_def andthen_simp refuse)
  qed
qed

theorem private_listener_needs_token_witness:
  "admin_token sample_app \<noteq> [] \<and>
   (dispatch sample_server (private_routes sample_app) (with_bearer ''DELETE'' ''/admin/users/u'') sample_world
      \<in> {(silent_404, sample_world), (fail 404 ''404 page not found'', sample_world)})"
proof -
  have "serve_private sample_server = Some (dispatch sample_server (private_routes sample_app))"
    by (simp add: serve_private_def sample_server_def sample_app_def)
  from private_listener_needs_token [OF this, of "with_bearer ''DELETE'' ''/admin/users/u''" sample_world]
  show ?thesis by (simp add: sample_server_def) (simp add: sample_app_def)
qed

section \<open>Rate limits\<close>

text \<open>The key that counts the attempts of the caller's address.\<close>

definition login_counter :: "'r server \<Rightarrow> request \<Rightarrow> string" where
  "login_counter s req = KeyPrefix (rl_cfg (limiting (srv_app s))) @ ''rl:login:ip:'' @ toString (Bucket (ClientIP (srv_resolver s) req))"

lemma frame_draws_redis [frame_rules]: "frame draws (redis_call f)"
  by (auto simp: redis_call_def frame_def andthen_simp Now_def split: list.split prod.split)

lemma draws_RateLimit: "frame draws ((RateLimit a rule name :: (_, payload) guard) req c)"
  unfolding RateLimit_def Allow_def Let_def by (intro frame_rules)

lemma Handler_cors_passes: "snd (Handler_cors e m False req) = False"
  by (simp add: Handler_cors_def Let_def split: option.split)

text \<open>The refusal that an answer of the counter leads to.\<close>

definition limited_with :: "redis_error + int \<Rightarrow> payload response" where
  "limited_with ans =
     (case ans of Inl _ \<Rightarrow> ServiceUnavailable ''service temporarily unavailable''
      | Inr _ \<Rightarrow> TooManyRequests ''too many requests'')"

definition over_limit :: "ratelimit_config \<Rightarrow> rule \<Rightarrow> redis_error + int \<Rightarrow> bool" where
  "over_limit cfg rule ans = (case ans of Inl _ \<Rightarrow> rl_FailClosed cfg | Inr n \<Rightarrow> n > rule_limit rule)"

lemma over_limit_refused:
  assumes "Enabled rule"
    and "redis_call (cmd_Incr (client (limiting a)) (KeyPrefix (rl_cfg (limiting a)) @ ''rl:'' @ name @ '':ip:'' @ toString (cx_bucket c))) w
      = (ans, w1)"
    and "over_limit (rl_cfg (limiting a)) rule ans"
  shows "\<exists>w'. (RateLimit a rule name :: (_, payload) guard) req c w = (Inl (limited_with ans), w')"
  using assms
  by (cases ans) (auto simp: over_limit_def limited_with_def Enabled_def RateLimit_def Let_def Allow_def attempt_simp
      andthen_simp map_err_simp split: prod.split)

text \<open>
  C20. A login beyond its rate limit is refused unread. When the counter of the caller's address,
  incremented by this very request, passes the limit, the answer is 429; when Redis fails and the
  limiter is to fail closed, it is 503. Either way the body plays no part in the answer or in what
  is left behind, and not one statement reaches the database.
\<close>

theorem login_over_limit:
  assumes "segments (hr_path rq) = [[], ''auth'', ''token'']" "hr_method rq = ''POST''"
    and "Enabled (LoginIP (rl_cfg (limiting (srv_app s))))"
    and count: "redis_call (cmd_Incr (client (limiting (srv_app s))) (login_counter s (hr_head rq))) w = (ans, w1)"
    and "over_limit (rl_cfg (limiting (srv_app s))) (LoginIP (rl_cfg (limiting (srv_app s)))) ans"
    and "serve_public s rq w = (hs, resp, w')"
  shows "resp = limited_with ans \<and> db w' = db w \<and> draws w' = draws w \<and>
    (\<forall>b. serve_public s (rq\<lparr>hr_body := b\<rparr>) w = (hs, resp, w'))"
proof -
  let ?a = "srv_app s" and ?c = "RealIP_guard (srv_resolver s) (hr_head rq) new_ctx"
  have find: "find (route_matches q) (public_routes ?a) = Some \<lparr>rt_method = ''POST'',
      rt_path = root [Lit ''auth'', Lit ''token''], rt_guards = [RateLimit ?a (LoginIP (rl_cfg (limiting ?a))) ''login''],
      rt_endpoint = Token\<rparr>" if "segments (hr_path q) = [[], ''auth'', ''token'']" "hr_method q = ''POST''" for q
    by (simp add: public_routes_def open_routes_def Let_def route_matches_fits root_def that)
  have "redis_call (cmd_Incr (client (limiting ?a)) (KeyPrefix (rl_cfg (limiting ?a)) @ ''rl:'' @ ''login'' @ '':ip:''
      @ toString (cx_bucket ?c))) w = (ans, w1)"
    using count by (simp add: login_counter_def RealIP_guard_def Let_def)
  from over_limit_refused [OF assms(3) this assms(5)]
  obtain w2 where g: "RateLimit ?a (LoginIP (rl_cfg (limiting ?a))) ''login'' (hr_head rq) ?c w
      = (Inl (limited_with ans :: payload response) :: payload response + ctx, w2)" by blast
  have served: "serve_public s (rq\<lparr>hr_body := b\<rparr>) w =
      (fst (Handler_cors (sys ?a) (srv_cors s) False (hr_head rq)), limited_with ans, w2)" for b
    using assms(1,2) Handler_cors_passes [of "sys ?a" "srv_cors s" "hr_head rq"]
    by (auto simp: serve_public_def dispatch_def find through_def andthen_simp g split: prod.split)
  have "rq = rq\<lparr>hr_body := hr_body rq\<rparr>" by simp
  with served [of "hr_body rq"] assms(6) have e: "resp = limited_with ans" "w' = w2"
    "hs = fst (Handler_cors (sys ?a) (srv_cors s) False (hr_head rq))" by simp_all
  with served frameD [OF frame_guard(1) g] frameD [OF draws_RateLimit g] show ?thesis by simp
qed

lemma frame_password_change: "frame cache (Execute_password_change a inp)"
  unfolding Execute_password_change_def fresh_login_def Issue_def by (intro frame_rules)

lemma password_change_cache: "cache (snd (Handle_password_change a c req body w)) = cache w"
proof (cases body)
  case (Some b)
  let ?i = "b\<lparr>pi_user := cx_user c, pi_ip := cx_client_ip c, pi_agent := req_agent req\<rparr>"
  obtain r w1 where e: "Execute_password_change a ?i w = (r, w1)" by fastforce
  from frameD [OF frame_password_change e] Some e show ?thesis
    by (auto simp: Handle_password_change_def Validate_password_change_def Let_def set_login_cookies_def Now_def
        split: sum.split list.split)
qed (simp add: Handle_password_change_def invalid_body_def)

text \<open>
  Guesses at \<open>/auth/password\<close> are not counted. A request to change the password verifies the
  current one, yet whatever it presents and however often it fails, neither the limiter's counters
  nor its backoff change.
\<close>

theorem password_guesses_uncounted:
  assumes "segments (hr_path rq) = [[], ''auth'', ''password'']" "hr_method rq = ''POST''"
    and "serve_public s rq w = (hs, resp, w')"
  shows "cache w' = cache w"
proof -
  let ?a = "srv_app s"
  have find: "find (route_matches rq) (public_routes ?a) = Some \<lparr>rt_method = ''POST'',
      rt_path = root [Lit ''auth'', Lit ''password''], rt_guards = [Auth ?a], rt_endpoint = Password\<rparr>"
    by (simp add: public_routes_def open_routes_def Let_def route_matches_fits root_def assms(1,2))
  from assms have d: "dispatch s (public_routes ?a) rq w = (resp, w')"
    by (auto simp: serve_public_def Handler_cors_def Let_def split: if_splits option.splits)
  obtain r w1 where g: "Auth ?a (hr_head rq) (RealIP_guard (srv_resolver s) (hr_head rq) new_ctx) w
      = (r :: payload response + ctx, w1)" by fastforce
  have "frame cache ((Auth ?a :: (_, payload) guard) (hr_head rq) (RealIP_guard (srv_resolver s) (hr_head rq) new_ctx))"
    unfolding Auth_def by (intro frame_rules)
  with g have "cache w1 = cache w" by (rule frameD [rotated])
  with d show ?thesis
    by (cases r) (auto simp: dispatch_def find through_def andthen_simp g wrap_def password_change_cache)
qed

lemma auth_segments: "segments ''/auth/token'' = [[], ''auth'', ''token'']"
  "segments ''/auth/password'' = [[], ''auth'', ''password'']"
  by code_simp+

text \<open>A Redis that counts under every key, and a server that allows one login per address and window.\<close>

definition tally_redis :: "(string \<Rightarrow> int) redis" where
  "tally_redis =
     \<lparr>cmd_Incr = (\<lambda>k t m. (Inr (m k + 1), m(k := m k + 1))), cmd_Expire = (\<lambda>k d t m. (Inr (m k \<noteq> 0), m)),
      cmd_TTL = (\<lambda>k t m. (Inr (if m k = 0 then - 2 else Minute), m)), cmd_Set = (\<lambda>k v d t m. (Inr (), m(k := 1))),
      cmd_Del = (\<lambda>ks t m. (Inr (int (length ks)), \<lambda>k. if k \<in> set ks then 0 else m k))\<rparr>"

definition tally_app :: "(string \<Rightarrow> int) app" where
  "tally_app =
     \<lparr>pg = \<lparr>env = sample_env\<lparr>jwt_parse := (\<lambda>opts kf now raw. Inr sample_holder)\<rparr>, emitEvents = True\<rparr>,
      hashing = hashing sample_app, signing = signing sample_app,
      limiting = \<lparr>client = tally_redis, rl_cfg = ratelimit_defaults\<lparr>LoginIP := \<lparr>rule_limit = 1, rule_window = Minute\<rparr>\<rparr>,
        lim_env = sample_env\<rparr>,
      fail_closed = True, min_password_len = 4, registration_mode = ''open'', require_email = False,
      reauth_window = 900 * Second, admin_token = ''token'', cookies = cookies sample_app\<rparr>"

definition tally_server :: "(string \<Rightarrow> int) server" where
  "tally_server = \<lparr>srv_app = tally_app, srv_resolver = srv_resolver sample_server, srv_cors = srv_cors sample_server,
     srv_decode = (srv_decode sample_server)\<lparr>decode_password :=
       (\<lambda>b. Some \<lparr>pi_current = ''guess'', pi_new = b, pi_user = [], pi_ip = [], pi_agent = []\<rparr>)\<rparr>,
     srv_no_route = srv_no_route sample_server, srv_ping_pg = (\<lambda>_. True), srv_ping_redis = (\<lambda>_. True)\<rparr>"

definition tally_world :: "(string \<Rightarrow> int) \<Rightarrow> (string \<Rightarrow> int) world" where
  "tally_world m = \<lparr>db = sample_db, cache = m, clock = 10, readings = [], faults = [], draws = 0, tx_now = None\<rparr>"

lemma tally_fields:
  "client (limiting (srv_app tally_server)) = tally_redis"
  "rl_cfg (limiting (srv_app tally_server)) = ratelimit_defaults\<lparr>LoginIP := \<lparr>rule_limit = 1, rule_window = Minute\<rparr>\<rparr>"
  "srv_cors tally_server = srv_cors sample_server" "decode_token (srv_decode tally_server) b = None"
  by (simp_all add: tally_server_def tally_app_def sample_server_def)

text \<open>The first login of an address is heard, and its body found unreadable; the second is not heard.\<close>

abbreviation knock :: http_request where
  "knock \<equiv> sample_request ''POST'' ''/auth/token'' []"

lemma first_knock:
  "serve_public tally_server knock (tally_world (\<lambda>_. 0)) =
     ([], BadRequest ''invalid request body'', tally_world ((\<lambda>_. 0)(login_counter tally_server (hr_head knock) := 1)))"
proof -
  have find: "find (route_matches knock) (public_routes (srv_app tally_server)) = Some \<lparr>rt_method = ''POST'',
      rt_path = root [Lit ''auth'', Lit ''token''],
      rt_guards = [RateLimit (srv_app tally_server) (LoginIP (rl_cfg (limiting (srv_app tally_server)))) ''login''],
      rt_endpoint = Token\<rparr>"
    by (simp add: public_routes_def open_routes_def Let_def route_matches_fits root_def auth_segments sample_request_def)
  have "Handler_cors (sys (srv_app tally_server)) (srv_cors tally_server) False (hr_head knock) = ([], False)"
    by (simp add: tally_fields sample_server_def Handler_cors_def Enabled_cors_def)
  moreover have "hr_method knock \<noteq> ''OPTIONS''" by (simp add: sample_request_def)
  moreover have "Enabled (LoginIP (rl_cfg (limiting (srv_app tally_server))))"
    by (simp add: tally_fields Enabled_def Minute_def Second_def)
  ultimately show ?thesis
    by (simp add: serve_public_def dispatch_def find through_def andthen_simp RateLimit_def Allow_def attempt_simp
        map_err_simp redis_call_def Now_def tally_world_def wrap_def Handle_token_def tally_fields tally_redis_def
        ratelimit_defaults_def login_counter_def RealIP_guard_def BadRequest_def fail_def Let_def)
qed

theorem login_over_limit_witness:
  "fst (snd (serve_public tally_server knock (tally_world (\<lambda>_. 0)))) = BadRequest ''invalid request body'' \<and>
   (case serve_public tally_server knock (snd (snd (serve_public tally_server knock (tally_world (\<lambda>_. 0))))) of
      (hs, resp, w') \<Rightarrow> resp = TooManyRequests ''too many requests'' \<and> db w' = sample_db \<and> draws w' = 0)"
proof -
  let ?w = "tally_world ((\<lambda>_. 0)(login_counter tally_server (hr_head knock) := 1))"
  obtain hs resp w' where e: "serve_public tally_server knock ?w = (hs, resp, w')" by (metis prod.collapse)
  obtain w1 where n: "redis_call (cmd_Incr (client (limiting (srv_app tally_server)))
      (login_counter tally_server (hr_head knock))) ?w = (Inr 2, w1)"
    by (simp add: redis_call_def andthen_simp Now_def tally_world_def tally_server_def tally_app_def tally_redis_def)
  have "resp = limited_with (Inr 2) \<and> db w' = db ?w \<and> draws w' = draws ?w \<and>
      (\<forall>b. serve_public tally_server (knock\<lparr>hr_body := b\<rparr>) ?w = (hs, resp, w'))"
    by (rule login_over_limit [OF _ _ _ n _ e])
      (simp_all add: sample_request_def auth_segments tally_server_def tally_app_def ratelimit_defaults_def Enabled_def
        over_limit_def Minute_def Second_def)
  with e show ?thesis by (simp add: first_knock limited_with_def) (simp add: tally_world_def)
qed

theorem password_guesses_uncounted_witness:
  "cache (snd (snd (serve_public tally_server (with_bearer ''POST'' ''/auth/password'') (tally_world (\<lambda>_. 7))))) = (\<lambda>_. 7)"
proof -
  let ?w = "tally_world (\<lambda>_. 7)"
  obtain hs resp w' where e: "serve_public tally_server (with_bearer ''POST'' ''/auth/password'') ?w = (hs, resp, w')"
    by (metis prod.collapse)
  have "cache w' = cache ?w"
    by (rule password_guesses_uncounted [OF _ _ e]) (simp_all add: auth_segments)
  with e show ?thesis by (simp add: tally_world_def)
qed

end
