(* ===== verification/Webhook.thy ===== *)
theory Webhook
  imports Sample
begin

unbundle bit_operations_syntax

text \<open>
  Webhooks: the signed delivery of \<open>pkg/webhook\<close>, and \<open>webhook_dispatcher\<close>, which drains the outbox
  batch by batch. The network is a parameter: what the receiver answers to the n-th draw of the run.
\<close>

section \<open>pkg/webhook\<close>

record webhook_config =
  wh_url :: string
  wh_secret :: string
  wh_api_key :: string
  wh_timeout :: duration

definition Enabled_webhook :: "webhook_config \<Rightarrow> bool" where
  "Enabled_webhook cfg \<longleftrightarrow> wh_url cfg \<noteq> []"

text \<open>\<open>hmac.New(sha256.New, key)\<close> and \<open>hex.EncodeToString\<close> of the standard library.\<close>

definition xor_pad :: "nat \<Rightarrow> string \<Rightarrow> string" where
  "xor_pad n key = map (\<lambda>c. char_of (byte c XOR n)) (key @ replicate (64 - length key) (char_of (0::nat)))"

definition hmac_sha256 :: "ext \<Rightarrow> string \<Rightarrow> string \<Rightarrow> string" where
  "hmac_sha256 e key msg =
     (let k = (if length key > 64 then sha256 e key else key)
      in sha256 e (xor_pad 92 k @ sha256 e (xor_pad 54 k @ msg)))"

definition hex_digit :: "nat \<Rightarrow> char" where
  "hex_digit n = char_of (if n < 10 then 48 + n else 87 + n)"

definition hex_encode :: "string \<Rightarrow> string" where
  "hex_encode s = concat (map (\<lambda>c. [hex_digit (byte c div 16), hex_digit (byte c mod 16)]) s)"

definition Sign_webhook :: "ext \<Rightarrow> string \<Rightarrow> string \<Rightarrow> string \<Rightarrow> string" where
  "Sign_webhook e secret timestamp payload = hex_encode (hmac_sha256 e secret (timestamp @ ''.'' @ payload))"

definition Verify_webhook :: "ext \<Rightarrow> string \<Rightarrow> string \<Rightarrow> string \<Rightarrow> string \<Rightarrow> bool" where
  "Verify_webhook e secret timestamp signature payload \<longleftrightarrow>
     signature = ''sha256='' @ Sign_webhook e secret timestamp payload"

definition HeaderSignature :: string where "HeaderSignature = ''X-Goauth-Signature''"
definition HeaderTimestamp :: string where "HeaderTimestamp = ''X-Goauth-Timestamp''"
definition HeaderEvent :: string where "HeaderEvent = ''X-Goauth-Event''"
definition HeaderEventID :: string where "HeaderEventID = ''X-Goauth-Event-Id''"
definition HeaderAttempt :: string where "HeaderAttempt = ''X-Goauth-Attempt''"
definition HeaderAPIKey :: string where "HeaderAPIKey = ''X-Goauth-Api-Key''"

record delivery =
  dl_headers :: "(string \<times> string) list"
  dl_body :: string

record http_answer =
  ans_code :: int
  ans_status :: string
  ans_body :: string

text \<open>
  The network: whether the URL makes a request, the stored JSON of a payload, and the receiver's
  answer, an error of the client or a response.
\<close>

record network =
  url_valid :: "string \<Rightarrow> bool"
  raw_json :: "payload \<Rightarrow> string"
  post :: "nat \<Rightarrow> delivery \<Rightarrow> string + http_answer"

definition delivery_of ::
  "ext \<Rightarrow> webhook_config \<Rightarrow> string \<Rightarrow> string \<Rightarrow> int \<Rightarrow> string \<Rightarrow> instant \<Rightarrow> delivery" where
  "delivery_of e cfg eventID event attempt_no payload now =
     (let timestamp = print_int (Unix now) in
      \<lparr>dl_headers = [(''Content-Type'', ''application/json''), (''User-Agent'', ''goauth-webhook/1''),
           (HeaderEvent, event), (HeaderEventID, eventID), (HeaderAttempt, print_int attempt_no),
           (HeaderTimestamp, timestamp)]
         @ (if wh_secret cfg \<noteq> [] then [(HeaderSignature, ''sha256='' @ Sign_webhook e (wh_secret cfg) timestamp payload)] else [])
         @ (if wh_api_key cfg \<noteq> [] then [(HeaderAPIKey, wh_api_key cfg)] else []),
       dl_body = payload\<rparr>)"

definition accepted :: "http_answer \<Rightarrow> bool" where
  "accepted r \<longleftrightarrow> \<not> (ans_code r < 200 \<or> ans_code r > 299)"

definition Send :: "ext \<Rightarrow> network \<Rightarrow> webhook_config \<Rightarrow> string \<Rightarrow> string \<Rightarrow> int \<Rightarrow> string \<Rightarrow> ('r, unit) io" where
  "Send e net cfg eventID event attempt_no payload =
     (if \<not> url_valid net (wh_url cfg) then raise (Opaque ''webhook: build request'')
      else
        andthen Now (\<lambda>now.
        andthen (draw (\<lambda>n. post net n (delivery_of e cfg eventID event attempt_no payload now))) (\<lambda>r. case r of
            Inl m \<Rightarrow> raise (Wrap ''webhook: post'' (Opaque m))
          | Inr res \<Rightarrow>
              if \<not> accepted res
              then raise (Opaque (''webhook: '' @ wh_url cfg @ '' responded '' @ ans_status res @ '': '' @ TrimSpace (take 512 (ans_body res))))
              else ret ())))"

text \<open>\<open>err.Error()\<close> of what \<open>Send\<close> returns.\<close>

fun error_text :: "error \<Rightarrow> string" where
  "error_text (Opaque m) = m"
| "error_text (Wrap m err) = m @ '': '' @ error_text err"
| "error_text err = []"

section \<open>webhook_dispatcher\<close>

record dispatcher_config =
  dc_interval :: duration
  BatchSize :: int
  MaxAttempts :: int
  dc_base :: duration
  dc_max :: duration
  dc_timeout :: duration

definition dispatcher_defaults :: dispatcher_config where
  "dispatcher_defaults = \<lparr>dc_interval = 10 * Second, BatchSize = 50, MaxAttempts = 10, dc_base = 10 * Second,
     dc_max = Hour, dc_timeout = 10 * Second\<rparr>"

text \<open>\<open>2^(attempt-1)\<close> of an attempt below one is a fraction, which the conversion cuts to zero.\<close>

definition backoff :: "ext \<Rightarrow> dispatcher_config \<Rightarrow> int \<Rightarrow> duration" where
  "backoff e cfg attempt_no =
     (let d = int64 ((if attempt_no < 1 then 0 else pow_duration e (nat (attempt_no - 1))) * dc_base cfg)
      in if d \<le> 0 \<or> d > dc_max cfg then dc_max cfg else d)"

record dispatch_output =
  do_skipped :: bool
  do_delivered :: int
  do_failed :: int
  do_gave_up :: int

definition dispatched :: dispatch_output where
  "dispatched = \<lparr>do_skipped = False, do_delivered = 0, do_failed = 0, do_gave_up = 0\<rparr>"

definition record_failure ::
  "'r app \<Rightarrow> dispatcher_config \<Rightarrow> outbox_event \<Rightarrow> error \<Rightarrow> dispatch_output \<Rightarrow> ('r, dispatch_output) io" where
  "record_failure a cfg ev sendErr out =
     (let attempt_no = ev_attempts ev + 1; giveUp = (attempt_no \<ge> MaxAttempts cfg) in
      andthen Now (\<lambda>now.
      andthen (map_err (Wrap ''webhook_dispatcher: mark failed'')
        (MarkOutboxFailed (pg a) (ev_id ev) (error_text sendErr) (now + backoff (sys a) cfg attempt_no) giveUp)) (\<lambda>_.
      ret (if giveUp then out\<lparr>do_gave_up := do_gave_up out + 1\<rparr> else out\<lparr>do_failed := do_failed out + 1\<rparr>))))"

definition raw_payload :: "network \<Rightarrow> outbox_event \<Rightarrow> string" where
  "raw_payload net ev = (case ev_payload ev of None \<Rightarrow> [] | Some p \<Rightarrow> raw_json net p)"

definition deliver ::
  "'r app \<Rightarrow> network \<Rightarrow> webhook_config \<Rightarrow> dispatcher_config \<Rightarrow> outbox_event \<Rightarrow> dispatch_output
     \<Rightarrow> ('r, dispatch_output) io" where
  "deliver a net wh cfg ev out =
     attempt (Send (sys a) net wh (ev_id ev) (ev_event ev) (ev_attempts ev + 1) (raw_payload net ev)) (\<lambda>r. case r of
         Inr _ \<Rightarrow>
           andthen (map_err (Wrap ''webhook_dispatcher: mark delivered'') (MarkOutboxDelivered (pg a) (ev_id ev))) (\<lambda>_.
           ret (out\<lparr>do_delivered := do_delivered out + 1\<rparr>))
       | Inl sendErr \<Rightarrow> record_failure a cfg ev sendErr out)"

definition Execute_dispatch ::
  "'r app \<Rightarrow> network \<Rightarrow> webhook_config \<Rightarrow> dispatcher_config \<Rightarrow> ('r, dispatch_output) io" where
  "Execute_dispatch a net wh cfg =
     (if \<not> Enabled_webhook wh then ret (dispatched\<lparr>do_skipped := True\<rparr>)
      else
        andthen (map_err (Wrap ''webhook_dispatcher: claim'')
          (ClaimDueOutboxEvents (pg a) (BatchSize cfg) (dc_timeout cfg * 2 + 30 * Second))) (\<lambda>events.
        fold_act (deliver a net wh cfg) events dispatched))"

definition Interval_dispatch :: "webhook_config \<Rightarrow> dispatcher_config \<Rightarrow> duration" where
  "Interval_dispatch wh cfg = (if \<not> Enabled_webhook wh then 0 else dc_interval cfg)"

end
