(* ===== verification/WebhookLaws.thy ===== *)
theory WebhookLaws
  imports Webhook
begin

text \<open>
  What the dispatcher does to the outbox: no event is removed or rewritten, none is marked delivered
  that the receiver did not accept, none is given up before the attempt limit; the delay between
  attempts; what the signature binds; and a reply whose text cannot be stored. An event given up at
  the limit stays in the table, marked, and is not sent again.
\<close>

section \<open>The effect of one delivery\<close>

lemma query_effect:
  assumes "query a nf st w = (r, w')"
  shows "db w' = db w \<or> (\<exists>now u x. st now u (db w) = Inr (x, db w'))"
proof -
  obtain q where q: "exec_stmt (env a) st w = (q, w')"
    using assms by (auto simp: query_def map_err_simp split: prod.splits sum.splits)
  show ?thesis
  proof (cases q)
    case (Inl e)
    with q show ?thesis by (auto elim: exec_stmt_Inl_db)
  next
    case (Inr x)
    with q show ?thesis by (auto elim: exec_stmt_Inr)
  qed
qed

definition mark_delivered :: "uuid \<Rightarrow> instant \<Rightarrow> outbox_row \<Rightarrow> outbox_row" where
  "mark_delivered i now r = (if or_id r = i
     then r\<lparr>or_delivered := Some now, or_attempts := or_attempts r + 1, or_error := None\<rparr> else r)"

definition mark_failed :: "uuid \<Rightarrow> string option \<Rightarrow> instant \<Rightarrow> instant option \<Rightarrow> outbox_row \<Rightarrow> outbox_row" where
  "mark_failed i err next_at failed r = (if or_id r = i
     then r\<lparr>or_attempts := or_attempts r + 1, or_error := err, or_next := next_at, or_failed := failed\<rparr> else r)"

abbreviation map_outbox :: "(outbox_row \<Rightarrow> outbox_row) \<Rightarrow> db \<Rightarrow> db" where
  "map_outbox f d \<equiv> d\<lparr>ga_outbox := map f (ga_outbox d)\<rparr>"

lemma MarkOutboxDelivered_effect:
  assumes "MarkOutboxDelivered a s w = (r, w')"
  shows "db w' = db w \<or> (\<exists>i now. uuid_parse (env a) s = Some i \<and> db w' = map_outbox (mark_delivered i now) (db w))"
proof (cases "uuid_parse (env a) s")
  case (Some i)
  with assms have "query a None (q_MarkOutboxDelivered i) w = (r, w')"
    by (simp add: MarkOutboxDelivered_def parse_id_def andthen_simp)
  from query_effect [OF this] show ?thesis
  proof (elim disjE exE)
    fix now u x
    assume "q_MarkOutboxDelivered i now u (db w) = Inr (x, db w')"
    then have "db w' = map_outbox (mark_delivered i now) (db w)"
      by (simp add: q_MarkOutboxDelivered_def mark_delivered_def [abs_def])
    with Some show ?thesis by blast
  qed simp
qed (use assms in \<open>simp add: MarkOutboxDelivered_def parse_id_def andthen_simp\<close>)

lemma q_MarkOutboxFailed_Inr:
  assumes "q_MarkOutboxFailed i err next_at g now u d = Inr (x, d')"
  shows "(d' = d) \<or> (\<exists>n. d' = map_outbox (mark_failed i err n (if g then Some now else None)) d)"
proof (cases next_at)
  case (Some n)
  with assms have "d' = map_outbox (mark_failed i err n (if g then Some now else None)) d"
    by (simp add: q_MarkOutboxFailed_def mark_failed_def [abs_def] split: if_splits)
  then show ?thesis by blast
qed (use assms in \<open>simp add: q_MarkOutboxFailed_def split: if_splits\<close>)

lemma MarkOutboxFailed_effect:
  assumes "MarkOutboxFailed a s reason next_at giveUp w = (r, w')"
  shows "db w' = db w \<or> (\<exists>i err n now. uuid_parse (env a) s = Some i \<and>
    db w' = map_outbox (mark_failed i err n (if giveUp then Some now else None)) (db w))"
proof (cases "uuid_parse (env a) s")
  case (Some i)
  with assms have "query a None (q_MarkOutboxFailed i (text_in (truncate_to reason 500)) (ts next_at) giveUp) w = (r, w')"
    by (simp add: MarkOutboxFailed_def parse_id_def andthen_simp)
  from query_effect [OF this] show ?thesis
  proof (elim disjE exE)
    fix now u x
    assume "q_MarkOutboxFailed i (text_in (truncate_to reason 500)) (ts next_at) giveUp now u (db w) = Inr (x, db w')"
    from q_MarkOutboxFailed_Inr [OF this] Some show ?thesis by blast
  qed simp
qed (use assms in \<open>simp add: MarkOutboxFailed_def parse_id_def andthen_simp\<close>)

text \<open>The receiver accepted an event when it answered a request that carried its id with a 2xx status.\<close>

definition receiver_accepted :: "ext \<Rightarrow> network \<Rightarrow> uuid \<Rightarrow> bool" where
  "receiver_accepted e net i \<longleftrightarrow> (\<exists>n dl res s. post net n dl = Inr res \<and> 200 \<le> ans_code res \<and> ans_code res \<le> 299 \<and>
     (HeaderEventID, s) \<in> set (dl_headers dl) \<and> uuid_parse e s = Some i)"

lemma frame_Send [frame_rules]: "frame db (Send e net cfg i ev n pl)"
  unfolding Send_def by (intro frame_rules)

lemma Send_Inr:
  assumes "Send e net cfg s ev n pl w = (Inr u, w')" "uuid_parse e s = Some i"
  shows "receiver_accepted e net i"
proof -
  from assms(1) obtain now w1 where n: "(Now w :: (error + instant) \<times> _) = (Inr now, w1)"
    and c: "(case post net (draws w1) (delivery_of e cfg s ev n pl now) of
      Inl m \<Rightarrow> raise (Wrap ''webhook: post'' (Opaque m))
    | Inr res \<Rightarrow> if \<not> accepted res
        then raise (Opaque (''webhook: '' @ wh_url cfg @ '' responded '' @ ans_status res @ '': '' @ TrimSpace (take 512 (ans_body res))))
        else ret ()) (w1\<lparr>draws := draws w1 + 1\<rparr>) = (Inr u, w')"
    by (auto simp: Send_def andthen_Inr draw_def split: if_splits)
  then obtain k res where "post net k (delivery_of e cfg s ev n pl now) = Inr res" "accepted res"
    by (cases "post net (draws w1) (delivery_of e cfg s ev n pl now)") (auto split: if_splits)
  moreover have "(HeaderEventID, s) \<in> set (dl_headers (delivery_of e cfg s ev n pl now))"
    by (simp add: delivery_of_def Let_def)
  ultimately show ?thesis using assms(2) unfolding receiver_accepted_def accepted_def by force
qed

lemma deliver_effect:
  assumes "deliver a net wh cfg ev out w = (r, w')"
  shows "db w' = db w
    \<or> (\<exists>i now. uuid_parse (sys a) (ev_id ev) = Some i \<and> receiver_accepted (sys a) net i \<and>
         db w' = map_outbox (mark_delivered i now) (db w))
    \<or> (\<exists>i err n now. uuid_parse (sys a) (ev_id ev) = Some i \<and>
         db w' = map_outbox (mark_failed i err n (if ev_attempts ev + 1 \<ge> MaxAttempts cfg then Some now else None)) (db w))"
proof -
  obtain q w1 where s: "Send (sys a) net wh (ev_id ev) (ev_event ev) (ev_attempts ev + 1) (raw_payload net ev) w = (q, w1)"
    by fastforce
  note d = frameD [OF frame_Send s]
  show ?thesis
  proof (cases q)
    case (Inr u)
    obtain q2 w2 where m: "MarkOutboxDelivered (pg a) (ev_id ev) w1 = (q2, w2)" by fastforce
    from assms s m Inr have "db w' = db w2"
      by (auto simp: deliver_def attempt_simp andthen_simp map_err_simp split: sum.splits)
    with MarkOutboxDelivered_effect [OF m] Send_Inr [OF s [unfolded Inr]] d show ?thesis by auto
  next
    case (Inl err)
    obtain now w2 where n: "(Now w1 :: (error + instant) \<times> _) = (Inr now, w2)"
      by (cases "readings w1") (auto simp: Now_def)
    have d2: "db w2 = db w" using frameD [OF frame_Now [of db, simplified] n] d by simp
    let ?g = "ev_attempts ev + 1 \<ge> MaxAttempts cfg"
    obtain q3 w3 where m: "MarkOutboxFailed (pg a) (ev_id ev) (error_text err)
        (now + backoff (sys a) cfg (ev_attempts ev + 1)) ?g w2 = (q3, w3)" by fastforce
    from assms s m n Inl have dd: "db w' = db w3"
      by (auto simp: deliver_def record_failure_def Let_def attempt_simp andthen_simp map_err_simp split: sum.splits)
    show ?thesis unfolding dd using MarkOutboxFailed_effect [OF m] unfolding d2 by blast
  qed
qed

lemma claim_effect:
  assumes "ClaimDueOutboxEvents a lim ls w = (r, w')"
  shows "db w' = db w \<or> (\<exists>ids n. db w' = map_outbox (\<lambda>r. if or_id r \<in> ids then r\<lparr>or_next := n\<rparr> else r) (db w))"
proof -
  obtain q where "query a None (q_ClaimDueOutboxEvents (int32 lim) (int32 (whole_seconds ls))) w = (q, w')"
    using assms by (auto simp: ClaimDueOutboxEvents_def andthen_simp split: prod.splits sum.splits)
  from query_effect [OF this] show ?thesis
  proof (elim disjE exE)
    fix now u x
    assume "q_ClaimDueOutboxEvents (int32 lim) (int32 (whole_seconds ls)) now u (db w) = Inr (x, db w')"
    then have "db w' = map_outbox (\<lambda>r. if or_id r \<in> set (claimed_ids (int32 lim) now (db w))
        then r\<lparr>or_next := now + int32 (whole_seconds ls) * Second\<rparr> else r) (db w)"
      by (simp add: q_ClaimDueOutboxEvents_def Let_def split: if_splits)
    then show ?thesis by blast
  qed simp
qed

section \<open>Nothing is removed, nothing is marked that was not accepted\<close>

text \<open>How an event may change: not at all but for its delivery state, and delivered only if accepted.\<close>

definition event_kept :: "ext \<Rightarrow> network \<Rightarrow> outbox_row \<Rightarrow> outbox_row \<Rightarrow> bool" where
  "event_kept e net r0 r \<longleftrightarrow>
     or_id r = or_id r0 \<and> or_event r = or_event r0 \<and> or_payload r = or_payload r0 \<and> or_created r = or_created r0 \<and>
     or_seq r = or_seq r0 \<and> (or_delivered r \<noteq> or_delivered r0 \<longrightarrow> receiver_accepted e net (or_id r0))"

definition outbox_kept :: "ext \<Rightarrow> network \<Rightarrow> db \<Rightarrow> db \<Rightarrow> bool" where
  "outbox_kept e net d0 d \<longleftrightarrow>
     d = d0\<lparr>ga_outbox := ga_outbox d\<rparr> \<and> list_all2 (event_kept e net) (ga_outbox d0) (ga_outbox d)"

lemma outbox_kept_refl: "outbox_kept e net d d"
  by (simp add: outbox_kept_def list.rel_refl event_kept_def)

lemma outbox_kept_map:
  assumes "outbox_kept e net d0 d" "\<And>r0 r. event_kept e net r0 r \<Longrightarrow> event_kept e net r0 (f r)"
  shows "outbox_kept e net d0 (map_outbox f d)"
proof -
  have "list_all2 (event_kept e net) (ga_outbox d0) (map f (ga_outbox d))"
    using assms by (auto simp: outbox_kept_def list_all2_map2 elim: list_all2_mono)
  moreover have "map_outbox f d = d0\<lparr>ga_outbox := map f (ga_outbox d)\<rparr>"
    using assms(1) by (metis (no_types, lifting) db.update_convs(6) db.surjective outbox_kept_def)
  ultimately show ?thesis by (simp add: outbox_kept_def)
qed

lemma deliver_kept:
  assumes "outbox_kept (sys a) net d0 (db w)" "deliver a net wh cfg ev out w = (r, w')"
  shows "outbox_kept (sys a) net d0 (db w')"
  using deliver_effect [OF assms(2)] assms(1)
  by (auto intro!: outbox_kept_map simp: event_kept_def mark_delivered_def mark_failed_def)

lemma fold_kept:
  "outbox_kept (sys a) net d0 (db w) \<Longrightarrow> fold_act (deliver a net wh cfg) evs out w = (r, w')
     \<Longrightarrow> outbox_kept (sys a) net d0 (db w')"
proof (induction evs arbitrary: out w)
  case (Cons ev evs)
  obtain q w1 where d: "deliver a net wh cfg ev out w = (q, w1)" by fastforce
  from deliver_kept [OF Cons.prems(1) d] Cons.IH Cons.prems(2) d show ?case
    by (cases q) (auto simp: andthen_simp)
qed auto

lemma dispatch_keeps:
  assumes "Execute_dispatch a net wh cfg w = (r, w')"
  shows "outbox_kept (sys a) net (db w) (db w')"
proof (cases "Enabled_webhook wh")
  case True
  obtain q w1 where c: "ClaimDueOutboxEvents (pg a) (BatchSize cfg) (dc_timeout cfg * 2 + 30 * Second) w = (q, w1)"
    by fastforce
  have e1: "outbox_kept (sys a) net (db w) (db w1)"
    using claim_effect [OF c]
    by (auto intro!: outbox_kept_map outbox_kept_refl simp: event_kept_def)
  show ?thesis
  proof (cases q)
    case (Inr evs)
    with assms True c have "fold_act (deliver a net wh cfg) evs dispatched w1 = (r, w')"
      by (simp add: Execute_dispatch_def andthen_simp map_err_simp)
    from fold_kept [OF e1 this] show ?thesis .
  qed (use assms True c e1 in \<open>simp add: Execute_dispatch_def andthen_simp map_err_simp\<close>)
qed (use assms in \<open>simp add: Execute_dispatch_def outbox_kept_refl\<close>)

text \<open>A receiver that rejects everything, and an outbox with two events.\<close>

definition sample_event :: "uuid \<Rightarrow> nat \<Rightarrow> outbox_row" where
  "sample_event i k = \<lparr>or_id = i, or_event = EventUserCreated,
     or_payload = \<lparr>pl_user_id = sample_uuid_text 1, pl_username = ''alice'', pl_email = [], pl_status = ''active'',
       pl_role = ''user'', pl_created = 1, pl_updated = 1\<rparr>,
     or_attempts = 0, or_next = 1, or_delivered = None, or_failed = None, or_error = None, or_created = 1, or_seq = k\<rparr>"

definition eventful_world :: "unit world" where
  "eventful_world = sample_world\<lparr>db := sample_db\<lparr>ga_outbox := [sample_event 40 0, sample_event 41 1], outbox_serial := 2\<rparr>\<rparr>"

definition answering :: "int \<Rightarrow> string \<Rightarrow> network" where
  "answering code body = \<lparr>url_valid = (\<lambda>_. True), raw_json = (\<lambda>p. ''{}''),
     post = (\<lambda>n dl. Inr \<lparr>ans_code = code, ans_status = ''418 teapot'', ans_body = body\<rparr>)\<rparr>"

definition sample_webhook :: webhook_config where
  "sample_webhook = \<lparr>wh_url = ''https://hooks.example'', wh_secret = ''secret'', wh_api_key = [], wh_timeout = 10 * Second\<rparr>"

section \<open>Given up only after the attempt limit\<close>

text \<open>
  The state of the loop: the events still to come have not been touched, no event was counted more
  than once, and whatever was given up since the batch was claimed was tried often enough.
\<close>

definition tried :: "ext \<Rightarrow> int \<Rightarrow> outbox_event list \<Rightarrow> outbox_row \<Rightarrow> outbox_row \<Rightarrow> bool" where
  "tried e limit evs r0 r \<longleftrightarrow>
     or_id r = or_id r0 \<and> (or_failed r \<noteq> None \<longrightarrow> or_failed r0 \<noteq> None \<or> limit \<le> or_attempts r) \<and>
     (or_attempts r = or_attempts r0 \<or> or_attempts r = or_attempts r0 + 1) \<and>
     ((\<exists>ev\<in>set evs. uuid_parse e (ev_id ev) = Some (or_id r0)) \<longrightarrow> or_attempts r = or_attempts r0)"

definition fresh_batch :: "ext \<Rightarrow> outbox_row list \<Rightarrow> outbox_event list \<Rightarrow> bool" where
  "fresh_batch e rows evs \<longleftrightarrow> distinct (map (\<lambda>ev. uuid_parse e (ev_id ev)) evs) \<and>
     (\<forall>ev\<in>set evs. \<forall>r0\<in>set rows. uuid_parse e (ev_id ev) = Some (or_id r0) \<longrightarrow> ev_attempts ev = or_attempts r0)"

lemma list_all2_right: "list_all2 P xs ys \<Longrightarrow> y \<in> set ys \<Longrightarrow> \<exists>x\<in>set xs. P x y"
  by (induction rule: list_all2_induct) auto

lemma tried_map:
  assumes "list_all2 (tried e limit evs) rows rs"
    and "\<And>r0 r. r0 \<in> set rows \<Longrightarrow> tried e limit evs r0 r \<Longrightarrow> tried e limit evs' r0 (f r)"
  shows "list_all2 (tried e limit evs') rows (map f rs)"
  using assms by (auto simp: list_all2_map2 list_all2_conv_all_nth)

lemma tried_weaken: "tried e limit (ev # evs) r0 r \<Longrightarrow> tried e limit evs r0 r"
  by (auto simp: tried_def)

lemma deliver_tried:
  assumes J: "list_all2 (tried (sys a) (MaxAttempts cfg) (ev # evs)) rows (ga_outbox (db w))"
    and fresh: "fresh_batch (sys a) rows (ev # evs)"
    and d: "deliver a net wh cfg ev out w = (r, w')"
  shows "list_all2 (tried (sys a) (MaxAttempts cfg) evs) rows (ga_outbox (db w'))"
proof -
  let ?e = "sys a" and ?m = "MaxAttempts cfg"
  have other: "uuid_parse ?e (ev_id ev') \<noteq> uuid_parse ?e (ev_id ev)" if "ev' \<in> set evs" for ev'
    using fresh imageI [OF that, of "\<lambda>ev. uuid_parse ?e (ev_id ev)"] by (auto simp: fresh_batch_def)
  have deliv: "tried ?e ?m evs r0 (mark_delivered i now q)"
    if "tried ?e ?m (ev # evs) r0 q" "uuid_parse ?e (ev_id ev) = Some i" for r0 q i now
    using that other by (fastforce simp: tried_def mark_delivered_def)
  have fail: "tried ?e ?m evs r0 (mark_failed i err n (if ev_attempts ev + 1 \<ge> ?m then Some now else None) q)"
    if "r0 \<in> set rows" "tried ?e ?m (ev # evs) r0 q" "uuid_parse ?e (ev_id ev) = Some i" for r0 q i err n now
  proof (cases "or_id q = i")
    case True
    have "ev_attempts ev = or_attempts r0" "or_attempts q = or_attempts r0"
      using fresh that True by (auto simp: fresh_batch_def tried_def)
    with that True other show ?thesis by (fastforce simp: tried_def mark_failed_def)
  next
    case False
    with tried_weaken [OF that(2)] show ?thesis by (simp add: mark_failed_def)
  qed
  from deliver_effect [OF d] show ?thesis
  proof (elim disjE exE conjE)
    assume "db w' = db w"
    with J tried_weaken show ?thesis by (auto elim: list_all2_mono)
  next
    fix i now
    assume "uuid_parse ?e (ev_id ev) = Some i" "db w' = map_outbox (mark_delivered i now) (db w)"
    with J deliv show ?thesis by (auto intro!: tried_map)
  next
    fix i err n now
    assume "uuid_parse ?e (ev_id ev) = Some i"
      "db w' = map_outbox (mark_failed i err n (if ev_attempts ev + 1 \<ge> ?m then Some now else None)) (db w)"
    with J fail show ?thesis by (simp only: db.select_convs db.update_convs db.ext_inject) (auto intro!: tried_map)
  qed
qed

lemma fold_tried:
  assumes "list_all2 (tried (sys a) (MaxAttempts cfg) evs) rows (ga_outbox (db w))" "fresh_batch (sys a) rows evs"
    and "fold_act (deliver a net wh cfg) evs out w = (r, w')"
  shows "list_all2 (tried (sys a) (MaxAttempts cfg) []) rows (ga_outbox (db w'))"
  using assms
proof (induction evs arbitrary: out w)
  case (Cons ev evs)
  obtain q w1 where d: "deliver a net wh cfg ev out w = (q, w1)" by fastforce
  note step = deliver_tried [OF Cons.prems(1,2) d]
  from Cons.prems(2) have "fresh_batch (sys a) rows evs" by (simp add: fresh_batch_def)
  from Cons.IH [OF step this] Cons.prems(3) d step show ?case
    by (cases q) (auto simp: andthen_simp tried_def elim: list_all2_mono)
qed auto

lemma claim_fresh:
  assumes "ClaimDueOutboxEvents a lim ls w = (Inr evs, w')" "db_ok (db w)" "uuid_law (env a)"
  shows "fresh_batch (env a) (ga_outbox (db w')) evs"
proof -
  from assms(1) obtain rows where q: "query a None (q_ClaimDueOutboxEvents (int32 lim) (int32 (whole_seconds ls))) w = (Inr rows, w')"
    and evs: "evs = map (toDomainEvent (env a)) rows"
    by (auto simp: ClaimDueOutboxEvents_def act_inv)
  from q obtain now u where st: "q_ClaimDueOutboxEvents (int32 lim) (int32 (whole_seconds ls)) now u (db w) = Inr (rows, db w')"
    by (rule query_Inr)
  define ids where "ids = set (claimed_ids (int32 lim) now (db w))"
  define n where "n = now + int32 (whole_seconds ls) * Second"
  from st have rows: "rows = map (\<lambda>r. r\<lparr>or_next := n\<rparr>) (filter (\<lambda>r. or_id r \<in> ids) (ga_outbox (db w)))"
    by (auto simp: q_ClaimDueOutboxEvents_def Let_def ids_def n_def split: if_splits)
  from st have "map_outbox (\<lambda>r. if or_id r \<in> set (claimed_ids (int32 lim) now (db w))
      then r\<lparr>or_next := now + int32 (whole_seconds ls) * Second\<rparr> else r) (db w) = db w'"
    by (simp add: q_ClaimDueOutboxEvents_def Let_def split: if_splits)
  from arg_cong [OF this, of ga_outbox]
  have d: "ga_outbox (db w') = map (\<lambda>r. if or_id r \<in> ids then r\<lparr>or_next := n\<rparr> else r) (ga_outbox (db w))"
    unfolding ids_def n_def by simp
  have dist: "distinct (map or_id (ga_outbox (db w)))" using assms(2) by (simp add: db_ok_def outbox_ok_def)
  have parse: "uuid_parse (env a) (ev_id (toDomainEvent (env a) r)) = Some (or_id r)" for r
    using assms(3) by (simp add: toDomainEvent_def uuid_law_def)
  have "map (\<lambda>ev. uuid_parse (env a) (ev_id ev)) evs = map Some (map or_id (filter (\<lambda>r. or_id r \<in> ids) (ga_outbox (db w))))"
    by (simp add: evs rows parse comp_def)
  then have "distinct (map (\<lambda>ev. uuid_parse (env a) (ev_id ev)) evs)"
    using dist by (simp add: distinct_map_filter distinct_map inj_on_def)
  moreover have "ev_attempts ev = or_attempts r0"
    if ev: "ev \<in> set evs" and r0: "r0 \<in> set (ga_outbox (db w'))" and p: "uuid_parse (env a) (ev_id ev) = Some (or_id r0)" for ev r0
  proof -
    from ev obtain r where r: "r \<in> set (ga_outbox (db w))" "ev = toDomainEvent (env a) (r\<lparr>or_next := n\<rparr>)"
      unfolding evs rows by auto
    from r0 obtain r' where r': "r' \<in> set (ga_outbox (db w))" "or_id r0 = or_id r'" "or_attempts r0 = or_attempts r'"
      unfolding d by (auto split: if_splits)
    from p parse [of "r\<lparr>or_next := n\<rparr>"] r(2) r'(2) have "or_id r = or_id r'" by simp
    with distinct_map_inj [OF dist r(1) r'(1)] r r' show ?thesis by (simp add: toDomainEvent_def)
  qed
  ultimately show ?thesis by (simp add: fresh_batch_def)
qed

lemma dispatch_tried:
  assumes "Execute_dispatch a net wh cfg w = (r, w')" "db_ok (db w)" "uuid_law (sys a)"
  shows "list_all2 (tried (sys a) (MaxAttempts cfg) []) (ga_outbox (db w)) (ga_outbox (db w'))"
proof (cases "Enabled_webhook wh")
  case True
  let ?J = "\<lambda>evs. list_all2 (tried (sys a) (MaxAttempts cfg) evs)"
  obtain q w1 where c: "ClaimDueOutboxEvents (pg a) (BatchSize cfg) (dc_timeout cfg * 2 + 30 * Second) w = (q, w1)"
    by fastforce
  have claimed: "list_all2 (\<lambda>r0 r. or_id r = or_id r0 \<and> or_failed r = or_failed r0 \<and> or_attempts r = or_attempts r0)
      (ga_outbox (db w)) (ga_outbox (db w1))"
    using claim_effect [OF c] by (auto simp: list_all2_conv_all_nth)
  show ?thesis
  proof (cases q)
    case (Inr evs)
    have init: "?J evs (ga_outbox (db w1)) (ga_outbox (db w1))" by (simp add: list.rel_refl tried_def)
    from assms(1) True c Inr have f: "fold_act (deliver a net wh cfg) evs dispatched w1 = (r, w')"
      by (simp add: Execute_dispatch_def andthen_simp map_err_simp)
    from claimed fold_tried [OF init claim_fresh [OF c [unfolded Inr] assms(2,3)] f] show ?thesis
      by (rule list_all2_trans [rotated]) (auto simp: tried_def)
  next
    case (Inl e)
    with assms(1) True c have "w' = w1" by (simp add: Execute_dispatch_def andthen_simp map_err_simp)
    with claimed show ?thesis by (auto simp: tried_def elim: list_all2_mono)
  qed
qed (use assms in \<open>simp add: Execute_dispatch_def list.rel_refl tried_def\<close>)

text \<open>
  How a run may change an event: only in its delivery state. It is marked delivered only if the
  receiver accepted it, it is given up only when it was tried as often as the limit, and at most one
  attempt is counted. So an event neither accepted nor tried to the limit is still to be delivered.
\<close>

definition event_evolves :: "ext \<Rightarrow> network \<Rightarrow> int \<Rightarrow> outbox_row \<Rightarrow> outbox_row \<Rightarrow> bool" where
  "event_evolves e net limit r0 r \<longleftrightarrow>
     or_id r = or_id r0 \<and> or_event r = or_event r0 \<and> or_payload r = or_payload r0 \<and> or_created r = or_created r0 \<and>
     or_seq r = or_seq r0 \<and> (or_delivered r \<noteq> or_delivered r0 \<longrightarrow> receiver_accepted e net (or_id r0)) \<and>
     (or_failed r \<noteq> None \<longrightarrow> or_failed r0 \<noteq> None \<or> limit \<le> or_attempts r) \<and>
     (or_attempts r = or_attempts r0 \<or> or_attempts r = or_attempts r0 + 1)"

definition outbox_evolves :: "ext \<Rightarrow> network \<Rightarrow> int \<Rightarrow> db \<Rightarrow> db \<Rightarrow> bool" where
  "outbox_evolves e net limit d0 d \<longleftrightarrow>
     d = d0\<lparr>ga_outbox := ga_outbox d\<rparr> \<and> list_all2 (event_evolves e net limit) (ga_outbox d0) (ga_outbox d)"

text \<open>
  C21. Events are delivered, kept or tried to the limit. Whatever the receiver answers, whatever
  fails, a run of the dispatcher changes nothing in the database but the delivery state of outbox
  events: no event is removed, added, reordered or rewritten; one is marked delivered only if the
  receiver answered a request that carried its id with a status between 200 and 299; one is given up
  only when its attempts have reached the limit; and no event is counted more than one attempt.
\<close>

theorem delivered_means_accepted:
  assumes "Execute_dispatch a net wh cfg w = (r, w')" "db_ok (db w)" "uuid_law (sys a)"
  shows "outbox_evolves (sys a) net (MaxAttempts cfg) (db w) (db w')"
  using dispatch_keeps [OF assms(1)] dispatch_tried [OF assms]
  by (auto simp: outbox_kept_def outbox_evolves_def list_all2_conv_all_nth event_kept_def event_evolves_def tried_def)

text \<open>One event accepted, one refused: the first is delivered, the second waits for its next attempt.\<close>

definition choosy :: network where
  "choosy = \<lparr>url_valid = (\<lambda>_. True), raw_json = (\<lambda>p. ''{}''),
     post = (\<lambda>n dl. Inr \<lparr>ans_code = (if (HeaderEventID, sample_uuid_text 40) \<in> set (dl_headers dl) then 204 else 500),
       ans_status = ''as it likes'', ans_body = []\<rparr>)\<rparr>"

definition after_choice :: "unit world" where
  "after_choice = snd (Execute_dispatch sample_app choosy sample_webhook dispatcher_defaults eventful_world)"

lemma after_choice: "map (\<lambda>r. (or_id r, or_delivered r \<noteq> None, or_attempts r)) (ga_outbox (db after_choice)) = [(40, True, 1), (41, False, 1)]"
  by code_simp

theorem delivered_means_accepted_witness:
  "outbox_evolves sample_env choosy (MaxAttempts dispatcher_defaults) (db eventful_world) (db after_choice) \<and>
   map (\<lambda>r. (or_id r, or_delivered r \<noteq> None, or_attempts r)) (ga_outbox (db after_choice)) = [(40, True, 1), (41, False, 1)]"
proof -
  obtain r w' where e: "Execute_dispatch sample_app choosy sample_webhook dispatcher_defaults eventful_world = (r, w')"
    by fastforce
  have ok: "db_ok (db eventful_world)" by code_simp
  from delivered_means_accepted [OF e ok] sample_uuid_law e after_choice show ?thesis by (simp add: after_choice_def)
qed


definition impatient :: dispatcher_config where
  "impatient = dispatcher_defaults\<lparr>MaxAttempts := 1\<rparr>"

definition after_rejection :: "unit world" where
  "after_rejection = snd (Execute_dispatch sample_app (answering 418 ''no'') sample_webhook impatient eventful_world)"

lemma after_rejection: "case ga_outbox (db after_rejection) of [] \<Rightarrow> False | r # _ \<Rightarrow> or_failed r \<noteq> None \<and> or_id r = 40"
  by code_simp


section \<open>The delay before the next attempt\<close>

text \<open>
  C23. The delay before the next attempt. It is positive and never above the configured maximum,
  whatever the attempt and however the 64-bit product of the exponential wraps; and it is exactly the
  base doubled once per earlier attempt, cut at the maximum, as long as that product fits 64 bits.
\<close>

theorem retry_delay_bounds:
  assumes "0 < dc_max cfg"
  shows "0 < backoff e cfg n \<and> backoff e cfg n \<le> dc_max cfg \<and>
    (1 \<le> n \<longrightarrow> n \<le> 63 \<longrightarrow> 0 < dc_base cfg \<longrightarrow> 2 ^ nat (n - 1) * dc_base cfg < 2 ^ 63 \<longrightarrow>
       backoff e cfg n = min (2 ^ nat (n - 1) * dc_base cfg) (dc_max cfg))"
proof -
  have "backoff e cfg n = min (2 ^ nat (n - 1) * dc_base cfg) (dc_max cfg)"
    if "1 \<le> n" "n \<le> 63" "0 < dc_base cfg" "2 ^ nat (n - 1) * dc_base cfg < 2 ^ 63"
  proof -
    define p where "p = 2 ^ nat (n - 1) * dc_base cfg"
    have p: "0 < p" "p < 2 ^ 63" using that(3,4) by (simp_all add: p_def)
    then have "int64 p = p" by (intro int64_id) linarith+
    moreover have "(if n < 1 then 0 else pow_duration e (nat (n - 1))) * dc_base cfg = p"
    proof -
      have "nat (n - 1) < 63" using that(1,2) by simp
      then show ?thesis using that(1) by (simp add: pow_duration_def p_def)
    qed
    ultimately have "backoff e cfg n = (if p > dc_max cfg then dc_max cfg else p)"
      using p(1) by (simp add: backoff_def Let_def)
    then show ?thesis by (simp add: p_def min_def)
  qed
  then show ?thesis using assms by (auto simp: backoff_def Let_def)
qed

theorem retry_delay_bounds_witness:
  "backoff sample_env dispatcher_defaults 4 = 80 * Second \<and> 0 < backoff sample_env dispatcher_defaults 64"
proof -
  have "0 < dc_max dispatcher_defaults" by (simp add: dispatcher_defaults_def Hour_def Minute_def Second_def)
  from retry_delay_bounds [OF this, of sample_env 4] retry_delay_bounds [OF this, of sample_env 64]
  show ?thesis by (simp add: dispatcher_defaults_def Hour_def Minute_def Second_def)
qed

section \<open>What the signature binds\<close>

text \<open>
  No library that returns 32 bytes can be injective on all messages; what is asked of HMAC-SHA-256 is
  that the two messages compared, under the key in use, do not collide. Whoever finds two that do has
  broken the function.
\<close>

definition hmac_separates :: "ext \<Rightarrow> string \<Rightarrow> string \<Rightarrow> string \<Rightarrow> bool" where
  "hmac_separates e key m m' \<longleftrightarrow> (hmac_sha256 e key m = hmac_sha256 e key m' \<longrightarrow> m = m')"

text \<open>The text that is signed: the timestamp, a dot, the body.\<close>

definition signed_text :: "int \<Rightarrow> string \<Rightarrow> string" where
  "signed_text t body = print_int t @ ''.'' @ body"

lemma hex_digit_inj: "x < 16 \<Longrightarrow> y < 16 \<Longrightarrow> hex_digit x = hex_digit y \<Longrightarrow> x = y"
proof -
  assume "x < 16" "y < 16" "hex_digit x = hex_digit y"
  then have "byte (hex_digit x) = byte (hex_digit y)" "(if x < 10 then 48 + x else 87 + x) < 256"
      "(if y < 10 then 48 + y else 87 + y) < 256" by auto
  then show "x = y" by (auto simp: hex_digit_def byte_def split: if_splits)
qed

lemma hex_encode_inj: "hex_encode s = hex_encode t \<Longrightarrow> s = t"
proof (induction s arbitrary: t)
  case Nil
  then show ?case by (cases t) (simp_all add: hex_encode_def)
next
  case (Cons c s)
  then obtain d t' where t: "t = d # t'" by (cases t) (simp_all add: hex_encode_def)
  with Cons.prems have "hex_digit (byte c div 16) = hex_digit (byte d div 16)"
    "hex_digit (byte c mod 16) = hex_digit (byte d mod 16)" and rest: "hex_encode s = hex_encode t'"
    by (simp_all add: hex_encode_def)
  moreover have "byte c div 16 < 16" "byte d div 16 < 16" using byte_bound [of c] byte_bound [of d] by simp_all
  ultimately have "byte c div 16 = byte d div 16" "byte c mod 16 = byte d mod 16"
    by (auto intro: hex_digit_inj)
  then have "byte c = byte d" by (metis div_mult_mod_eq)
  then show ?case using t Cons.IH [OF rest] by (simp add: byte_def)
qed

text \<open>A timestamp is decimal, so the first dot ends it.\<close>

lemma dotted_inj:
  assumes "a @ ''.'' @ x = b @ ''.'' @ y" "CHR ''.'' \<notin> set a" "CHR ''.'' \<notin> set b"
  shows "a = b \<and> x = y"
  using assms
proof (induction a arbitrary: b)
  case Nil
  then show ?case by (cases b) auto
next
  case (Cons c a)
  then show ?case by (cases b) auto
qed

lemma print_int_no_dot: "CHR ''.'' \<notin> set (print_int i)"
proof -
  have "CHR ''.'' \<notin> set (print_nat n)" for n
    using print_nat_digits [of n] by (auto simp: list_all_iff digit_def in_range_def byte_def)
  then show ?thesis by (simp add: print_int_def)
qed

text \<open>
  C24. A signature is good for one timestamp and one body. What the service sends verifies at a
  receiver that knows the secret; and a captured signature verifies with another decimal timestamp or
  another body only when the HMAC of that message collides with the HMAC of the one sent, so a request
  can be replayed neither later nor with another payload.
\<close>

theorem signature_binds:
  assumes "hmac_separates e (wh_secret cfg) (signed_text (Unix now) body) (signed_text t body')" "wh_secret cfg \<noteq> []"
    and "(HeaderSignature, sig) \<in> set (dl_headers (delivery_of e cfg i ev n body now))"
  shows "Verify_webhook e (wh_secret cfg) (print_int t) sig body' \<longleftrightarrow> print_int t = print_int (Unix now) \<and> body' = body"
proof -
  have sig: "sig = ''sha256='' @ Sign_webhook e (wh_secret cfg) (print_int (Unix now)) body"
    using assms(2,3) by (auto simp: delivery_of_def Let_def HeaderSignature_def HeaderEvent_def HeaderEventID_def
        HeaderAttempt_def HeaderTimestamp_def HeaderAPIKey_def split: if_splits)
  have "Verify_webhook e (wh_secret cfg) (print_int t) sig body' \<longleftrightarrow>
      Sign_webhook e (wh_secret cfg) (print_int (Unix now)) body = Sign_webhook e (wh_secret cfg) (print_int t) body'"
    by (simp add: Verify_webhook_def sig)
  also have "\<dots> \<longleftrightarrow> print_int (Unix now) @ ''.'' @ body = print_int t @ ''.'' @ body'"
    using assms(1) hex_encode_inj unfolding Sign_webhook_def hmac_separates_def signed_text_def by metis
  also have "\<dots> \<longleftrightarrow> print_int t = print_int (Unix now) \<and> body' = body"
    using dotted_inj [of "print_int (Unix now)" body "print_int t" body'] print_int_no_dot by auto
  finally show ?thesis .
qed

text \<open>A digest of one byte: it collides somewhere, and not on the messages compared.\<close>

definition short_mac :: ext where
  "short_mac = sample_env\<lparr>sha256 := (\<lambda>m. [char_of (sum_list (map byte m) mod 256)])\<rparr>"

theorem signature_binds_witness:
  "\<not> Verify_webhook short_mac ''secret'' (print_int 9)
     (''sha256='' @ Sign_webhook short_mac ''secret'' (print_int (Unix 10)) ''{}'') ''{ }'' \<and>
   Verify_webhook short_mac ''secret'' (print_int (Unix 10))
     (''sha256='' @ Sign_webhook short_mac ''secret'' (print_int (Unix 10)) ''{}'') ''{}'' \<and>
   hmac_sha256 short_mac ''secret'' ''ab'' = hmac_sha256 short_mac ''secret'' ''ba''"
proof -
  have sent: "(HeaderSignature, ''sha256='' @ Sign_webhook short_mac ''secret'' (print_int (Unix 10)) ''{}'')
      \<in> set (dl_headers (delivery_of short_mac sample_webhook ''i'' ''e'' 1 ''{}'' 10))"
    by (simp add: delivery_of_def Let_def sample_webhook_def)
  have apart: "hmac_separates short_mac (wh_secret sample_webhook) (signed_text (Unix 10) ''{}'') (signed_text 9 ''{ }'')"
    "hmac_separates short_mac (wh_secret sample_webhook) (signed_text (Unix 10) ''{}'') (signed_text (Unix 10) ''{}'')"
    "hmac_sha256 short_mac ''secret'' ''ab'' = hmac_sha256 short_mac ''secret'' ''ba''"
    by code_simp+
  from signature_binds [OF apart(1) _ sent] signature_binds [OF apart(2) _ sent] apart(3)
  show ?thesis by (simp add: sample_webhook_def)
qed

section \<open>A reply that cannot be stored\<close>

definition rejection_text :: "webhook_config \<Rightarrow> http_answer \<Rightarrow> string" where
  "rejection_text wh res = ''webhook: '' @ wh_url wh @ '' responded '' @ ans_status res @ '': '' @ TrimSpace (take 512 (ans_body res))"

lemma exec_stmt_refused:
  assumes "\<And>now u. st now u (db w) = Inl err"
  shows "\<exists>p w'. exec_stmt e st w = (Inl p, w') \<and> db w' = db w"
proof -
  obtain r w' where x: "exec_stmt e st w = (r, w')" by fastforce
  then show ?thesis
    by (cases r) (use assms in \<open>auto elim!: exec_stmt_Inr exec_stmt_Inl_db\<close>)
qed

lemma rejected_unstorable:
  assumes "\<And>n dl. post net n dl = Inr res" "\<not> accepted res" "url_valid net (wh_url wh)"
    and bad: "\<not> pg_text (truncate_to (rejection_text wh res) 500)"
  shows "\<exists>err w'. deliver a net wh cfg ev out w = (Inl err, w') \<and> db w' = db w"
proof -
  obtain t w1 where n1: "(Now w :: (error + instant) \<times> _) = (Inr t, w1)" by (cases "readings w") (auto simp: Now_def)
  let ?w2 = "w1\<lparr>draws := draws w1 + 1\<rparr>"
  have s: "Send (sys a) net wh (ev_id ev) (ev_event ev) (ev_attempts ev + 1) (raw_payload net ev) w
      = (Inl (Opaque (rejection_text wh res)), ?w2)"
    using assms(1-3) n1 by (simp add: Send_def andthen_simp draw_def rejection_text_def)
  obtain t2 w3 where n2: "(Now ?w2 :: (error + instant) \<times> _) = (Inr t2, w3)" by (cases "readings ?w2") (auto simp: Now_def)
  have d3: "db w3 = db w"
    using frameD [OF frame_Now [of db, simplified] n1] frameD [OF frame_Now [of db, simplified] n2] by simp
  have ne: "text_in (truncate_to (rejection_text wh res) 500) = Some (truncate_to (rejection_text wh res) 500)"
    by (simp add: text_in_def truncate_to_def rejection_text_def)
  obtain err w4 where m: "MarkOutboxFailed (pg a) (ev_id ev) (rejection_text wh res) (t2 + backoff (sys a) cfg (ev_attempts ev + 1))
      (ev_attempts ev + 1 \<ge> MaxAttempts cfg) w3 = (Inl err, w4)" "db w4 = db w3"
  proof (cases "uuid_parse (sys a) (ev_id ev)")
    case None
    then show thesis using that [of ErrNotFound w3] by (simp add: MarkOutboxFailed_def parse_id_def andthen_simp)
  next
    case (Some i)
    let ?st = "q_MarkOutboxFailed i (text_in (truncate_to (rejection_text wh res) 500))
        (ts (t2 + backoff (sys a) cfg (ev_attempts ev + 1))) (ev_attempts ev + 1 \<ge> MaxAttempts cfg)"
    obtain p w4 where "exec_stmt (sys a) ?st w3 = (Inl p, w4)" "db w4 = db w3"
      using exec_stmt_refused [of ?st w3 "PgError ''22021''" "sys a"] bad ne by (auto simp: q_MarkOutboxFailed_def)
    then show thesis using Some that
      by (simp add: MarkOutboxFailed_def parse_id_def andthen_simp query_def map_err_simp)
  qed
  show ?thesis
    using s n2 m d3 by (simp add: deliver_def attempt_simp record_failure_def Let_def andthen_simp map_err_simp)
qed

text \<open>
  A rejection whose text the database cannot hold is never counted. The reason of a failure quotes
  the receiver's reply and is cut to 500 bytes wherever that falls. When what remains is not valid
  UTF-8, the failure is not recorded: the run ends with an error at the first event, no attempt of any
  event is counted, none is delivered or given up, and the events behind it wait for the next lease.
\<close>

theorem unstorable_reply_not_counted:
  assumes "\<And>n dl. post net n dl = Inr res" "\<not> accepted res" "url_valid net (wh_url wh)"
    and "\<not> pg_text (truncate_to (rejection_text wh res) 500)"
    and "Execute_dispatch a net wh cfg w = (r, w')"
  shows "map (\<lambda>r. (or_id r, or_attempts r, or_delivered r, or_failed r)) (ga_outbox (db w'))
      = map (\<lambda>r. (or_id r, or_attempts r, or_delivered r, or_failed r)) (ga_outbox (db w))
    \<and> (\<forall>out. r = Inr out \<longrightarrow> do_delivered out = 0 \<and> do_failed out = 0 \<and> do_gave_up out = 0)"
proof (cases "Enabled_webhook wh")
  case True
  obtain q w1 where c: "ClaimDueOutboxEvents (pg a) (BatchSize cfg) (dc_timeout cfg * 2 + 30 * Second) w = (q, w1)"
    by fastforce
  have m: "map (\<lambda>r. (or_id r, or_attempts r, or_delivered r, or_failed r)) (ga_outbox (db w1))
      = map (\<lambda>r. (or_id r, or_attempts r, or_delivered r, or_failed r)) (ga_outbox (db w))"
    using claim_effect [OF c]
  proof (elim disjE exE)
    fix ids n
    assume "db w1 = map_outbox (\<lambda>r. if or_id r \<in> ids then r\<lparr>or_next := n\<rparr> else r) (db w)"
    then show ?thesis by (simp del: map_eq_conv) simp
  qed simp
  show ?thesis
  proof (cases q)
    case (Inl e)
    with assms(5) True c m show ?thesis by (auto simp: Execute_dispatch_def andthen_simp map_err_simp)
  next
    case (Inr evs)
    with assms(5) True c have f: "fold_act (deliver a net wh cfg) evs dispatched w1 = (r, w')"
      by (simp add: Execute_dispatch_def andthen_simp map_err_simp)
    show ?thesis
    proof (cases evs)
      case Nil
      with f m show ?thesis by (auto simp: dispatched_def)
    next
      case (Cons ev rest)
      from rejected_unstorable [OF assms(1-4), of a cfg ev dispatched w1] f m Cons show ?thesis
        by (auto simp: andthen_simp)
    qed
  qed
qed (use assms in \<open>auto simp: Execute_dispatch_def dispatched_def\<close>)

text \<open>A reply in Latin-1: one byte that is no UTF-8.\<close>

definition latin1_reply :: string where
  "latin1_reply = [char_of (233 :: nat)]"

lemma latin1_unstorable:
  "\<not> pg_text (truncate_to (rejection_text sample_webhook \<lparr>ans_code = 418, ans_status = ''418 teapot'', ans_body = latin1_reply\<rparr>) 500)"
  by code_simp

theorem unstorable_reply_not_counted_witness:
  "map or_attempts (ga_outbox (db (snd (Execute_dispatch sample_app (answering 418 latin1_reply) sample_webhook impatient eventful_world)))) = [0, 0]"
proof -
  obtain r w' where e: "Execute_dispatch sample_app (answering 418 latin1_reply) sample_webhook impatient eventful_world = (r, w')"
    by fastforce
  have "map (\<lambda>r. (or_id r, or_attempts r, or_delivered r, or_failed r)) (ga_outbox (db w'))
      = map (\<lambda>r. (or_id r, or_attempts r, or_delivered r, or_failed r)) (ga_outbox (db eventful_world))"
    by (rule unstorable_reply_not_counted [OF _ _ _ latin1_unstorable e, THEN conjunct1]) (simp_all add: answering_def accepted_def)
  from arg_cong [OF this, of "map (\<lambda>(i, n, x). n)"] have "map or_attempts (ga_outbox (db w')) = [0, 0]"
    by (simp add: comp_def eventful_world_def sample_event_def)
  with e show ?thesis by simp
qed

end
