(* ===== verification/Jobs.thy ===== *)
theory Jobs
  imports Webhook "HOL-Library.Multiset"
begin

text \<open>
  Housekeeping: the three cleaners, the jobs that wrap the use cases, and the runner of
  \<open>internal/orchestrators/cron\<close>, which runs every enabled job on its own schedule and never lets one
  fail the service.
\<close>

section \<open>session_cleaner, audit_cleaner, outbox_cleaner\<close>

definition Execute_session_cleaner :: "'r app \<Rightarrow> ('r, int) io" where
  "Execute_session_cleaner a =
     map_err (Wrap ''session_cleaner: delete expired'') (DeleteExpiredSessions (pg a))"

record audit_cleaner_config =
  ac_retention :: duration
  ac_max_rows :: int
  ac_interval :: duration

definition audit_cleaner_defaults :: audit_cleaner_config where
  "audit_cleaner_defaults = \<lparr>ac_retention = 720 * Hour, ac_max_rows = 0, ac_interval = 6 * Hour\<rparr>"

definition Execute_audit_cleaner :: "'r app \<Rightarrow> audit_cleaner_config \<Rightarrow> ('r, int \<times> int) io" where
  "Execute_audit_cleaner a cfg =
     andthen (if ac_retention cfg > 0
       then andthen Now (\<lambda>now. map_err (Wrap ''audit_cleaner: delete before'')
         (DeleteAuditEntriesBefore (pg a) (now - ac_retention cfg)))
       else ret 0) (\<lambda>by_age.
     andthen (if ac_max_rows cfg > 0
       then map_err (Wrap ''audit_cleaner: trim'') (DeleteAuditEntriesBeyond (pg a) (ac_max_rows cfg))
       else ret 0) (\<lambda>by_cap.
     ret (by_age, by_cap)))"

record outbox_cleaner_config =
  oc_interval :: duration
  oc_retention :: duration
  oc_max_age :: duration

definition outbox_cleaner_defaults :: outbox_cleaner_config where
  "outbox_cleaner_defaults = \<lparr>oc_interval = Hour, oc_retention = 168 * Hour, oc_max_age = 720 * Hour\<rparr>"

definition Execute_outbox_cleaner :: "'r app \<Rightarrow> outbox_cleaner_config \<Rightarrow> ('r, int \<times> int) io" where
  "Execute_outbox_cleaner a cfg =
     andthen (if oc_retention cfg > 0
       then andthen Now (\<lambda>now. map_err (Wrap ''outbox_cleaner: delete settled'')
         (DeleteOutboxEventsBefore (pg a) (now - oc_retention cfg)))
       else ret 0) (\<lambda>settled.
     andthen (if oc_max_age cfg > 0
       then andthen Now (\<lambda>now. map_err (Wrap ''outbox_cleaner: delete stuck'')
         (DeleteStuckOutboxEvents (pg a) (now - oc_max_age cfg)))
       else ret 0) (\<lambda>stuck.
     ret (settled, stuck)))"

section \<open>The cron runner\<close>

text \<open>A job: its name, its interval (zero or less: not scheduled) and one run of it.\<close>

record 'r job =
  job_name :: string
  job_interval :: duration
  job_run :: "('r, unit) io"

definition done_with :: "('r, 'a) io \<Rightarrow> ('r, unit) io" where
  "done_with m = andthen m (\<lambda>_. ret ())"

definition Interval_audit :: "audit_cleaner_config \<Rightarrow> duration" where
  "Interval_audit cfg =
     (if \<not> (ac_interval cfg > 0 \<and> (ac_retention cfg > 0 \<or> ac_max_rows cfg > 0)) then 0 else ac_interval cfg)"

definition Interval_outbox :: "outbox_cleaner_config \<Rightarrow> duration" where
  "Interval_outbox cfg =
     (if \<not> (oc_interval cfg > 0 \<and> (oc_retention cfg > 0 \<or> oc_max_age cfg > 0)) then 0 else oc_interval cfg)"

definition cron_jobs ::
  "'r app \<Rightarrow> network \<Rightarrow> audit_cleaner_config \<Rightarrow> duration \<Rightarrow> webhook_config \<Rightarrow> dispatcher_config
     \<Rightarrow> outbox_cleaner_config \<Rightarrow> 'r job list" where
  "cron_jobs a net ac session_interval wh dc oc =
     [\<lparr>job_name = ''audit_cleaner'', job_interval = Interval_audit ac, job_run = done_with (Execute_audit_cleaner a ac)\<rparr>,
      \<lparr>job_name = ''session_cleaner'', job_interval = session_interval, job_run = done_with (Execute_session_cleaner a)\<rparr>,
      \<lparr>job_name = ''webhook_dispatcher'', job_interval = Interval_dispatch wh dc,
        job_run = done_with (Execute_dispatch a net wh dc)\<rparr>,
      \<lparr>job_name = ''outbox_cleaner'', job_interval = Interval_outbox oc, job_run = done_with (Execute_outbox_cleaner a oc)\<rparr>]"

definition scheduled :: "'r job list \<Rightarrow> 'r job list" where
  "scheduled jobs = filter (\<lambda>j. \<not> job_interval j \<le> 0) jobs"

text \<open>One execution: an error is logged, the loop goes on.\<close>

definition run_job :: "'r job \<Rightarrow> 'r world \<Rightarrow> 'r world" where
  "run_job j w = snd (job_run j w)"

section \<open>They keep the tables well-formed\<close>

lemma keeps_Send [keeps_rules]: "keeps_ok (Send e net cfg i ev n pl)"
  unfolding Send_def by (intro keeps_rules keeps_db frame_rules)

lemma keeps_jobs [keeps_rules]:
  "keeps_ok (Execute_session_cleaner a)" "keeps_ok (Execute_audit_cleaner a ac)" "keeps_ok (Execute_outbox_cleaner a oc)"
  "keeps_ok (Execute_dispatch a net wh dc)"
  unfolding Execute_session_cleaner_def Execute_audit_cleaner_def Execute_outbox_cleaner_def Execute_dispatch_def
    deliver_def record_failure_def Let_def
  by (intro keeps_rules keeps_db frame_rules)+

section \<open>Only what is stale is deleted\<close>

definition times :: "'r world \<Rightarrow> instant set" where
  "times w = set (clock w # readings w)"

lemma Now_times: "Now w = (Inr t, w') \<Longrightarrow> t \<in> times w \<and> times w' \<subseteq> times w \<and> db w' = db w"
  by (auto simp: Now_def times_def split: list.splits)

text \<open>
  What a cleaner may do between two databases, reading the clock at instants of \<open>T\<close>: rows go from three
  tables, each for a reason, and nothing else changes.
\<close>

definition stale_event :: "outbox_cleaner_config \<Rightarrow> instant set \<Rightarrow> outbox_row \<Rightarrow> bool" where
  "stale_event oc T r \<longleftrightarrow> (\<exists>t\<in>T. if pending r then oc_max_age oc > 0 \<and> or_created r < t - oc_max_age oc
     else oc_retention oc > 0 \<and> or_created r < t - oc_retention oc)"

text \<open>How many entries come before \<open>r\<close> in \<open>ORDER BY created_at DESC, id DESC\<close>.\<close>

definition newer :: "audit_row \<Rightarrow> audit_row \<Rightarrow> bool" where
  "newer x r \<longleftrightarrow> ar_created r < ar_created x \<or> ar_created r = ar_created x \<and> ar_id r < ar_id x"

definition newer_than :: "audit_row \<Rightarrow> audit_row list \<Rightarrow> int" where
  "newer_than r rows = int (length (filter (\<lambda>x. newer x r) rows))"

text \<open>What is left of a list: its order stays.\<close>

definition left_of :: "'b list \<Rightarrow> 'b list \<Rightarrow> bool" where
  "left_of ys xs \<longleftrightarrow> (\<exists>Q. ys = filter Q xs)"

lemma left_of_filter [simp]: "left_of (filter Q xs) xs"
  unfolding left_of_def by blast

lemma left_of_refl [simp]: "left_of xs xs"
  unfolding left_of_def by (rule exI [of _ "\<lambda>_. True"]) simp

lemma left_of_trans: "left_of zs ys \<Longrightarrow> left_of ys xs \<Longrightarrow> left_of zs xs"
  unfolding left_of_def by auto

definition swept :: "audit_cleaner_config \<Rightarrow> outbox_cleaner_config \<Rightarrow> instant set \<Rightarrow> db \<Rightarrow> db \<Rightarrow> bool" where
  "swept ac oc T d d' \<longleftrightarrow>
     d' = d\<lparr>ga_sessions := ga_sessions d', ga_audit_log := ga_audit_log d', ga_outbox := ga_outbox d'\<rparr> \<and>
     set (ga_sessions d') \<subseteq> set (ga_sessions d) \<and> left_of (ga_audit_log d') (ga_audit_log d) \<and>
     set (ga_outbox d') \<subseteq> set (ga_outbox d) \<and>
     (\<forall>s \<in> set (ga_sessions d) - set (ga_sessions d'). \<exists>t\<in>T. sr_expires s < t) \<and>
     (\<forall>r \<in> set (ga_audit_log d) - set (ga_audit_log d').
        (\<exists>t\<in>T. ac_retention ac > 0 \<and> ar_created r < t - ac_retention ac) \<or>
        ac_max_rows ac > 0 \<and> int32 (ac_max_rows ac) \<le> newer_than r (ga_audit_log d)) \<and>
     (\<forall>r \<in> set (ga_outbox d) - set (ga_outbox d'). stale_event oc T r)"

definition sweeps :: "audit_cleaner_config \<Rightarrow> outbox_cleaner_config \<Rightarrow> instant set \<Rightarrow> ('r, 'a) io \<Rightarrow> bool" where
  "sweeps ac oc T m \<longleftrightarrow> (\<forall>w r w'. tx_now w = None \<longrightarrow> times w \<subseteq> T \<longrightarrow> m w = (r, w') \<longrightarrow>
     swept ac oc T (db w) (db w') \<and> tx_now w' = None \<and> times w' \<subseteq> T)"

text \<open>A stable sort by \<open>f\<close> of what is sorted by \<open>g\<close> is sorted by both.\<close>

lemma insort_key_lex:
  fixes f g :: "'b \<Rightarrow> int"
  assumes "sorted_wrt (\<lambda>x y. f x < f y \<or> f x = f y \<and> g x \<le> g y) ys" "\<forall>y\<in>set ys. g a \<le> g y"
  shows "sorted_wrt (\<lambda>x y. f x < f y \<or> f x = f y \<and> g x \<le> g y) (insort_key f a ys)"
  using assms by (induction ys) (fastforce simp: set_insort_key)+

lemma sort_key_lex:
  fixes f g :: "'b \<Rightarrow> int"
  assumes "sorted (map g xs)"
  shows "sorted_wrt (\<lambda>x y. f x < f y \<or> f x = f y \<and> g x \<le> g y) (sort_key f xs)"
  using assms by (induction xs) (auto intro!: insort_key_lex)

lemma beyond_newest:
  assumes "r \<in> set rows" "ar_id r \<notin> set (map ar_id (take k (newest_first rows)))"
  shows "int k \<le> newer_than r rows"
proof -
  let ?L = "newest_first rows"
  have "sorted_wrt (\<lambda>x y. - ar_created x < - ar_created y \<or> - ar_created x = - ar_created y \<and> - ar_id x \<le> - ar_id y) ?L"
    unfolding newest_first_def by (intro sort_key_lex) simp
  then have srt: "sorted_wrt (\<lambda>x y. ar_created y < ar_created x \<or> ar_created x = ar_created y \<and> ar_id y \<le> ar_id x) (take k ?L @ drop k ?L)"
    by simp
  have "r \<in> set ?L" using assms(1) by (simp add: newest_first_def)
  then have r: "r \<in> set (take k ?L) \<union> set (drop k ?L)" by (metis append_take_drop_id set_append)
  with assms(2) have d: "r \<in> set (drop k ?L)" by auto
  then have "length (take k ?L) = k" by (cases "k \<le> length ?L") auto
  moreover have "newer x r" if "x \<in> set (take k ?L)" for x
  proof -
    have "ar_id x \<noteq> ar_id r" using assms(2) that by (metis image_eqI list.set_map)
    with srt that d show ?thesis unfolding sorted_wrt_append newer_def by fastforce
  qed
  then have "filter (\<lambda>x. newer x r) (take k ?L) = take k ?L" by (simp add: filter_id_conv)
  ultimately have "k \<le> length (filter (\<lambda>x. newer x r) (take k ?L @ drop k ?L))"
    unfolding filter_append length_append by simp
  moreover have "length (filter (\<lambda>x. newer x r) ?L) = length (filter (\<lambda>x. newer x r) rows)"
    by (metis mset_filter mset_sort newest_first_def size_mset)
  ultimately show ?thesis by (simp add: newer_than_def)
qed

lemma newer_than_left: "left_of ys xs \<Longrightarrow> newer_than r ys \<le> newer_than r xs"
proof -
  have "length (filter P (filter Q xs)) \<le> length (filter P xs)" for P Q :: "audit_row \<Rightarrow> bool" and xs
    by (induction xs) auto
  then show "left_of ys xs \<Longrightarrow> newer_than r ys \<le> newer_than r xs"
    unfolding left_of_def newer_than_def by (metis of_nat_mono)
qed

lemma swept_refl [simp]: "swept ac oc T d d"
  by (simp add: swept_def)

lemma swept_trans:
  assumes "swept ac oc T d1 d2" "swept ac oc T d2 d3"
  shows "swept ac oc T d1 d3"
proof -
  have "d3 = d1\<lparr>ga_sessions := ga_sessions d3, ga_audit_log := ga_audit_log d3, ga_outbox := ga_outbox d3\<rparr>"
  proof -
    have "d3 = d2\<lparr>ga_sessions := ga_sessions d3, ga_audit_log := ga_audit_log d3, ga_outbox := ga_outbox d3\<rparr>"
      and "d2 = d1\<lparr>ga_sessions := ga_sessions d2, ga_audit_log := ga_audit_log d2, ga_outbox := ga_outbox d2\<rparr>"
      using assms by (simp_all add: swept_def)
    then show ?thesis by (cases d1, cases d2, cases d3) simp
  qed
  moreover have "\<forall>r\<in>set (ga_audit_log d1) - set (ga_audit_log d3).
      (\<exists>t\<in>T. ac_retention ac > 0 \<and> ar_created r < t - ac_retention ac) \<or>
      ac_max_rows ac > 0 \<and> int32 (ac_max_rows ac) \<le> newer_than r (ga_audit_log d1)"
  proof
    fix r assume r: "r \<in> set (ga_audit_log d1) - set (ga_audit_log d3)"
    have le: "newer_than r (ga_audit_log d2) \<le> newer_than r (ga_audit_log d1)"
      using assms(1) by (auto simp: swept_def intro: newer_than_left)
    show "(\<exists>t\<in>T. ac_retention ac > 0 \<and> ar_created r < t - ac_retention ac) \<or>
      ac_max_rows ac > 0 \<and> int32 (ac_max_rows ac) \<le> newer_than r (ga_audit_log d1)"
    proof (cases "r \<in> set (ga_audit_log d2)")
      case True
      with r assms(2) have "(\<exists>t\<in>T. ac_retention ac > 0 \<and> ar_created r < t - ac_retention ac) \<or>
        ac_max_rows ac > 0 \<and> int32 (ac_max_rows ac) \<le> newer_than r (ga_audit_log d2)" by (simp add: swept_def)
      with le show ?thesis by auto
    next
      case False
      with r assms(1) show ?thesis by (simp add: swept_def)
    qed
  qed
  moreover have "left_of (ga_audit_log d3) (ga_audit_log d1)"
    using assms left_of_trans unfolding swept_def by blast
  moreover have "set (ga_sessions d3) \<subseteq> set (ga_sessions d1)" "set (ga_outbox d3) \<subseteq> set (ga_outbox d1)"
    using assms by (auto simp: swept_def)
  moreover have "\<forall>s \<in> set (ga_sessions d1) - set (ga_sessions d3). \<exists>t\<in>T. sr_expires s < t"
    "\<forall>r \<in> set (ga_outbox d1) - set (ga_outbox d3). stale_event oc T r"
    using assms unfolding swept_def by blast+
  ultimately show ?thesis unfolding swept_def by (simp only: simp_thms)
qed

lemma sweeps_ret: "sweeps ac oc T (ret x)"
  by (simp add: sweeps_def)

lemma sweepsD:
  "sweeps ac oc T m \<Longrightarrow> m w = (r, w') \<Longrightarrow> tx_now w = None \<Longrightarrow> times w \<subseteq> T \<Longrightarrow>
     swept ac oc T (db w) (db w') \<and> tx_now w' = None \<and> times w' \<subseteq> T"
  unfolding sweeps_def by blast

lemma sweeps_andthen:
  assumes "sweeps ac oc T m" "\<And>x. sweeps ac oc T (k x)"
  shows "sweeps ac oc T (andthen m k)"
  unfolding sweeps_def
proof (intro allI impI)
  fix w r w'
  assume w: "tx_now w = None" "times w \<subseteq> T" "andthen m k w = (r, w')"
  obtain q w1 where m: "m w = (q, w1)" by fastforce
  note s1 = sweepsD [OF assms(1) m w(1,2)]
  show "swept ac oc T (db w) (db w') \<and> tx_now w' = None \<and> times w' \<subseteq> T"
  proof (cases q)
    case (Inl e)
    with m w(3) s1 show ?thesis by (simp add: andthen_simp)
  next
    case (Inr x)
    with m w(3) have "k x w1 = (r, w')" by (simp add: andthen_simp)
    from sweepsD [OF assms(2) this] s1
    have s2: "swept ac oc T (db w1) (db w')" "tx_now w' = None" "times w' \<subseteq> T" by simp_all
    from s1 have "swept ac oc T (db w) (db w1)" by simp
    from swept_trans [OF this s2(1)] s2 show ?thesis by simp
  qed
qed

lemma sweeps_map_err:
  assumes "sweeps ac oc T m" shows "sweeps ac oc T (map_err g m)"
proof -
  have "snd (map_err g m w) = snd (m w)" for w
    by (simp add: map_err_simp split: prod.split sum.split)
  then show ?thesis using assms unfolding sweeps_def by (metis prod.collapse snd_conv)
qed

lemma sweeps_if: "(b \<Longrightarrow> sweeps ac oc T m) \<Longrightarrow> (\<not> b \<Longrightarrow> sweeps ac oc T n) \<Longrightarrow> sweeps ac oc T (if b then m else n)"
  by simp

text \<open>Between reading the clock and using it, the reading is one of the instants.\<close>

lemma sweeps_Now:
  fixes k :: "instant \<Rightarrow> ('r, 'a) io"
  assumes "\<And>t. t \<in> T \<Longrightarrow> sweeps ac oc T (k t)"
  shows "sweeps ac oc T (andthen Now k)"
  unfolding sweeps_def
proof (intro allI impI)
  fix w :: "'r world" and r w'
  assume w: "tx_now w = None" "times w \<subseteq> T" "andthen Now k w = (r, w')"
  obtain t w1 where n: "(Now w :: (error + instant) \<times> _) = (Inr t, w1)" by (cases "readings w") (auto simp: Now_def)
  have "tx_now w1 = None" using n w(1) by (auto simp: Now_def split: list.splits)
  moreover have "k t w1 = (r, w')" using w(3) by (simp add: andthen_simp n)
  moreover have t: "t \<in> T" "times w1 \<subseteq> T" "db w1 = db w" using Now_times [OF n] w(2) by auto
  ultimately show "swept ac oc T (db w) (db w') \<and> tx_now w' = None \<and> times w' \<subseteq> T"
    using sweepsD [OF assms [OF t(1)], of w1 r w'] by simp
qed

lemma sweeps_query:
  assumes "\<And>now u d x d'. now \<in> T \<Longrightarrow> st now u d = Inr (x, d') \<Longrightarrow> swept ac oc T d d'"
  shows "sweeps ac oc T (query a nf st)"
  unfolding sweeps_def
proof (intro allI impI)
  fix w :: "'r world" and r w'
  assume w: "tx_now w = None" "times w \<subseteq> T" "query a nf st w = (r, w')"
  then obtain q where q: "exec_stmt (env a) st w = (q, w')"
    by (auto simp: query_def map_err_simp split: prod.splits sum.splits)
  then have "tx_now w' = None \<and> times w' \<subseteq> times w \<and>
      (db w' = db w \<or> (\<exists>now\<in>times w. \<exists>u x. st now u (db w) = Inr (x, db w')))"
    using w(1)
    by (auto simp: exec_stmt_def act_simps draw_def next_fault_def server_now_def Now_def run_stmt_def times_def
        split: list.splits option.splits fault.splits sum.splits prod.splits)
  with w(2) assms show "swept ac oc T (db w) (db w') \<and> tx_now w' = None \<and> times w' \<subseteq> T" by fastforce
qed

lemma swept_before:
  assumes "q_DeleteAuditEntriesBefore (ts (t - ac_retention ac)) now u d = Inr (x, d')" "t \<in> T" "ac_retention ac > 0"
  shows "swept ac oc T d d'"
  using assms by (auto simp: q_DeleteAuditEntriesBefore_def swept_def earlier_def ts_def split: if_splits)

lemma swept_beyond:
  assumes "q_DeleteAuditEntriesBeyond (int32 (ac_max_rows ac)) now u d = Inr (x, d')" "ac_max_rows ac > 0"
  shows "swept ac oc T d d'"
proof -
  let ?k = "int32 (ac_max_rows ac)" and ?log = "ga_audit_log d"
  let ?kept = "set (map ar_id (take (nat ?k) (newest_first ?log)))"
  have d': "\<not> ?k < 0" "d' = d\<lparr>ga_audit_log := filter (\<lambda>r. ar_id r \<in> ?kept) ?log\<rparr>"
    using assms(1) by (auto simp: q_DeleteAuditEntriesBeyond_def Let_def split: if_splits)
  have "?k \<le> newer_than r ?log" if "r \<in> set ?log" "ar_id r \<notin> ?kept" for r
    using beyond_newest [OF that] d'(1) by simp
  then show ?thesis using assms(2) unfolding d'(2) by (simp add: swept_def del: set_map)
qed

lemma sweeps_cleaners:
  "sweeps ac oc T (Execute_session_cleaner a)" "sweeps ac oc T (Execute_audit_cleaner a ac)"
  "sweeps ac oc T (Execute_outbox_cleaner a oc)"
proof -
  show "sweeps ac oc T (Execute_session_cleaner a)"
    unfolding Execute_session_cleaner_def DeleteExpiredSessions_def
    by (intro sweeps_map_err sweeps_query) (auto simp: q_DeleteExpiredSessions_def delete_sessions_def swept_def)
  show "sweeps ac oc T (Execute_audit_cleaner a ac)"
    unfolding Execute_audit_cleaner_def DeleteAuditEntriesBefore_def DeleteAuditEntriesBeyond_def
  proof (rule sweeps_andthen, goal_cases age rest)
    case age
    show ?case
    proof (rule sweeps_if)
      assume pos: "ac_retention ac > 0"
      show "sweeps ac oc T (andthen Now (\<lambda>now. map_err (Wrap ''audit_cleaner: delete before'')
          (query (pg a) None (q_DeleteAuditEntriesBefore (ts (now - ac_retention ac))))))"
        by (rule sweeps_Now, rule sweeps_map_err, rule sweeps_query, erule swept_before) (simp_all add: pos)
    qed (rule sweeps_ret)
  next
    case (rest n)
    show ?case
    proof (rule sweeps_andthen, rule sweeps_if)
      assume pos: "ac_max_rows ac > 0"
      show "sweeps ac oc T (map_err (Wrap ''audit_cleaner: trim'') (query (pg a) None (q_DeleteAuditEntriesBeyond (int32 (ac_max_rows ac)))))"
        by (rule sweeps_map_err, rule sweeps_query, erule swept_beyond) (rule pos)
    qed (rule sweeps_ret)+
  qed
  show "sweeps ac oc T (Execute_outbox_cleaner a oc)"
    unfolding Execute_outbox_cleaner_def DeleteOutboxEventsBefore_def DeleteStuckOutboxEvents_def
    by (intro sweeps_andthen sweeps_if sweeps_Now sweeps_map_err sweeps_query sweeps_ret)
      (auto simp: q_DeleteOutboxEventsBefore_def q_DeleteStuckOutboxEvents_def delete_outbox_def swept_def stale_event_def
        earlier_def ts_def split: if_splits)
qed

text \<open>
  C26. Housekeeping deletes only what is stale. A run of any cleaner removes rows of three tables and
  changes nothing else: a session only when its expiry lies before a reading of the clock during the
  run; an audit entry only when the retention is set and it is older, or a row cap is set and at least
  as many entries as the cap - the 32-bit number the statement is given - are newer than it; an event
  only when it is settled and older than the retention, or still pending and older than the far wider
  ceiling, each if set. With a limit of zero the respective table is left alone.
\<close>

theorem housekeeping_spares_the_live:
  assumes "j \<in> set (cron_jobs a net ac si wh dc oc)" "job_name j \<noteq> ''webhook_dispatcher''" "tx_now w = None"
  shows "swept ac oc (times w) (db w) (db (run_job j w))"
proof -
  have "sweeps ac oc (times w) (job_run j)"
    using assms(1,2) by (auto simp: cron_jobs_def done_with_def intro!: sweeps_andthen sweeps_ret sweeps_cleaners)
  with assms(3) show ?thesis
    unfolding sweeps_def run_job_def by (metis order_refl prod.collapse)
qed

definition silent_network :: network where
  "silent_network = \<lparr>url_valid = (\<lambda>_. False), raw_json = (\<lambda>_. []), post = (\<lambda>_ _. Inl ''no route'')\<rparr>"

definition no_webhook :: webhook_config where
  "no_webhook = \<lparr>wh_url = [], wh_secret = [], wh_api_key = [], wh_timeout = 10 * Second\<rparr>"

definition late_world :: "unit world" where
  "late_world = sample_world\<lparr>clock := 2000\<rparr>"

definition session_job :: "unit job" where
  "session_job = \<lparr>job_name = ''session_cleaner'', job_interval = Hour, job_run = done_with (Execute_session_cleaner sample_app)\<rparr>"

lemma session_job_sweeps: "ga_sessions (db (run_job session_job late_world)) = []"
  by code_simp

theorem housekeeping_spares_the_live_witness:
  "swept audit_cleaner_defaults outbox_cleaner_defaults (times late_world) (db late_world) (db (run_job session_job late_world))
    \<and> ga_sessions (db (run_job session_job late_world)) = []"
proof -
  have "session_job \<in> set (cron_jobs sample_app silent_network audit_cleaner_defaults Hour no_webhook
      dispatcher_defaults outbox_cleaner_defaults)"
    by (simp add: cron_jobs_def session_job_def)
  moreover have "job_name session_job \<noteq> ''webhook_dispatcher''" by (simp add: session_job_def)
  moreover have "tx_now late_world = None" by (simp add: late_world_def sample_world_def)
  ultimately show ?thesis using session_job_sweeps by (blast intro: housekeeping_spares_the_live)
qed

section \<open>A row cap that empties the log\<close>

text \<open>
  A row cap beyond 32 bits empties the audit log. The cap is an \<open>int\<close> in the configuration and an
  \<open>int32\<close> in the statement: a cap of 2^32 rows, meant to keep practically everything, reaches the
  database as zero, and a run of the cleaner that no fault interrupts deletes every entry.
\<close>

theorem wide_cap_empties_log:
  assumes "ac_max_rows cfg = 2 ^ 32" "ac_retention cfg = 0" "faults w = []"
  shows "ga_audit_log (db (snd (Execute_audit_cleaner a cfg w))) = []"
proof -
  have "int32 (2 ^ 32) = 0" by (simp add: int32_def signed_take_bit_eq_take_bit_shift take_bit_eq_mod)
  with assms show ?thesis
    by (auto simp: Execute_audit_cleaner_def DeleteAuditEntriesBeyond_def query_def exec_stmt_def act_simps next_fault_def
        server_now_def Now_def draw_def run_stmt_def q_DeleteAuditEntriesBeyond_def Let_def
        split: option.split list.split)
qed

definition one_entry :: "unit world" where
  "one_entry = sample_world\<lparr>db := sample_db\<lparr>ga_audit_log := [\<lparr>ar_id = 1, ar_actor = ''system'', ar_action = ''user.created'',
     ar_target = None, ar_ip = None, ar_meta = [], ar_created = 9\<rparr>], audit_serial := 2\<rparr>\<rparr>"

theorem wide_cap_empties_log_witness:
  "ga_audit_log (db one_entry) \<noteq> [] \<and>
   ga_audit_log (db (snd (Execute_audit_cleaner sample_app \<lparr>ac_retention = 0, ac_max_rows = 2 ^ 32, ac_interval = Hour\<rparr> one_entry))) = []"
proof
  show "ga_audit_log (db one_entry) \<noteq> []" by (simp add: one_entry_def)
  show "ga_audit_log (db (snd (Execute_audit_cleaner sample_app \<lparr>ac_retention = 0, ac_max_rows = 2 ^ 32, ac_interval = Hour\<rparr> one_entry))) = []"
    by (rule wide_cap_empties_log) (simp_all add: one_entry_def sample_world_def)
qed

end
