(* ===== verification/Bootstrap.thy ===== *)
theory Bootstrap
  imports AccountLaws
begin

text \<open>
  Start-up: \<open>seed_roles\<close> draws the role floor, \<open>seed_super_admin\<close> creates the first administrator,
  \<open>orchestrators/bootstrap\<close> runs them in order after the schema. Applying the schema is I/O around the
  driver and a parameter.
\<close>

section \<open>seed_roles\<close>

record role_seed =
  rs_name :: string
  rs_rank :: int
  rs_permissions :: "permission list"
  rs_is_system :: bool

definition builtinNames :: "string list" where
  "builtinNames = [RoleUser, RoleManager, RoleAdmin, RoleSuperAdmin]"

text \<open>\<open>LoadConfig\<close>: the first bad entry fails the boot.\<close>

fun check_seeds :: "role_seed list \<Rightarrow> error + unit" where
  "check_seeds [] = Inr ()"
| "check_seeds (r # rs) =
     (if rs_name r \<in> set builtinNames then check_seeds rs
      else if \<not> ValidRoleName (rs_name r) then Inl (Opaque (''seed role '' @ rs_name r @ '': invalid name''))
      else if \<not> ValidCustomRank (rs_rank r)
        then Inl (Opaque (''seed role '' @ rs_name r @ '': rank must be between 1 and 99''))
      else (case ValidatePermissions (rs_permissions r) of
              Inl _ \<Rightarrow> Inl (Opaque (''seed role '' @ rs_name r @ '': unknown permission''))
            | Inr _ \<Rightarrow> check_seeds rs))"

definition seed_role :: "'r app \<Rightarrow> role \<Rightarrow> ('r, bool) io" where
  "seed_role a r =
     andthen (SeedRole (pg a) r) (\<lambda>made.
     andthen (if made then Record a (Event ActorSystem ActionRoleCreated [] []
         [(''role'', MStr (role_name r)), (''rank'', MInt (role_rank r)), (''seeded'', MBool True)])
       else ret ()) (\<lambda>_.
     ret made))"

definition role_of_seed :: "role_seed \<Rightarrow> role" where
  "role_of_seed r = \<lparr>role_name = rs_name r, role_rank = rs_rank r, role_system = rs_is_system r,
     role_perms = rs_permissions r, role_created = zero_time\<rparr>"

definition seed_count :: "'r app \<Rightarrow> role \<Rightarrow> int \<Rightarrow> ('r, int) io" where
  "seed_count a r n = andthen (seed_role a r) (\<lambda>made. ret (if made then n + 1 else n))"

definition Execute_seed_roles :: "'r app \<Rightarrow> role_seed list \<Rightarrow> ('r, int) io" where
  "Execute_seed_roles a seeds =
     andthen (fold_act (seed_count a) DefaultRoles 0) (\<lambda>n.
     fold_act (\<lambda>r. seed_count a (role_of_seed r)) (filter (\<lambda>r. rs_name r \<notin> set builtinNames) seeds) n)"

section \<open>seed_super_admin\<close>

record seed_config =
  sc_username :: string
  sc_password :: string
  sc_email :: string
  sc_min_password_len :: int

definition Enabled_seed :: "seed_config \<Rightarrow> bool" where
  "Enabled_seed cfg \<longleftrightarrow> sc_username cfg \<noteq> [] \<or> sc_email cfg \<noteq> []"

datatype seed_output = Skipped string | SeededAdmin string string

definition seed_identifier :: "(string \<Rightarrow> error + string) \<Rightarrow> string \<Rightarrow> string \<Rightarrow> error + string" where
  "seed_identifier normalise what s =
     (if s \<noteq> [] then (case normalise s of Inl err \<Rightarrow> Inl (Wrap (''seed_super_admin: '' @ what @ '' is invalid'') err) | Inr x \<Rightarrow> Inr x)
      else Inr [])"

definition bootstrap_entry :: "string \<Rightarrow> user \<Rightarrow> audit_entry" where
  "bootstrap_entry action user = Event ActorSystem action (usr_id user) []
     [(''bootstrap'', MBool True), (''role'', MStr RoleSuperAdmin)]"

text \<open>The insert, whose conflict is taken for another instance having been first.\<close>

definition create_first_admin :: "'r app \<Rightarrow> string \<Rightarrow> string \<Rightarrow> string \<Rightarrow> ('r, seed_output) io" where
  "create_first_admin a username email hash =
     attempt (CreateUser (pg a) \<lparr>cu_event = Some (named_event EventUserCreated), cu_username = username,
         cu_email = email, cu_hash = hash, cu_role = RoleSuperAdmin, cu_status = StatusActive\<rparr>) (\<lambda>r. case r of
         Inl err \<Rightarrow>
           if errors_is err ErrUserAlreadyExists \<or> errors_is err ErrAlreadyExists
           then ret (Skipped ''another instance seeded the admin first'')
           else raise (Wrap ''seed_super_admin: create user'' err)
       | Inr user \<Rightarrow>
           andthen (Record a (bootstrap_entry ActionUserCreated user)) (\<lambda>_.
           andthen (Record a (bootstrap_entry ActionRoleAssigned user)) (\<lambda>_.
           ret (SeededAdmin (usr_id user) (Identifier user)))))"

definition Execute_seed_super_admin :: "'r app \<Rightarrow> seed_config \<Rightarrow> ('r, seed_output) io" where
  "Execute_seed_super_admin a cfg =
     (if \<not> Enabled_seed cfg then ret (Skipped ''not configured'')
      else
        andthen (map_err (Wrap ''seed_super_admin: seed.password'')
          (lift (ValidatePassword (sc_password cfg) (sc_min_password_len cfg)))) (\<lambda>_.
        andthen (map_err (Wrap ''seed_super_admin: count admins'') (CountActiveSuperAdmins (pg a))) (\<lambda>admins.
        if admins > 0 then ret (Skipped ''an active admin already exists'')
        else
          andthen (lift (seed_identifier (NormalizeUsername (sys a)) ''SUPER_ADMIN_USERNAME'' (sc_username cfg))) (\<lambda>username.
          andthen (lift (seed_identifier (NormalizeEmail (sys a)) ''SUPER_ADMIN_EMAIL'' (sc_email cfg))) (\<lambda>email.
          andthen (map_err (Wrap ''seed_super_admin: hash password'') (Hash (sys a) (hp (hashing a)) (sc_password cfg)))
            (create_first_admin a username email))))))"

section \<open>bootstrap\<close>

definition Run_bootstrap :: "'r app \<Rightarrow> ('r, unit) io \<Rightarrow> role_seed list \<Rightarrow> seed_config \<Rightarrow> ('r, unit) io" where
  "Run_bootstrap a ensure_schema seeds cfg =
     andthen (map_err (Wrap ''bootstrap: ensure schema'') ensure_schema) (\<lambda>_.
     andthen (map_err (Wrap ''bootstrap: seed roles'') (Execute_seed_roles a seeds)) (\<lambda>_.
     andthen (map_err (Wrap ''bootstrap: seed super admin'') (Execute_seed_super_admin a cfg)) (\<lambda>_.
     ret ())))"

section \<open>They keep the tables well-formed\<close>

lemma keeps_seed_count [keeps_rules]: "keeps_ok (seed_count a r n)"
  unfolding seed_count_def seed_role_def by (intro keeps_rules)

lemma keeps_seeds [keeps_rules]:
  "keeps_ok (Execute_seed_roles a seeds)" "keeps_ok (Execute_seed_super_admin a cfg)"
  unfolding Execute_seed_roles_def Execute_seed_super_admin_def create_first_admin_def
  by (intro keeps_rules keeps_db [OF frame_Hash(1)])+

section \<open>Seeding never overwrites\<close>

text \<open>Every role of \<open>d\<close> is in \<open>d'\<close> as it was, with the permissions it had.\<close>

definition roles_kept :: "db \<Rightarrow> db \<Rightarrow> bool" where
  "roles_kept d d' \<longleftrightarrow> ga_users d' = ga_users d \<and> ga_sessions d' = ga_sessions d \<and>
     (\<forall>n r. role_row_of d n = Some r \<longrightarrow> role_row_of d' n = Some r \<and> perms_of d' n = perms_of d n)"

lemma roles_kept_refl [simp]: "roles_kept d d"
  by (simp add: roles_kept_def)

lemma roles_kept_trans: "roles_kept d d1 \<Longrightarrow> roles_kept d1 d2 \<Longrightarrow> roles_kept d d2"
  by (simp add: roles_kept_def)

lemma roles_kept_unaudited: "unaudited d' = unaudited d \<Longrightarrow> roles_kept d d'"
  using unaudited_eq [of d' d] by (simp add: roles_kept_def role_row_of_def perms_of_def)

lemma role_exists_row: "role_exists d n \<longleftrightarrow> role_row_of d n \<noteq> None"
  by (auto simp: role_exists_def role_row_of_def list_ex_iff find_None_iff)

lemma stmt_SeedRole_kept: "stmt_keeps (roles_kept d) (q_SeedRole n k sy)"
proof (rule stmt_keepsI)
  fix now u d1 x d2
  assume st: "q_SeedRole n k sy now u d1 = Inr (x, d2)" and kept: "roles_kept d d1"
  from st have "d2 = d1\<lparr>ga_roles := ga_roles d1 @ [\<lparr>rr_name = n, rr_rank = k, rr_system = sy, rr_created = now\<rparr>]\<rparr>"
    by (auto simp: q_SeedRole_def q_CreateRole_def Let_def split: if_splits)
  moreover have "find P (xs @ ys) = Some r" if "find P xs = Some r" for P and xs ys :: "role_row list" and r
    using that by (induction xs) (auto split: if_splits)
  ultimately have "roles_kept d1 d2" by (auto simp: roles_kept_def role_row_of_def perms_of_def)
  with kept show "roles_kept d d2" by (rule roles_kept_trans)
qed

lemma stmt_SeedRolePermission_kept:
  "role_row_of d n = None \<Longrightarrow> stmt_keeps (roles_kept d) (q_SeedRolePermission n p)"
  by (rule stmt_keepsI)
    (auto simp: q_SeedRolePermission_def q_AddRolePermission_def roles_kept_def role_row_of_def perms_of_def split: if_splits)

lemma SeedRole_kept:
  assumes "roles_kept d (db w)" "SeedRole a r w = (q, w')"
  shows "roles_kept d (db w')"
proof -
  let ?st = "q_SeedRole (role_name r) (int32 (role_rank r)) (role_system r)"
  obtain x w1 where e: "exec_stmt (env a) ?st w = (x, w1)" by fastforce
  note k1 = keepsD [OF keeps_exec_stmt [OF stmt_SeedRole_kept] e assms(1)]
  show ?thesis
  proof (cases x)
    case (Inl err)
    with assms(2) e k1 show ?thesis
      by (cases err) (auto simp: SeedRole_def attempt_simp)
  next
    case (Inr row)
    with e obtain now u where "?st now u (db w) = Inr (row, db w1)" by (auto elim: exec_stmt_Inr)
    then have "\<not> role_exists (db w) (role_name r)"
      by (auto simp: q_SeedRole_def q_CreateRole_def Let_def split: if_splits)
    with assms(1) have new: "role_row_of d (role_name r) = None"
      by (cases "role_row_of d (role_name r)") (auto simp: role_exists_row roles_kept_def)
    have "keeps (\<lambda>w. roles_kept d (db w)) (andthen (for_each (\<lambda>p. query a None (q_SeedRolePermission (role_name r) p)) (role_perms r)) (\<lambda>_. ret True))"
      by (intro keeps_rules keeps_query [where P = "roles_kept d"] stmt_SeedRolePermission_kept new)
    from keepsD [OF this _ k1] assms(2) e Inr show ?thesis by (simp add: SeedRole_def attempt_simp)
  qed
qed

lemma keeps_seed_kept: "keeps (\<lambda>w. roles_kept d (db w)) (seed_count a r n)"
proof -
  have "keeps (\<lambda>w. roles_kept d (db w)) (SeedRole (pg a) r)"
    unfolding keeps_def using SeedRole_kept by (metis prod.collapse)
  moreover have "keeps (\<lambda>w. roles_kept d (db w)) (Record a e)" for e
    unfolding keeps_def using Record_db roles_kept_unaudited roles_kept_trans by (metis prod.collapse)
  ultimately show ?thesis
    unfolding seed_count_def seed_role_def by (intro keeps_rules)
qed

text \<open>
  C27. Seeding never overwrites. Whatever roles are configured and whatever fails, seeding the roles
  touches no user and no session, and leaves every role that is already there exactly as it stands:
  its rank, its system flag, and its permissions. A role whose permissions were lost to a fault in an
  earlier run is therefore not completed by a later one either.
\<close>

theorem seeding_never_overwrites:
  assumes "Execute_seed_roles a seeds w = (r, w')"
  shows "roles_kept (db w) (db w')"
proof -
  have "keeps (\<lambda>w'. roles_kept (db w) (db w')) (Execute_seed_roles a seeds)"
    unfolding Execute_seed_roles_def by (intro keeps_rules keeps_seed_kept)
  from keepsD [OF this assms] show ?thesis by simp
qed

text \<open>
  C28. A boot with a configured administrator leaves one. When seeding the first administrator reports
  no error, an active superadmin exists afterwards, or the insert met a conflict, which is taken for
  another instance having been first.
\<close>

theorem seeding_leaves_an_admin:
  assumes "Execute_seed_super_admin a cfg w = (Inr out, w')" "Enabled_seed cfg" "db_ok (db w)"
  shows "0 < superadmins (db w') \<or> out = Skipped ''another instance seeded the admin first''"
proof -
  from assms(1,2) obtain n w1 where c: "CountActiveSuperAdmins (pg a) w = (Inr n, w1)"
    by (auto simp: Execute_seed_super_admin_def act_inv)
  note c' = CountActiveSuperAdmins_Inr [OF c]
  show ?thesis
  proof (cases "n > 0")
    case True
    with assms c have "w' = w1" by (auto simp: Execute_seed_super_admin_def andthen_simp map_err_simp split: sum.splits)
    with True c' assms(3) show ?thesis by simp
  next
    case False
    with assms(1,2) c obtain username email hash w2 where f: "create_first_admin a username email hash w2 = (Inr out, w')"
      by (auto simp: Execute_seed_super_admin_def act_inv)
    let ?p = "\<lparr>cu_event = Some (named_event EventUserCreated), cu_username = username,
         cu_email = email, cu_hash = hash, cu_role = RoleSuperAdmin, cu_status = StatusActive\<rparr>"
    obtain q w3 where cu: "CreateUser (pg a) ?p w2 = (q, w3)" by fastforce
    show ?thesis
    proof (cases q)
      case (Inl err)
      with f cu show ?thesis by (auto simp: create_first_admin_def attempt_simp split: if_splits)
    next
      case (Inr user)
      from CreateUser_Inr [OF cu [unfolded Inr]] obtain r d where r: "ur_role r = RoleSuperAdmin" "ur_status r = StatusActive"
        and em: "emitted (pg a) (eventFor (cu_event ?p) user) ((db w2)\<lparr>ga_users := ga_users (db w2) @ [r]\<rparr>) (db w3)"
        by (auto simp: RoleSuperAdmin_def StatusActive_def)
      have "0 < superadmins (db w3)"
        using emitted_tables(1) [OF em] r by (simp add: superadmins_def active_superadmin_def)
      moreover from f cu Inr obtain w4 where rec: "Record a (bootstrap_entry ActionUserCreated user) w3 = (Inr (), w4)"
        "Record a (bootstrap_entry ActionRoleAssigned user) w4 = (Inr (), w')"
        by (auto simp: create_first_admin_def attempt_simp andthen_Inr)
      ultimately show ?thesis
        using unaudited_eq [OF Record_db [OF rec(1)]] unaudited_eq [OF Record_db [OF rec(2)]]
        by (simp add: superadmins_def)
    qed
  qed
qed

section \<open>Concrete boots\<close>

definition young_db :: db where
  "young_db = sample_db\<lparr>ga_users := [sample_user 1 ''alice'' ''user'' ''active''], ga_sessions := []\<rparr>"

definition young_world :: "unit world" where
  "young_world = sample_world\<lparr>db := young_db\<rparr>"

definition first_admin :: "string \<Rightarrow> seed_config" where
  "first_admin name = \<lparr>sc_username = name, sc_password = ''secret'', sc_email = [], sc_min_password_len = 4\<rparr>"

definition ops_seed :: role_seed where
  "ops_seed = \<lparr>rs_name = ''ops'', rs_rank = 7, rs_permissions = [''users:read''], rs_is_system = False\<rparr>"

lemma young_db_ok: "db_ok (db young_world)"
  by code_simp

theorem seeding_never_overwrites_witness:
  "roles_kept (db young_world) (db (snd (Execute_seed_roles sample_app [ops_seed] young_world)))
   \<and> perms_of (db young_world) ''ops'' = []
   \<and> perms_of (db (snd (Execute_seed_roles sample_app [ops_seed] young_world))) ''ops'' = [''users:read'']"
proof (intro conjI)
  obtain r w' where e: "Execute_seed_roles sample_app [ops_seed] young_world = (r, w')" by fastforce
  from seeding_never_overwrites [OF e] e
  show "roles_kept (db young_world) (db (snd (Execute_seed_roles sample_app [ops_seed] young_world)))" by simp
  show "perms_of (db young_world) ''ops'' = []" by code_simp
  show "perms_of (db (snd (Execute_seed_roles sample_app [ops_seed] young_world))) ''ops'' = [''users:read'']" by code_simp
qed

theorem seeding_leaves_an_admin_witness:
  "0 < superadmins (db (snd (Execute_seed_super_admin sample_app (first_admin ''rooty'') young_world)))"
proof -
  let ?m = "Execute_seed_super_admin sample_app (first_admin ''rooty'')"
  have "fst (?m young_world) = Inr (SeededAdmin (sample_uuid_text 32) ''rooty'')" by code_simp
  then have e: "?m young_world = (Inr (SeededAdmin (sample_uuid_text 32) ''rooty''), snd (?m young_world))"
    by (metis prod.collapse)
  have "Enabled_seed (first_admin ''rooty'')" by (simp add: Enabled_seed_def first_admin_def)
  from seeding_leaves_an_admin [OF e this young_db_ok] show ?thesis by simp
qed

text \<open>
  A name that is taken leaves a deployment without an administrator. Where the configured username
  belongs to an ordinary account and no superadmin exists, the boot succeeds - the conflict is read
  as another instance having been first - and there is still no superadmin afterwards.
\<close>

theorem taken_name_leaves_no_admin:
  "let (r, w') = Run_bootstrap sample_app (ret ()) [] (first_admin ''alice'') young_world
   in r = Inr () \<and> superadmins (db w') = 0"
  by code_simp

end
