(* ===== verification/Authclient.thy ===== *)
theory Authclient
  imports Token Http
begin

text \<open>
  Package \<open>pkg/authclient\<close>: the verifier a consuming service runs. It keeps the published keys it
  fetched last, a memo of key ids that a fetch did not explain, and a budget of fetches per minute.

  The state is the \<open>Verifier\<close>, the number of readings of the outside world so far, and the number
  of requests it sent: the n-th
  reading of the clock and the n-th answer of the network are functions of the environment, so a
  theorem over all environments is one over all clocks and networks. One request runs at a time;
  the locks of the source order the single reads and writes of concurrent ones.
\<close>

section \<open>State and environment\<close>

record client_config =
  JWKSURL :: string
  cc_issuer :: string
  cc_audience :: string
  RefreshInterval :: duration
  MaxRefreshPerMinute :: int
  MaxUnknownKids :: int

datatype client_error =
    MissingToken | InvalidToken string | ClientExpired | FetchError string

record client_claims =
  cc_user :: string
  cc_session :: string
  cc_token :: string
  cc_role :: string
  cc_expires :: instant
  cc_issued :: instant

record verifier =
  vf_cfg :: client_config
  vf_keys :: "(string \<times> string) list"
  fetchedAt :: instant
  unknownKids :: "string list"
  windowStart :: instant
  windowRefresh :: int

record consumer =
  vf :: verifier
  tick :: nat
  fetches :: nat

text \<open>
  The environment: the clock, the HTTP client, \<open>encoding/json\<close> on a token header (its \<open>kid\<close>, empty
  when absent) and on a key set document. A body that cannot be read to its end is \<open>None\<close>.
\<close>

record jwks_answer =
  ja_code :: int
  ja_status :: string
  ja_body :: "string option"

record consumer_env =
  ce_ext :: ext
  ce_now :: "nat \<Rightarrow> instant"
  ce_url_valid :: "string \<Rightarrow> bool"
  ce_get :: "nat \<Rightarrow> string + jwks_answer"
  header_json :: "string \<Rightarrow> string option"
  jwks_json :: "string \<Rightarrow> jwk list option"

type_synonym 'a client_act = "(consumer, client_error, 'a) act"

definition reading :: "(nat \<Rightarrow> 'a) \<Rightarrow> 'a client_act" where
  "reading f s = (Inr (f (tick s)), s\<lparr>tick := Suc (tick s)\<rparr>)"

definition send_get :: "consumer_env \<Rightarrow> (string + jwks_answer) client_act" where
  "send_get E s = (Inr (ce_get E (tick s)), s\<lparr>tick := Suc (tick s), fetches := Suc (fetches s)\<rparr>)"

definition get_vf :: "(verifier \<Rightarrow> 'a) \<Rightarrow> 'a client_act" where
  "get_vf f s = (Inr (f (vf s)), s)"

definition put_vf :: "(verifier \<Rightarrow> verifier) \<Rightarrow> unit client_act" where
  "put_vf f s = (Inr (), s\<lparr>vf := f (vf s)\<rparr>)"

section \<open>Construction\<close>

definition applyDefaults :: "client_config \<Rightarrow> client_config" where
  "applyDefaults c =
     (let c = (if RefreshInterval c = 0 then c\<lparr>RefreshInterval := Hour\<rparr> else c);
          c = (if MaxRefreshPerMinute c = 0 then c\<lparr>MaxRefreshPerMinute := 10\<rparr> else c)
      in if MaxUnknownKids c = 0 then c\<lparr>MaxUnknownKids := 256\<rparr> else c)"

definition New_verifier :: "client_config \<Rightarrow> client_error + verifier" where
  "New_verifier cfg =
     (if JWKSURL cfg = [] then Inl (FetchError ''authclient: JWKSURL is required'')
      else Inr \<lparr>vf_cfg = applyDefaults cfg, vf_keys = [], fetchedAt = zero_time, unknownKids = [],
                windowStart = zero_time, windowRefresh = 0\<rparr>)"

section \<open>Keys\<close>

definition peekKeyID :: "consumer_env \<Rightarrow> string \<Rightarrow> string + string" where
  "peekKeyID E raw =
     (case Cut raw ''.'' of
        None \<Rightarrow> Inl ''malformed token''
      | Some (head, _) \<Rightarrow>
          if head = [] then Inl ''malformed token''
          else (case raw_decode True False head of
              None \<Rightarrow> Inl ''malformed token header''
            | Some decoded \<Rightarrow>
                (case header_json E decoded of
                   None \<Rightarrow> Inl ''malformed token header''
                 | Some kid \<Rightarrow> if kid = [] then Inl ''token has no key id'' else Inr kid)))"

definition key_of :: "verifier \<Rightarrow> string \<Rightarrow> string option" where
  "key_of v kid = map_of (vf_keys v) kid"

definition hasKey :: "string \<Rightarrow> bool client_act" where
  "hasKey kid = get_vf (\<lambda>v. key_of v kid \<noteq> None)"

definition hasAnyKey :: "bool client_act" where
  "hasAnyKey = get_vf (\<lambda>v. vf_keys v \<noteq> [])"

definition needsInitialFetch :: "consumer_env \<Rightarrow> bool client_act" where
  "needsInitialFetch E =
     andthen hasAnyKey (\<lambda>some_key.
     if \<not> some_key then ret True
     else andthen (reading (ce_now E)) (\<lambda>now.
       get_vf (\<lambda>v. now - fetchedAt v \<ge> RefreshInterval (vf_cfg v))))"

text \<open>The critical section of \<open>mayRefreshFor\<close> at the time \<open>now\<close>.\<close>

definition open_window :: "instant \<Rightarrow> verifier \<Rightarrow> verifier" where
  "open_window now v =
     (if now - windowStart v \<ge> Minute then v\<lparr>windowStart := now, windowRefresh := 0\<rparr> else v)"

definition mayRefreshFor :: "consumer_env \<Rightarrow> string \<Rightarrow> bool client_act" where
  "mayRefreshFor E kid =
     andthen (get_vf (\<lambda>v. kid \<in> set (unknownKids v))) (\<lambda>known.
     if known then ret False
     else andthen (reading (ce_now E)) (\<lambda>now.
       andthen (put_vf (open_window now)) (\<lambda>_.
       andthen (get_vf (\<lambda>v. windowRefresh v \<ge> MaxRefreshPerMinute (vf_cfg v))) (\<lambda>full.
       if full then ret False
       else andthen (put_vf (\<lambda>v. v\<lparr>windowRefresh := windowRefresh v + 1\<rparr>)) (\<lambda>_. ret True)))))"

definition remember :: "string \<Rightarrow> verifier \<Rightarrow> verifier" where
  "remember kid v =
     (let known = (if int (length (unknownKids v)) \<ge> MaxUnknownKids (vf_cfg v) then [] else unknownKids v)
      in v\<lparr>unknownKids := List.insert kid known\<rparr>)"

definition rememberUnknown :: "string \<Rightarrow> unit client_act" where
  "rememberUnknown kid = put_vf (remember kid)"

definition store_keys :: "(string \<times> string) list \<Rightarrow> instant \<Rightarrow> verifier \<Rightarrow> verifier" where
  "store_keys keys now v = v\<lparr>vf_keys := keys, fetchedAt := now, unknownKids := []\<rparr>"

text \<open>What \<open>refresh\<close> makes of an answer: the keys, or why there are none.\<close>

definition keys_of_answer :: "consumer_env \<Rightarrow> string + jwks_answer \<Rightarrow> client_error + (string \<times> string) list" where
  "keys_of_answer E r =
     (case r of
        Inl m \<Rightarrow> Inl (FetchError (''authclient: fetch jwks: '' @ m))
      | Inr res \<Rightarrow>
          if ja_code res \<noteq> 200 then Inl (FetchError (''authclient: jwks returned '' @ ja_status res))
          else (case ja_body res of
              None \<Rightarrow> Inl (FetchError ''authclient: read jwks'')
            | Some body \<Rightarrow>
                (case jwks_json E (take (2 ^ 20) body) of
                   None \<Rightarrow> Inl (FetchError ''token: parse jwks'')
                 | Some doc \<Rightarrow>
                     (case ParseJWKS doc of
                        Inl _ \<Rightarrow> Inl (FetchError ''token: jwks'')
                      | Inr keys \<Rightarrow> Inr keys))))"

definition refresh :: "consumer_env \<Rightarrow> unit client_act" where
  "refresh E =
     andthen (get_vf (\<lambda>v. JWKSURL (vf_cfg v))) (\<lambda>url.
     if \<not> ce_url_valid E url then raise (FetchError ''authclient: build jwks request'')
     else
       andthen (send_get E) (\<lambda>r.
       andthen (lift (keys_of_answer E r)) (\<lambda>keys.
       andthen (reading (ce_now E)) (\<lambda>now.
       put_vf (store_keys keys now)))))"

section \<open>Verifying\<close>

definition client_claims_of :: "claims \<Rightarrow> client_claims" where
  "client_claims_of c =
     \<lparr>cc_user = cl_subject c, cc_session = cl_session c, cc_token = cl_id c, cc_role = cl_role c,
      cc_expires = (case cl_expires c of Some x \<Rightarrow> from_unix x | None \<Rightarrow> zero_time),
      cc_issued = (case cl_issued c of Some x \<Rightarrow> from_unix x | None \<Rightarrow> zero_time)\<rparr>"

fun client_jwt_error :: "jwt_error \<Rightarrow> client_error" where
  "client_jwt_error JwtExpired = ClientExpired"
| "client_jwt_error JwtKeyFunc = InvalidToken ''unknown key''"
| "client_jwt_error (JwtOther m) = InvalidToken m"

definition client_opts :: "client_config \<Rightarrow> parse_options" where
  "client_opts cfg = \<lparr>po_methods = [''EdDSA''], po_issuer = cc_issuer cfg, po_audience = cc_audience cfg,
     po_exp_required = True\<rparr>"

definition parse_token :: "consumer_env \<Rightarrow> string \<Rightarrow> client_claims client_act" where
  "parse_token E raw =
     andthen (get_vf (\<lambda>v. v)) (\<lambda>v.
     andthen (reading (ce_now E)) (\<lambda>now.
     andthen (map_err client_jwt_error (lift (jwt_parse (ce_ext E) (client_opts (vf_cfg v)) (key_of v) now raw)))
       (\<lambda>c. ret (client_claims_of c))))"

text \<open>The two places of \<open>Verify\<close> that may fetch: a cold or aged cache, and a key id not seen before.\<close>

definition warm :: "consumer_env \<Rightarrow> unit client_act" where
  "warm E =
     andthen (needsInitialFetch E) (\<lambda>stale.
     if \<not> stale then ret ()
     else attempt (refresh E) (\<lambda>r. case r of
         Inr _ \<Rightarrow> ret ()
       | Inl err \<Rightarrow> andthen hasAnyKey (\<lambda>some_key. if \<not> some_key then raise err else ret ())))"

definition find_key :: "consumer_env \<Rightarrow> string \<Rightarrow> unit client_act" where
  "find_key E kid =
     andthen (hasKey kid) (\<lambda>known.
     if known then ret ()
     else
       andthen (mayRefreshFor E kid) (\<lambda>may.
       if \<not> may then raise (InvalidToken ''unknown key id'')
       else
         andthen (refresh E) (\<lambda>_.
         andthen (hasKey kid) (\<lambda>known.
         if \<not> known then andthen (rememberUnknown kid) (\<lambda>_. raise (InvalidToken ''unknown key id''))
         else ret ()))))"

definition Verify_client :: "consumer_env \<Rightarrow> string \<Rightarrow> client_claims client_act" where
  "Verify_client E raw =
     (if raw = [] then raise MissingToken
      else (case peekKeyID E raw of
          Inl m \<Rightarrow> raise (InvalidToken m)
        | Inr kid \<Rightarrow> andthen (warm E) (\<lambda>_. andthen (find_key E kid) (\<lambda>_. parse_token E raw))))"

section \<open>The gin middleware\<close>

definition bearerToken :: "string \<Rightarrow> string" where
  "bearerToken header =
     (let prefix = ''Bearer '' in
      if length header \<le> length prefix \<or> \<not> EqualFold_ascii (take (length prefix) header) prefix then []
      else TrimSpace (drop (length prefix) header))"

text \<open>The message of a refusal; the status is always 401.\<close>

fun refusal :: "client_error \<Rightarrow> string" where
  "refusal MissingToken = ''missing bearer token''"
| "refusal ClientExpired = ''token expired''"
| "refusal _ = ''invalid token''"

text \<open>The context carries the claims, when a token was verified.\<close>

definition Require :: "consumer_env \<Rightarrow> request \<Rightarrow> (consumer, int \<times> string, client_claims option) act" where
  "Require E req =
     map_err (\<lambda>err. (401, refusal err))
       (andthen (Verify_client E (bearerToken (Header_Get req ''Authorization''))) (\<lambda>c. ret (Some c)))"

definition Optional_auth ::
  "consumer_env \<Rightarrow> request \<Rightarrow> client_claims option \<Rightarrow> (consumer, int \<times> string, client_claims option) act" where
  "Optional_auth E req ctx =
     (let raw = bearerToken (Header_Get req ''Authorization'') in
      if raw = [] then ret ctx
      else attempt (Verify_client E raw) (\<lambda>r. case r of Inl _ \<Rightarrow> ret ctx | Inr c \<Rightarrow> ret (Some c)))"

definition UserID_client :: "client_claims option \<Rightarrow> string" where
  "UserID_client ctx = (case ctx of None \<Rightarrow> [] | Some c \<Rightarrow> cc_user c)"

end
