(* ===== verification/AuthclientLaws.thy ===== *)
theory AuthclientLaws
  imports Authclient Sample
begin

text \<open>
  What a consuming service may rely on: it accepts what the service issued, it accepts nothing but
  what a published key vouches for, and forged tokens make it send a bounded number of requests.
\<close>

lemmas client_simps = get_vf_def put_vf_def reading_def send_get_def andthen_simp map_err_simp attempt_simp

section \<open>The steps of the verifier\<close>

lemma refresh_steps:
  assumes "refresh E s = (r, t)"
  shows "(\<exists>err. r = Inl err \<and> vf t = vf s \<and> tick s \<le> tick t \<and> fetches t \<le> Suc (fetches s))
    \<or> (\<exists>keys. r = Inr () \<and> keys_of_answer E (ce_get E (tick s)) = Inr keys
        \<and> vf t = store_keys keys (ce_now E (Suc (tick s))) (vf s)
        \<and> tick t = Suc (Suc (tick s)) \<and> fetches t = Suc (fetches s))"
  using assms
  by (auto simp: refresh_def client_simps split: if_splits sum.splits)

lemma keys_of_answer_nonempty: "keys_of_answer E a = Inr keys \<Longrightarrow> keys \<noteq> []"
  by (auto simp: keys_of_answer_def ParseJWKS_def split: sum.splits if_splits option.splits)

lemma needsInitialFetch_steps:
  assumes "needsInitialFetch E s = (r, t)"
  shows "vf t = vf s \<and> tick s \<le> tick t \<and> fetches t = fetches s \<and>
    (if vf_keys (vf s) = [] then r = Inr True \<and> t = s
     else r = Inr (ce_now E (tick s) - fetchedAt (vf s) \<ge> RefreshInterval (vf_cfg (vf s))))"
  using assms by (auto simp: needsInitialFetch_def hasAnyKey_def client_simps split: if_splits)

lemma mayRefreshFor_steps:
  assumes "mayRefreshFor E kid s = (r, t)"
  shows "tick s \<le> tick t \<and> fetches t = fetches s \<and>
    (\<exists>v. (v = vf s \<or> v = open_window (ce_now E (tick s)) (vf s)) \<and>
      (r = Inr False \<and> vf t = v \<or>
       r = Inr True \<and> kid \<notin> set (unknownKids (vf s)) \<and> v = open_window (ce_now E (tick s)) (vf s)
         \<and> windowRefresh v < MaxRefreshPerMinute (vf_cfg v) \<and> vf t = v\<lparr>windowRefresh := windowRefresh v + 1\<rparr>))"
  using assms by (auto simp: mayRefreshFor_def client_simps split: if_splits)

section \<open>A consumer accepts what the service issues\<close>

text \<open>
  The environment of a consumer of the service whose signer is \<open>sg\<close>: a request for the key set fails
  or is answered with the document the signer publishes; the header of a token the library signed
  names the key it was signed with.
\<close>

definition serves :: "consumer_env \<Rightarrow> signer \<Rightarrow> string + jwks_answer \<Rightarrow> bool" where
  "serves E sg a \<longleftrightarrow> (\<exists>status body. a = Inr \<lparr>ja_code = 200, ja_status = status, ja_body = Some body\<rparr> \<and>
     jwks_json E (take (2 ^ 20) body) = Some (sg_jwks sg))"

definition honest :: "consumer_env \<Rightarrow> signer \<Rightarrow> bool" where
  "honest E sg \<longleftrightarrow> (\<forall>n. isl (ce_get E n) \<or> serves E sg (ce_get E n))"

definition kid_law :: "consumer_env \<Rightarrow> bool" where
  "kid_law E \<longleftrightarrow> (\<forall>key kid c raw. jwt_sign (ce_ext E) key kid c = Some raw \<longrightarrow> raw \<noteq> [] \<and> peekKeyID E raw = Inr kid)"

definition active_key :: "consumer_env \<Rightarrow> signer \<Rightarrow> verifier \<Rightarrow> bool" where
  "active_key E sg v \<longleftrightarrow> key_of v (sg_kid sg) = Some (ed25519_public (ce_ext E) (sg_priv sg))"

lemma served_keys:
  assumes "New_signer (ce_ext E) cfg = Inr sg" "length (ed25519_public (ce_ext E) (sg_priv sg)) = 32" "serves E sg a"
  shows "\<exists>keys. keys_of_answer E a = Inr keys \<and> map_of keys (sg_kid sg) = Some (ed25519_public (ce_ext E) (sg_priv sg))"
proof -
  obtain pubs where p: "sg_cfg sg = cfg" "sg_kid sg = KeyID (ce_ext E) (ed25519_public (ce_ext E) (sg_priv sg))" "length (sg_priv sg) = 32"
    "sg_jwks sg = buildJWKS (ce_ext E) [] (ed25519_public (ce_ext E) (sg_priv sg) # pubs)" "\<And>q. q \<in> set pubs \<Longrightarrow> length q = 32"
    using assms(1) by (rule New_signer_published) (simp_all only:)
  have "ParseJWKS (sg_jwks sg) = Inr (rev (map (\<lambda>q. (KeyID (ce_ext E) q, q))
      (first_keys (ce_ext E) [] (ed25519_public (ce_ext E) (sg_priv sg) # pubs))))"
    unfolding p(4) by (rule ParseJWKS_published) (use p(5) assms(2) in auto)
  then obtain keys where keys: "ParseJWKS (sg_jwks sg) = Inr keys"
    "map_of keys (sg_kid sg) = Some (ed25519_public (ce_ext E) (sg_priv sg))"
    using first_key_published [of "ce_ext E" "ed25519_public (ce_ext E) (sg_priv sg)" pubs]
    unfolding p(2) by blast
  from assms(3) obtain status body where a: "a = Inr \<lparr>ja_code = 200, ja_status = status, ja_body = Some body\<rparr>"
    "jwks_json E (take (2 ^ 20) body) = Some (sg_jwks sg)"
    unfolding serves_def by blast
  have "keys_of_answer E a = Inr keys"
    unfolding a(1) keys_of_answer_def by (simp add: a(2) keys(1) del: power_numeral)
  with keys(2) show ?thesis by blast
qed

lemma refresh_honest:
  assumes "New_signer (ce_ext E) cfg = Inr sg" "length (ed25519_public (ce_ext E) (sg_priv sg)) = 32" "honest E sg"
    and "refresh E s = (r, t)"
  shows "vf_cfg (vf t) = vf_cfg (vf s) \<and> (r = Inr () \<longrightarrow> active_key E sg (vf t)) \<and> (r \<noteq> Inr () \<longrightarrow> vf t = vf s)"
proof -
  consider (failed) "isl (ce_get E (tick s))" | (served) "serves E sg (ce_get E (tick s))"
    using assms(3) by (auto simp: honest_def)
  then show ?thesis
  proof cases
    case failed
    with refresh_steps [OF assms(4)] show ?thesis
      by (auto simp: keys_of_answer_def isl_def)
  next
    case served
    from refresh_steps [OF assms(4)] served_keys [OF assms(1,2) served]
    show ?thesis by (auto simp: active_key_def key_of_def store_keys_def)
  qed
qed

lemma refresh_served:
  assumes "New_signer (ce_ext E) cfg = Inr sg" "length (ed25519_public (ce_ext E) (sg_priv sg)) = 32"
    and "serves E sg (ce_get E (tick s))" "ce_url_valid E (JWKSURL (vf_cfg (vf s)))"
  shows "\<exists>t. refresh E s = (Inr (), t) \<and> vf_cfg (vf t) = vf_cfg (vf s) \<and> active_key E sg (vf t)"
  using served_keys [OF assms(1-3)] assms(4)
  by (auto simp: refresh_def client_simps store_keys_def active_key_def key_of_def)

lemma parse_issued:
  assumes "Sign e sg userID sessionID role at now w = (Inr (tok, jti, exp), w')"
    and "jwt_round_trip e" "e = ce_ext E" "active_key E sg (vf s)" "from_unix (Unix now) \<le> ce_now E (tick s)"
    and "ce_now E (tick s) < from_unix (Unix (now + AccessTTL (sg_cfg sg)))"
    and "cc_issuer (vf_cfg (vf s)) = Issuer (sg_cfg sg)" "cc_audience (vf_cfg (vf s)) = Audience (sg_cfg sg)"
  shows "fst (parse_token E tok s) = Inr \<lparr>cc_user = userID, cc_session = sessionID, cc_token = jti, cc_role = role,
      cc_expires = from_unix (Unix (now + AccessTTL (sg_cfg sg))), cc_issued = from_unix (Unix now)\<rparr>"
proof -
  let ?c = "claims_of sg userID sessionID role at now jti"
  from assms(1) have "jwt_sign e (sg_priv sg) (sg_kid sg) ?c = Some tok"
    by (auto simp: Sign_def act_inv split: option.splits)
  then have "jwt_parse e (client_opts (vf_cfg (vf s))) (key_of (vf s)) (ce_now E (tick s)) tok = Inr ?c"
    using assms(2-8) unfolding jwt_round_trip_def active_key_def client_opts_def claims_of_def by simp
  with assms(3) show ?thesis
    by (simp add: parse_token_def client_simps client_claims_of_def claims_of_def)
qed

lemma hasKey_step: "hasKey kid s = (Inr (key_of (vf s) kid \<noteq> None), s)"
  by (simp add: hasKey_def get_vf_def)

lemma warm_served:
  assumes "New_signer (ce_ext E) cfg = Inr sg" "length (ed25519_public (ce_ext E) (sg_priv sg)) = 32" "honest E sg"
    and "active_key E sg (vf s) \<or>
      vf_keys (vf s) = [] \<and> serves E sg (ce_get E (tick s)) \<and> ce_url_valid E (JWKSURL (vf_cfg (vf s)))"
  shows "\<exists>t. warm E s = (Inr (), t) \<and> vf_cfg (vf t) = vf_cfg (vf s) \<and> active_key E sg (vf t)"
proof (cases "vf_keys (vf s) = []")
  case True
  with assms(4) have "serves E sg (ce_get E (tick s))" "ce_url_valid E (JWKSURL (vf_cfg (vf s)))"
    by (auto simp: active_key_def key_of_def)
  from refresh_served [OF assms(1,2) this] True show ?thesis
    by (auto simp: warm_def needsInitialFetch_def hasAnyKey_def client_simps)
next
  case False
  with assms(4) have act: "active_key E sg (vf s)" by blast
  obtain q s1 where q: "needsInitialFetch E s = (q, s1)" by fastforce
  from needsInitialFetch_steps [OF q] False obtain stale where s1: "vf s1 = vf s" "q = Inr stale" by auto
  show ?thesis
  proof (cases stale)
    case True
    obtain r t where r: "refresh E s1 = (r, t)" by fastforce
    from refresh_honest [OF assms(1-3) r] s1 act False q r True show ?thesis
      by (cases r) (auto simp: warm_def andthen_simp attempt_simp hasAnyKey_def get_vf_def)
  qed (use q s1 act in \<open>simp add: warm_def andthen_simp\<close>)
qed

lemma find_active: "active_key E sg (vf s) \<Longrightarrow> find_key E (sg_kid sg) s = (Inr (), s)"
  by (auto simp: find_key_def andthen_simp hasKey_step active_key_def)

text \<open>After a rotation of the service's key: the consumer knows other keys, and has budget left to ask.\<close>

definition rotated_away :: "consumer_env \<Rightarrow> signer \<Rightarrow> consumer \<Rightarrow> bool" where
  "rotated_away E sg s \<longleftrightarrow> vf_keys (vf s) \<noteq> [] \<and> key_of (vf s) (sg_kid sg) = None \<and> sg_kid sg \<notin> set (unknownKids (vf s)) \<and>
     0 < MaxRefreshPerMinute (vf_cfg (vf s)) \<and> windowRefresh (vf s) < MaxRefreshPerMinute (vf_cfg (vf s)) \<and>
     ce_url_valid E (JWKSURL (vf_cfg (vf s))) \<and> (\<forall>n. serves E sg (ce_get E n))"

lemma find_rotated:
  assumes "New_signer (ce_ext E) cfg = Inr sg" "length (ed25519_public (ce_ext E) (sg_priv sg)) = 32" "rotated_away E sg s"
  shows "\<exists>t. find_key E (sg_kid sg) s = (Inr (), t) \<and> vf_cfg (vf t) = vf_cfg (vf s) \<and> active_key E sg (vf t)"
proof -
  obtain q s1 where m: "mayRefreshFor E (sg_kid sg) s = (q, s1)" by fastforce
  have s1: "q = Inr True" "vf_cfg (vf s1) = vf_cfg (vf s)"
    using m assms(3) by (auto simp: mayRefreshFor_def client_simps rotated_away_def open_window_def split: if_splits)
  have url: "ce_url_valid E (JWKSURL (vf_cfg (vf s1)))" and served: "serves E sg (ce_get E (tick s1))"
    using s1 assms(3) by (simp_all add: rotated_away_def)
  obtain t where t: "refresh E s1 = (Inr (), t)" "vf_cfg (vf t) = vf_cfg (vf s1)" "active_key E sg (vf t)"
    using refresh_served [OF assms(1,2) served url] by blast
  then have "key_of (vf t) (sg_kid sg) \<noteq> None" by (simp add: active_key_def)
  with m s1 t assms(3) show ?thesis
    by (auto simp: find_key_def andthen_simp hasKey_step rotated_away_def)
qed

lemma warm_rotated:
  assumes "New_signer (ce_ext E) cfg = Inr sg" "length (ed25519_public (ce_ext E) (sg_priv sg)) = 32" "rotated_away E sg s"
  shows "\<exists>t. warm E s = (Inr (), t) \<and> vf_cfg (vf t) = vf_cfg (vf s) \<and> (active_key E sg (vf t) \<or> rotated_away E sg t)"
proof -
  obtain q s1 where q: "needsInitialFetch E s = (q, s1)" by fastforce
  have ne: "vf_keys (vf s) \<noteq> []" using assms(3) by (simp add: rotated_away_def)
  from needsInitialFetch_steps [OF q] ne obtain stale where s1: "vf s1 = vf s" "q = Inr stale" by auto
  show ?thesis
  proof (cases stale)
    case True
    from refresh_served [OF assms(1,2), of s1] s1 assms(3) q True show ?thesis
      by (auto simp: warm_def andthen_simp attempt_simp rotated_away_def)
  qed (use q s1 assms(3) in \<open>auto simp: warm_def andthen_simp rotated_away_def\<close>)
qed


section \<open>A consumer accepts nothing else\<close>

text \<open>Requests with one token after another, whatever becomes of them.\<close>

primrec verify_all :: "consumer_env \<Rightarrow> string list \<Rightarrow> consumer \<Rightarrow> consumer" where
  "verify_all E [] s = s"
| "verify_all E (raw # raws) s = verify_all E raws (snd (Verify_client E raw s))"

lemma keeps_verify_all: "(\<And>raw. keeps P (Verify_client E raw)) \<Longrightarrow> P s \<Longrightarrow> P (verify_all E raws s)"
  by (induction raws arbitrary: s) (auto simp: keeps_def)

definition published :: "consumer_env \<Rightarrow> client_config \<Rightarrow> consumer \<Rightarrow> bool" where
  "published E cfg s \<longleftrightarrow> vf_cfg (vf s) = cfg \<and>
     (vf_keys (vf s) = [] \<or> (\<exists>n. keys_of_answer E (ce_get E n) = Inr (vf_keys (vf s))))"

lemma keeps_published_verifier:
  "(\<And>s t. vf_cfg (vf t) = vf_cfg (vf s) \<Longrightarrow> vf_keys (vf t) = vf_keys (vf s) \<Longrightarrow> P s \<Longrightarrow> P t) \<Longrightarrow> keeps P (refresh E) \<Longrightarrow>
     keeps P (Verify_client E raw)"
  unfolding Verify_client_def warm_def find_key_def parse_token_def needsInitialFetch_def hasAnyKey_def hasKey_def
    mayRefreshFor_def rememberUnknown_def
  by (intro keeps_rules) (auto simp: keeps_def get_vf_def put_vf_def reading_def remember_def open_window_def Let_def)

lemma keeps_published: "keeps (published E cfg) (Verify_client E raw)"
proof (rule keeps_published_verifier)
  show "keeps (published E cfg) (refresh E)"
    unfolding keeps_def
  proof (intro allI impI)
    fix s assume "published E cfg s"
    with refresh_steps [of E s "fst (refresh E s)" "snd (refresh E s)"] show "published E cfg (snd (refresh E s))"
      by (auto simp: published_def store_keys_def)
  qed
qed (auto simp: published_def)

lemma parse_token_Inr:
  assumes "parse_token E raw s = (Inr c, t)"
  shows "vf t = vf s \<and> tick t = Suc (tick s) \<and>
    (\<exists>cl. jwt_parse (ce_ext E) (client_opts (vf_cfg (vf s))) (key_of (vf s)) (ce_now E (tick s)) raw = Inr cl
    \<and> c = client_claims_of cl)"
  using assms by (auto simp: parse_token_def client_simps split: sum.splits)

lemma find_key_Inr:
  assumes "find_key E kid s = (Inr (), t)"
  shows "vf_keys (vf t) \<noteq> []"
proof -
  have "key_of (vf t) kid \<noteq> None"
    using assms by (auto simp: find_key_def act_inv hasKey_step split: if_splits)
  then show ?thesis by (auto simp: key_of_def)
qed

lemma keeps_tick_warm: "keeps (\<lambda>s. n \<le> tick s) (warm E)"
  unfolding warm_def needsInitialFetch_def hasAnyKey_def refresh_def
  by (intro keeps_rules) (auto simp: keeps_def get_vf_def put_vf_def reading_def send_get_def)

lemma keeps_tick_find: "keeps (\<lambda>s. n \<le> tick s) (find_key E kid)"
  unfolding find_key_def hasKey_def mayRefreshFor_def rememberUnknown_def refresh_def
  by (intro keeps_rules) (auto simp: keeps_def get_vf_def put_vf_def reading_def send_get_def)

lemma Verify_client_Inr:
  assumes "Verify_client E raw s = (Inr c, t)"
  obtains i cl where "tick s \<le> i" "tick t = Suc i" "vf_keys (vf t) \<noteq> []" "c = client_claims_of cl"
    "jwt_parse (ce_ext E) (client_opts (vf_cfg (vf t))) (key_of (vf t)) (ce_now E i) raw = Inr cl"
proof -
  from assms obtain kid s1 s2 where p: "warm E s = (Inr (), s1)" "find_key E kid s1 = (Inr (), s2)" "parse_token E raw s2 = (Inr c, t)"
    by (auto simp: Verify_client_def act_inv split: if_splits sum.splits)
  have "tick s \<le> tick s2" using keepsD [OF keeps_tick_find p(2)] keepsD [OF keeps_tick_warm p(1)] by blast
  with find_key_Inr [OF p(2)] parse_token_Inr [OF p(3)] that show thesis by fastforce
qed

text \<open>
  C39. A consumer accepts only what a published key vouches for. Whatever was presented before, however
  the clock runs and whatever the network answers, a token that verifies was accepted by the JWT
  library under the keys of a document the service published, at the time the clock showed during this
  very call - the last thing the call asked the outside - and it carries the configured issuer and audience and had not
  expired at that time.
\<close>

theorem consumer_accepts_only_published:
  assumes "New_verifier cfg = Inr v" "jwt_parse_sound (ce_ext E)"
    and "s = verify_all E raws \<lparr>vf = v, tick = n, fetches = m\<rparr>" "Verify_client E raw s = (Inr c, t)"
  shows "\<exists>k keys i cl. keys_of_answer E (ce_get E k) = Inr keys \<and> tick s \<le> i \<and> tick t = Suc i
    \<and> jwt_parse (ce_ext E) (client_opts cfg) (map_of keys) (ce_now E i) raw = Inr cl \<and> c = client_claims_of cl
    \<and> cl_issuer cl = cc_issuer cfg \<and> cc_audience cfg \<in> set (cl_audience cl) \<and> ce_now E i < cc_expires c"
proof -
  let ?cfg = "applyDefaults cfg"
  have opts: "client_opts ?cfg = client_opts cfg"
    by (simp add: client_opts_def applyDefaults_def Let_def)
  have "published E ?cfg \<lparr>vf = v, tick = n, fetches = m\<rparr>"
    using assms(1) by (auto simp: published_def New_verifier_def split: if_splits)
  then have "published E ?cfg s"
    unfolding assms(3) by (rule keeps_verify_all [OF keeps_published])
  note pub = keepsD [OF keeps_published assms(4) this]
  from assms(4) obtain i cl where i: "tick s \<le> i" "tick t = Suc i" and ne: "vf_keys (vf t) \<noteq> []"
    and c: "c = client_claims_of cl"
    and jp: "jwt_parse (ce_ext E) (client_opts (vf_cfg (vf t))) (key_of (vf t)) (ce_now E i) raw = Inr cl"
    by (rule Verify_client_Inr)
  from pub ne obtain k where k: "keys_of_answer E (ce_get E k) = Inr (vf_keys (vf t))" by (auto simp: published_def)
  have "key_of (vf t) = map_of (vf_keys (vf t))" by (simp add: key_of_def fun_eq_iff)
  with jp pub have cl: "jwt_parse (ce_ext E) (client_opts cfg) (map_of (vf_keys (vf t))) (ce_now E i) raw = Inr cl"
    by (simp add: published_def opts)
  with assms(2) have "cl_issuer cl = cc_issuer cfg \<and> cc_audience cfg \<in> set (cl_audience cl) \<and> ce_now E i < cc_expires c"
    unfolding jwt_parse_sound_def client_opts_def c client_claims_of_def by fastforce
  with k i cl c show ?thesis by blast
qed

section \<open>Forged tokens cost a bounded number of requests\<close>

text \<open>What is left of the budget of fetches in an interval that starts at \<open>T\<close>: at most one new window opens in it.\<close>

definition budget :: "instant \<Rightarrow> verifier \<Rightarrow> int" where
  "budget T v = (if windowStart v < T then MaxRefreshPerMinute (vf_cfg v) else 0) + (MaxRefreshPerMinute (vf_cfg v) - windowRefresh v)"

definition spent_at_most :: "client_config \<Rightarrow> instant \<Rightarrow> nat \<Rightarrow> int \<Rightarrow> consumer \<Rightarrow> bool" where
  "spent_at_most cfg T n B s \<longleftrightarrow> vf_cfg (vf s) = cfg \<and> n \<le> tick s \<and> vf_keys (vf s) \<noteq> []
     \<and> T + Minute \<le> fetchedAt (vf s) + RefreshInterval cfg \<and> windowRefresh (vf s) \<le> MaxRefreshPerMinute cfg
     \<and> int (fetches s) + budget T (vf s) \<le> B"

lemma spent_open_window:
  assumes "spent_at_most cfg T n B s" "T \<le> now" "now < T + Minute" "0 \<le> MaxRefreshPerMinute cfg"
  shows "spent_at_most cfg T n B (s\<lparr>vf := open_window now (vf s)\<rparr>)"
  using assms by (auto simp: spent_at_most_def open_window_def budget_def split: if_splits)

lemma spent_refresh:
  assumes "spent_at_most cfg T n (B - 1) s" "refresh E s = (r, t)" "Minute \<le> RefreshInterval cfg"
    and clock: "\<And>k. n \<le> k \<Longrightarrow> T \<le> ce_now E k"
  shows "spent_at_most cfg T n B t"
  using refresh_steps [OF assms(2)] assms(1,3) clock [of "Suc (tick s)"] keys_of_answer_nonempty
  by (auto simp: spent_at_most_def store_keys_def budget_def)

lemma spent_find_key:
  assumes "spent_at_most cfg T n B s" "find_key E kid s = (r, t)" "Minute \<le> RefreshInterval cfg" "0 \<le> MaxRefreshPerMinute cfg"
    and clock: "\<And>k. n \<le> k \<Longrightarrow> T \<le> ce_now E k \<and> ce_now E k < T + Minute"
  shows "spent_at_most cfg T n B t"
proof (cases "key_of (vf s) kid = None")
  case True
  obtain q s1 where q: "mayRefreshFor E kid s = (q, s1)" by fastforce
  have opened: "spent_at_most cfg T n B (s\<lparr>vf := open_window (ce_now E (tick s)) (vf s)\<rparr>)"
    using assms(1,4) clock [of "tick s"] by (intro spent_open_window) (auto simp: spent_at_most_def)
  note m = mayRefreshFor_steps [OF q]
  obtain v where v: "spent_at_most cfg T n B (s\<lparr>vf := v\<rparr>)"
    "q = Inr False \<and> vf s1 = v \<or> q = Inr True \<and> windowRefresh v < MaxRefreshPerMinute (vf_cfg v)
       \<and> vf s1 = v\<lparr>windowRefresh := windowRefresh v + 1\<rparr>"
    using m opened assms(1) by fastforce
  from m have m': "tick s \<le> tick s1" "fetches s1 = fetches s" by simp_all
  from v(2) have "q = Inr False \<and> spent_at_most cfg T n B s1 \<or> q = Inr True \<and> spent_at_most cfg T n (B - 1) s1"
  proof (elim disjE conjE)
    assume "q = Inr False" "vf s1 = v"
    with v(1) m' show ?thesis by (simp add: spent_at_most_def)
  next
    assume "q = Inr True" "windowRefresh v < MaxRefreshPerMinute (vf_cfg v)" "vf s1 = v\<lparr>windowRefresh := windowRefresh v + 1\<rparr>"
    with v(1) m' show ?thesis by (auto simp: spent_at_most_def budget_def split: if_splits)
  qed
  then consider (no) "q = Inr False" "spent_at_most cfg T n B s1" | (yes) "q = Inr True" "spent_at_most cfg T n (B - 1) s1"
    by blast
  then show ?thesis
  proof cases
    case yes
    obtain p s2 where p: "refresh E s1 = (p, s2)" by fastforce
    from spent_refresh [OF yes(2) p assms(3)] clock have "spent_at_most cfg T n B s2" by blast
    with assms(2) True q yes(1) p show ?thesis
      by (cases p) (auto simp: find_key_def andthen_simp hasKey_step rememberUnknown_def put_vf_def spent_at_most_def
          budget_def remember_def Let_def split: if_splits)
  qed (use assms(2) True q in \<open>auto simp: find_key_def andthen_simp hasKey_step\<close>)
qed (use assms(1,2) in \<open>auto simp: find_key_def andthen_simp hasKey_step\<close>)

lemma spent_Verify_client:
  assumes "spent_at_most cfg T n B s" "Minute \<le> RefreshInterval cfg" "0 \<le> MaxRefreshPerMinute cfg"
    and clock: "\<And>k. n \<le> k \<Longrightarrow> T \<le> ce_now E k \<and> ce_now E k < T + Minute"
  shows "spent_at_most cfg T n B (snd (Verify_client E raw s))"
proof (cases "raw = [] \<or> isl (peekKeyID E raw)")
  case False
  then obtain kid where kid: "peekKeyID E raw = Inr kid" "raw \<noteq> []" by (cases "peekKeyID E raw") auto
  obtain q s1 where q: "needsInitialFetch E s = (q, s1)" by fastforce
  note i = needsInitialFetch_steps [OF q]
  from assms(1) have k: "vf_keys (vf s) \<noteq> []" "n \<le> tick s"
    "T + Minute \<le> fetchedAt (vf s) + RefreshInterval (vf_cfg (vf s))" by (auto simp: spent_at_most_def)
  with clock [of "tick s"] i have "q = Inr False" by auto
  then have w: "warm E s = (Inr (), s1)" using q by (simp add: warm_def andthen_simp)
  have s1: "spent_at_most cfg T n B s1" using i assms(1) by (auto simp: spent_at_most_def)
  obtain p s2 where p: "find_key E kid s1 = (p, s2)" by fastforce
  from spent_find_key [OF s1 p assms(2,3) clock] have s2: "spent_at_most cfg T n B s2" by blast
  have "spent_at_most cfg T n B (snd (parse_token E raw s2))"
    using s2 by (auto simp: parse_token_def client_simps spent_at_most_def split: sum.splits)
  with kid w p s2 show ?thesis
    by (cases p) (auto simp: Verify_client_def andthen_simp)
qed (use assms(1) in \<open>auto simp: Verify_client_def isl_def\<close>)

text \<open>
  C40. Forged tokens cost a bounded number of requests. While the cached keys are fresh, whatever tokens
  are presented within a minute and however many, the consumer sends the service at most twice as many
  requests as its budget per minute: what is left of the window that is open and one new window.
\<close>

theorem forged_tokens_bounded_requests:
  assumes "vf_keys (vf s) \<noteq> []" "0 \<le> windowRefresh (vf s)" "windowRefresh (vf s) \<le> MaxRefreshPerMinute (vf_cfg (vf s))"
    and "Minute \<le> RefreshInterval (vf_cfg (vf s))" "T + Minute \<le> fetchedAt (vf s) + RefreshInterval (vf_cfg (vf s))"
    and clock: "\<And>k. tick s \<le> k \<Longrightarrow> T \<le> ce_now E k \<and> ce_now E k < T + Minute"
  shows "int (fetches (verify_all E raws s)) \<le> int (fetches s) + 2 * MaxRefreshPerMinute (vf_cfg (vf s))"
proof -
  let ?cfg = "vf_cfg (vf s)" and ?B = "int (fetches s) + 2 * MaxRefreshPerMinute (vf_cfg (vf s))"
  have start: "spent_at_most ?cfg T (tick s) ?B s"
    using assms(1-5) by (simp add: spent_at_most_def budget_def)
  have "keeps (spent_at_most ?cfg T (tick s) ?B) (Verify_client E raw)" for raw
    unfolding keeps_def
  proof (intro allI impI)
    fix s' assume "spent_at_most ?cfg T (tick s) ?B s'"
    then show "spent_at_most ?cfg T (tick s) ?B (snd (Verify_client E raw s'))"
      by (rule spent_Verify_client) (use assms clock in auto)
  qed
  then have "spent_at_most ?cfg T (tick s) ?B (verify_all E raws s)"
    using start by (rule keeps_verify_all)
  then show ?thesis
    using assms(2,3) by (auto simp: spent_at_most_def budget_def split: if_splits)
qed

text \<open>
  The memo of unknown key ids never holds more than one: every fetch empties it, and an id is only
  entered after a fetch.
\<close>

lemma memo_holds_one:
  assumes "length (unknownKids (vf s)) \<le> 1"
  shows "length (unknownKids (vf (snd (Verify_client E raw s)))) \<le> 1"
proof -
  let ?P = "\<lambda>s :: consumer. length (unknownKids (vf s)) \<le> 1"
  have refresh: "keeps ?P (refresh E)"
    unfolding refresh_def
    by (intro keeps_rules) (auto simp: keeps_def get_vf_def put_vf_def reading_def send_get_def store_keys_def)
  have emptied: "unknownKids (vf t) = []" if "refresh E s = (Inr (), t)" for s t
    using refresh_steps [OF that] by (auto simp: store_keys_def)
  have may: "keeps ?P (mayRefreshFor E kid)" for kid
    unfolding mayRefreshFor_def
    by (intro keeps_rules) (auto simp: keeps_def get_vf_def put_vf_def reading_def open_window_def)
  have find: "keeps ?P (find_key E kid)" for kid
    unfolding keeps_def
  proof (intro allI impI)
    fix s assume "?P s"
    obtain b s1 where b: "mayRefreshFor E kid s = (b, s1)" by fastforce
    obtain r s2 where r: "refresh E s1 = (r, s2)" by fastforce
    from keepsD [OF may b \<open>?P s\<close>] keepsD [OF refresh r] \<open>?P s\<close> emptied [of s1 s2] b r
    show "?P (snd (find_key E kid s))"
      by (cases b; cases r)
        (auto simp: find_key_def andthen_simp hasKey_step rememberUnknown_def put_vf_def remember_def Let_def)
  qed
  have "keeps ?P (Verify_client E raw)"
    unfolding Verify_client_def warm_def needsInitialFetch_def hasAnyKey_def parse_token_def
    by (intro keeps_rules refresh find) (auto simp: keeps_def get_vf_def reading_def)
  with assms show ?thesis by (simp add: keeps_def)
qed

section \<open>A concrete consumer\<close>

text \<open>
  A signer whose library signs one token, with the claims it was asked for, and accepts it back with
  the key it was signed with; and a consumer of it.
\<close>

definition demo_key :: string where "demo_key = replicate 32 (CHR ''k'')"
definition demo_kid :: string where "demo_kid = raw_encode True (replicate 8 (CHR ''k''))"
definition demo_token :: string where "demo_token = ''aGRy.x''"

definition demo_claims :: claims where
  "demo_claims = \<lparr>cl_session = ''s1'', cl_role = ''user'', cl_auth_time = 10, cl_issuer = ''goauth'', cl_subject = ''u1'',
     cl_audience = [''app''], cl_expires = Some 910, cl_issued = Some 10, cl_not_before = Some 10,
     cl_id = sample_uuid_text 30\<rparr>"

definition demo_ext :: ext where
  "demo_ext = sample_env\<lparr>
     jwt_sign := (\<lambda>key kid c. if key = demo_key \<and> kid = demo_kid \<and> c = demo_claims then Some demo_token else None),
     jwt_parse := (\<lambda>opts kf now raw.
       if raw = demo_token \<and> kf demo_kid = Some demo_key \<and> now < from_unix 910 \<and>
          po_issuer opts = ''goauth'' \<and> po_audience opts = ''app''
       then Inr demo_claims else Inl JwtExpired)\<rparr>"

definition demo_config :: token_config where
  "demo_config = \<lparr>PrivateKey = std_encode demo_key, PreviousPublicKeys = [], Issuer = ''goauth'', Audience = ''app'',
     AccessTTL = 900 * Second, RefreshTTL = 3600 * Second\<rparr>"

definition demo_signer :: signer where
  "demo_signer = \<lparr>sg_cfg = demo_config, sg_priv = demo_key, sg_kid = demo_kid, verifyKeys = [demo_kid \<mapsto> demo_key],
     sg_jwks = [jwk_of demo_ext demo_key]\<rparr>"

definition demo_env :: consumer_env where
  "demo_env = \<lparr>ce_ext = demo_ext, ce_now = (\<lambda>n. 20 * Second), ce_url_valid = (\<lambda>_. True),
     ce_get = (\<lambda>n. if n < 3 then Inr \<lparr>ja_code = 200, ja_status = ''200 OK'', ja_body = Some ''{}''\<rparr> else Inl ''refused''),
     header_json = (\<lambda>_. Some demo_kid), jwks_json = (\<lambda>_. Some (sg_jwks demo_signer))\<rparr>"

definition demo_client_config :: client_config where
  "demo_client_config = \<lparr>JWKSURL = ''https://auth'', cc_issuer = ''goauth'', cc_audience = ''app'',
     RefreshInterval = 0, MaxRefreshPerMinute = 0, MaxUnknownKids = 0\<rparr>"

definition demo_verifier :: verifier where
  "demo_verifier = \<lparr>vf_cfg = applyDefaults demo_client_config, vf_keys = [], fetchedAt = zero_time, unknownKids = [],
     windowStart = zero_time, windowRefresh = 0\<rparr>"

definition cold :: consumer where
  "cold = \<lparr>vf = demo_verifier, tick = 0, fetches = 0\<rparr>"

lemma demo_New: "New_verifier demo_client_config = Inr demo_verifier"
  by (simp add: New_verifier_def demo_client_config_def demo_verifier_def)

lemma demo_keyid: "KeyID demo_ext demo_key = demo_kid"
  by (simp add: KeyID_def demo_ext_def sample_env_def demo_key_def demo_kid_def)

lemma demo_seed: "decodeKey (std_encode demo_key) 32 = Inr demo_key"
  by code_simp

lemma demo_public: "ed25519_public demo_ext k = k"
  by (simp add: demo_ext_def sample_env_def)

lemma demo_signer: "New_signer demo_ext demo_config = Inr demo_signer"
  by (simp add: New_signer_def demo_signer_def demo_config_def demo_seed demo_public demo_keyid)

lemma demo_sign:
  "fst (Sign demo_ext demo_signer ''u1'' ''s1'' ''user'' (10 * Second) (10 * Second) sample_world)
     = Inr (demo_token, sample_uuid_text 30, 910 * Second)"
  by code_simp

lemma demo_peek: "peekKeyID demo_env demo_token = Inr demo_kid"
  by code_simp

lemma demo_laws: "jwt_round_trip demo_ext" "jwt_parse_sound demo_ext" "kid_law demo_env" "honest demo_env demo_signer"
  "serves demo_env demo_signer (ce_get demo_env 0)"
proof -
  show "jwt_round_trip demo_ext"
    by (auto simp: jwt_round_trip_def demo_ext_def sample_env_def demo_claims_def split: if_splits)
  show "jwt_parse_sound demo_ext"
    by (auto simp: jwt_parse_sound_def demo_ext_def demo_claims_def split: if_splits)
  have "jwt_sign demo_ext key kid c = Some raw \<Longrightarrow> raw = demo_token \<and> kid = demo_kid" for key kid c raw
    by (simp add: demo_ext_def split: if_splits)
  moreover have "ce_ext demo_env = demo_ext" "demo_token \<noteq> []" by (simp_all add: demo_env_def demo_token_def)
  ultimately show "kid_law demo_env"
    using demo_peek unfolding kid_law_def by metis
  show "honest demo_env demo_signer" "serves demo_env demo_signer (ce_get demo_env 0)"
    by (auto simp: honest_def serves_def demo_env_def)
qed

lemma demo_clock: "from_unix (Unix (10 * Second)) \<le> ce_now demo_env n \<and>
    ce_now demo_env n < from_unix (Unix (10 * Second + AccessTTL demo_config))"
  by (simp add: demo_env_def demo_config_def from_unix_def Unix_def Second_def)

text \<open>A consumer that knows another key only, of a service that answers.\<close>

definition stale_env :: consumer_env where
  "stale_env = demo_env\<lparr>ce_get := (\<lambda>n. Inr \<lparr>ja_code = 200, ja_status = ''200 OK'', ja_body = Some ''{}''\<rparr>)\<rparr>"

definition behind :: consumer where
  "behind = \<lparr>vf = demo_verifier\<lparr>vf_keys := [(''other'', demo_key)], fetchedAt := 20 * Second\<rparr>, tick = 0, fetches = 0\<rparr>"

lemma stale_env_laws: "ce_ext stale_env = demo_ext" "kid_law stale_env" "honest stale_env demo_signer" "rotated_away stale_env demo_signer behind"
proof -
  show "ce_ext stale_env = demo_ext" by (simp add: stale_env_def demo_env_def)
  have "header_json stale_env = header_json demo_env" by (simp add: stale_env_def)
  then have "peekKeyID stale_env raw = peekKeyID demo_env raw" for raw by (simp only: peekKeyID_def)
  then show "kid_law stale_env" using demo_laws(3) by (simp add: kid_law_def stale_env_def)
  show "honest stale_env demo_signer" by (simp add: honest_def serves_def stale_env_def demo_env_def)
  have "demo_kid \<noteq> ''other''" by code_simp
  then show "rotated_away stale_env demo_signer behind"
    by (simp add: rotated_away_def behind_def stale_env_def demo_env_def demo_signer_def key_of_def demo_verifier_def
        applyDefaults_def demo_client_config_def serves_def)
qed


theorem consumer_accepts_only_published_witness:
  "\<exists>k keys i c. keys_of_answer demo_env (ce_get demo_env k) = Inr keys \<and>
     fst (Verify_client demo_env demo_token cold) = Inr c \<and> ce_now demo_env i < cc_expires c"
proof -
  have "succeeds (Verify_client demo_env demo_token) cold" by code_simp
  then obtain c t where e: "Verify_client demo_env demo_token cold = (Inr c, t)" by (auto elim: succeedsE)
  moreover have "jwt_parse_sound (ce_ext demo_env)" using demo_laws(2) by (simp add: demo_env_def)
  moreover have "cold = verify_all demo_env [] \<lparr>vf = demo_verifier, tick = 0, fetches = 0\<rparr>" by (simp add: cold_def)
  ultimately show ?thesis using consumer_accepts_only_published [OF demo_New _ _ e] by fastforce
qed

definition warm_state :: consumer where
  "warm_state = \<lparr>vf = demo_verifier\<lparr>vf_keys := [(''other'', demo_key)], fetchedAt := 20 * Second\<rparr>, tick = 0, fetches = 0\<rparr>"

theorem forged_tokens_bounded_requests_witness:
  "int (fetches (verify_all (demo_env\<lparr>ce_get := (\<lambda>_. Inl ''refused'')\<rparr>) (replicate 50 demo_token) warm_state)) \<le> 20"
proof -
  have "int (fetches (verify_all (demo_env\<lparr>ce_get := (\<lambda>_. Inl ''refused'')\<rparr>) (replicate 50 demo_token) warm_state))
      \<le> int (fetches warm_state) + 2 * MaxRefreshPerMinute (vf_cfg (vf warm_state))"
    by (rule forged_tokens_bounded_requests [where T = "20 * Second"])
      (simp_all add: warm_state_def demo_verifier_def demo_client_config_def applyDefaults_def demo_env_def Hour_def Minute_def Second_def)
  then show ?thesis
    by (simp add: warm_state_def demo_verifier_def demo_client_config_def applyDefaults_def)
qed

text \<open>
  The budget does not bound the fetches of an aged cache: while the service does not answer, every
  token with a key id, forged or not, sends a request.
\<close>

theorem aged_cache_unbounded:
  "fetches (verify_all (demo_env\<lparr>ce_get := (\<lambda>_. Inl ''refused'')\<rparr>) (replicate 12 demo_token)
     (warm_state\<lparr>vf := (vf warm_state)\<lparr>fetchedAt := zero_time, vf_keys := [(demo_kid, demo_key)]\<rparr>\<rparr>)) = 12"
  by code_simp

end
