(* ===== verification/Machine.thy ===== *)
theory Machine
  imports Prelude
begin

text \<open>
  State machines: what every run keeps, and when a run of one machine is a run of a more abstract
  one. A component states its contract as one of these locales and interprets it on its own steps.
  \<open>leads\<close> is the pre- and postcondition form of \<open>keeps\<close>.
\<close>

section \<open>Invariants and simulations\<close>

locale invariant_of =
  fixes step :: "'s \<Rightarrow> 's \<Rightarrow> bool" and inv :: "'s \<Rightarrow> bool"
  assumes step_keeps: "inv s \<Longrightarrow> step s t \<Longrightarrow> inv t"
begin

lemma run_keeps: "step\<^sup>*\<^sup>* s t \<Longrightarrow> inv s \<Longrightarrow> inv t"
  by (induction rule: rtranclp_induct) (auto intro: step_keeps)

end

text \<open>Along \<open>abs\<close>, every concrete step from a good state is a run of the abstract machine.\<close>

locale simulation = invariant_of step good
  for step :: "'s \<Rightarrow> 's \<Rightarrow> bool" and good :: "'s \<Rightarrow> bool" +
  fixes abs :: "'s \<Rightarrow> 'a" and spec_step :: "'a \<Rightarrow> 'a \<Rightarrow> bool"
  assumes step_simulated: "good s \<Longrightarrow> step s t \<Longrightarrow> spec_step\<^sup>*\<^sup>* (abs s) (abs t)"
begin

lemma run_simulated: "step\<^sup>*\<^sup>* s t \<Longrightarrow> good s \<Longrightarrow> spec_step\<^sup>*\<^sup>* (abs s) (abs t)"
proof (induction rule: rtranclp_induct)
  case (step t u)
  then show ?case using step_simulated [of t u] run_keeps [of s t] by (meson rtranclp_trans)
qed simp

lemma spec_invariant:
  assumes "step\<^sup>*\<^sup>* s t" "good s" "\<And>A B. I A \<Longrightarrow> spec_step A B \<Longrightarrow> I B" "I (abs s)"
  shows "I (abs t)"
  using run_simulated [OF assms(1,2)] assms(4) by (induction rule: rtranclp_induct) (auto intro: assms(3))

end

section \<open>Pre- and postconditions\<close>

definition leads :: "('s \<Rightarrow> bool) \<Rightarrow> ('s, 'e, 'a) act \<Rightarrow> ('s \<Rightarrow> bool) \<Rightarrow> bool" where
  "leads P m Q \<longleftrightarrow> (\<forall>s. P s \<longrightarrow> Q (snd (m s)))"

lemma leadsD: "leads P m Q \<Longrightarrow> P s \<Longrightarrow> m s = (r, t) \<Longrightarrow> Q t"
  unfolding leads_def by (metis snd_conv)

lemma leads_keeps: "keeps P m \<Longrightarrow> leads P m P"
  by (simp add: leads_def keeps_def)

lemma leads_weaken: "leads P m Q \<Longrightarrow> (\<And>s. P' s \<Longrightarrow> P s) \<Longrightarrow> (\<And>s. Q s \<Longrightarrow> Q' s) \<Longrightarrow> leads P' m Q'"
  by (auto simp: leads_def)

lemma leads_attempt: "keeps P m \<Longrightarrow> (\<And>r. leads P (k r) Q) \<Longrightarrow> leads P (attempt m k) Q"
  by (auto simp: leads_def keeps_def attempt_simp)

lemma leads_attempt_then: "leads P m Q \<Longrightarrow> (\<And>r. keeps Q (k r)) \<Longrightarrow> leads P (attempt m k) Q"
  by (auto simp: leads_def keeps_def attempt_simp)

lemma leads_andthen: "keeps P m \<Longrightarrow> (\<And>s. P s \<Longrightarrow> Q s) \<Longrightarrow> (\<And>x. leads P (k x) Q) \<Longrightarrow> leads P (andthen m k) Q"
  unfolding andthen_def by (rule leads_attempt) (auto simp: leads_def split: sum.split)

lemma leads_andthen_then: "leads P m Q \<Longrightarrow> (\<And>x. keeps Q (k x)) \<Longrightarrow> leads P (andthen m k) Q"
  unfolding andthen_def by (rule leads_attempt_then) (auto simp: keeps_def split: sum.split)

lemma leads_if: "leads P m Q \<Longrightarrow> leads P n Q \<Longrightarrow> leads P (if b then m else n) Q"
  by auto

text \<open>A result that says something about the state it was read from.\<close>

lemma leads_read:
  assumes "\<And>s r t. P s \<Longrightarrow> m s = (r, t) \<Longrightarrow> P t \<and> (\<forall>x. r = Inr x \<longrightarrow> F x t)" "\<And>s. P s \<Longrightarrow> Q s"
    and "\<And>x. leads (\<lambda>s. P s \<and> F x s) (k x) Q"
  shows "leads P (andthen m k) Q"
  unfolding leads_def
proof (intro allI impI)
  fix s assume P: "P s"
  obtain r t where m: "m s = (r, t)" by fastforce
  from assms(1) [OF P m] assms(2,3) show "Q (snd (andthen m k s))"
    by (cases r) (auto simp: andthen_simp m leads_def)
qed

end
