(* ===== verification/Logins.thy ===== *)
theory Logins
  imports Service Machine
begin

text \<open>
  What the session table is for, as an abstract machine: a login (the code's session family) holds
  at most one refresh token that is live and the tokens that were exchanged for it. The service,
  with its database, its faults and its clocks, is a refinement of it: a run of requests is a run of
  the abstract machine.
\<close>

section \<open>The abstract machine\<close>

record logins =
  live_of :: "uuid \<Rightarrow> string set"
  spent_of :: "uuid \<Rightarrow> string set"

definition known :: "logins \<Rightarrow> string set" where
  "known A = (\<Union>f. live_of A f \<union> spent_of A f)"

inductive login_step :: "logins \<Rightarrow> logins \<Rightarrow> bool" where
  log_in: "live_of A f = {} \<Longrightarrow> spent_of A f = {} \<Longrightarrow> h \<notin> known A \<Longrightarrow>
     login_step A (A\<lparr>live_of := (live_of A)(f := {h})\<rparr>)"
| rotate: "h \<in> live_of A f \<Longrightarrow> h' \<notin> known A \<Longrightarrow>
     login_step A (A\<lparr>live_of := (live_of A)(f := insert h' (live_of A f - {h})),
                     spent_of := (spent_of A)(f := insert h (spent_of A f))\<rparr>)"
| revoke: "\<forall>f. live_of B f \<subseteq> live_of A f \<Longrightarrow> \<forall>f. spent_of B f \<subseteq> spent_of A f \<Longrightarrow> login_step A B"

text \<open>At most one live token per login, none of them spent.\<close>

definition one_token :: "logins \<Rightarrow> bool" where
  "one_token A \<longleftrightarrow> (\<forall>f. \<exists>h. live_of A f \<subseteq> {h}) \<and> (\<forall>f g. live_of A f \<inter> spent_of A g = {})
     \<and> (\<forall>f g. f \<noteq> g \<longrightarrow> live_of A f \<inter> live_of A g = {})"

lemma one_token_step: "one_token A \<Longrightarrow> login_step A B \<Longrightarrow> one_token B"
proof (erule login_step.cases)
  fix A' f h assume "one_token A" "A = A'" "B = A'\<lparr>live_of := (live_of A')(f := {h})\<rparr>" "h \<notin> known A'"
  then show "one_token B" by (auto simp: one_token_def known_def)
next
  fix h A' f h'
  assume one: "one_token A" and AB: "A = A'" "B = A'\<lparr>live_of := (live_of A')(f := insert h' (live_of A' f - {h})),
      spent_of := (spent_of A')(f := insert h (spent_of A' f))\<rparr>" and h: "h \<in> live_of A' f" "h' \<notin> known A'"
  from one h(1) AB(1) have "live_of A' f = {h}" "\<And>g. g \<noteq> f \<Longrightarrow> h \<notin> live_of A' g"
    unfolding one_token_def by blast+
  then show "one_token B"
    using one AB h by (auto simp: one_token_def known_def)
next
  fix B' A' assume "one_token A" "A = A'" "B = B'" "\<forall>f. live_of B' f \<subseteq> live_of A' f" "\<forall>f. spent_of B' f \<subseteq> spent_of A' f"
  then show "one_token B" unfolding one_token_def by (meson disjoint_iff subset_iff)
qed

section \<open>The table as logins\<close>

definition logins_of :: "db \<Rightarrow> logins" where
  "logins_of d =
     \<lparr>live_of = (\<lambda>f. sr_hash ` {s \<in> set (ga_sessions d). sr_family s = f \<and> sr_used s = None}),
      spent_of = (\<lambda>f. sr_hash ` {s \<in> set (ga_sessions d). sr_family s = f \<and> sr_used s \<noteq> None})\<rparr>"

lemma known_logins: "known (logins_of d) = sr_hash ` set (ga_sessions d)"
proof -
  have "live_of (logins_of d) f \<union> spent_of (logins_of d) f = sr_hash ` {s \<in> set (ga_sessions d). sr_family s = f}" for f
    unfolding logins_of_def by (simp add: image_Un [symmetric]) (rule arg_cong [where f = "(`) sr_hash"], auto)
  then show ?thesis by (auto simp: known_def)
qed

lemma logins_same: "ga_sessions d' = ga_sessions d \<Longrightarrow> logins_of d' = logins_of d"
  by (simp add: logins_of_def)

lemma logins_removed: "set (ga_sessions d') \<subseteq> set (ga_sessions d) \<Longrightarrow> login_step (logins_of d) (logins_of d')"
  by (rule login_step.revoke) (auto simp: logins_of_def)

lemma logins_issued:
  assumes "\<forall>s\<in>set (ga_sessions d). sr_family s \<noteq> sr_family n" "sr_used n = None"
    and "sr_hash n \<notin> sr_hash ` set (ga_sessions d)"
  shows "login_step (logins_of d) (logins_of (add_session n d))"
proof -
  have "logins_of (add_session n d) = (logins_of d)\<lparr>live_of := (live_of (logins_of d))(sr_family n := {sr_hash n})\<rparr>"
    using assms by (auto simp: logins_of_def add_session_def fun_eq_iff)
  moreover have "live_of (logins_of d) (sr_family n) = {}" "spent_of (logins_of d) (sr_family n) = {}"
    using assms by (auto simp: logins_of_def)
  ultimately show ?thesis
    using login_step.log_in [of "logins_of d" "sr_family n" "sr_hash n"] assms(3) by (simp add: known_logins)
qed

lemma logins_rotated:
  assumes "s \<in> set (ga_sessions d)" "spendable h now s" "distinct (map sr_hash (ga_sessions d))"
    and "sr_family n = sr_family s" "sr_used n = None" "sr_hash n \<notin> sr_hash ` set (ga_sessions d)"
  shows "login_step (logins_of d) (logins_of (add_session n (spend h now d)))"
proof -
  have h: "sr_hash s = h" "sr_used s = None" using assms(2) by (auto simp: spendable_def)
  have only: "x = s" if "x \<in> set (ga_sessions d)" "sr_hash x = h" for x
    using that assms(1,3) h(1) by (simp add: distinct_map_inj)
  have "logins_of (add_session n (spend h now d)) = (logins_of d)
      \<lparr>live_of := (live_of (logins_of d))(sr_family s := insert (sr_hash n) (live_of (logins_of d) (sr_family s) - {h})),
       spent_of := (spent_of (logins_of d))(sr_family s := insert h (spent_of (logins_of d) (sr_family s)))\<rparr>"
  proof -
    have "set (ga_sessions (spend h now d)) = insert (s\<lparr>sr_used := Some now\<rparr>) (set (ga_sessions d) - {s})"
    proof -
      have "(if spendable h now x then x\<lparr>sr_used := Some now\<rparr> else x) = (if x = s then s\<lparr>sr_used := Some now\<rparr> else x)"
        if "x \<in> set (ga_sessions d)" for x
        using only [OF that] assms(2) by (cases "x = s") (simp_all add: spendable_def, blast)
      then have "set (ga_sessions (spend h now d)) = (\<lambda>x. if x = s then s\<lparr>sr_used := Some now\<rparr> else x) ` set (ga_sessions d)"
        unfolding spend_def by (simp cong: image_cong_simp)
      then show ?thesis using assms(1) by auto
    qed
    then have rows: "set (ga_sessions (add_session n (spend h now d)))
        = insert n (insert (s\<lparr>sr_used := Some now\<rparr>) (set (ga_sessions d) - {s}))"
      by (simp add: add_session_def)
    have live: "sr_hash ` {x \<in> set (ga_sessions d) - {s}. sr_family x = f \<and> sr_used x = None}
        = live_of (logins_of d) f - {h}" for f
      using h only by (auto simp: logins_of_def)
    have spent: "sr_hash ` {x \<in> set (ga_sessions d) - {s}. sr_family x = f \<and> sr_used x \<noteq> None} = spent_of (logins_of d) f" for f
      using h by (auto simp: logins_of_def)
    have ne: "s\<lparr>sr_used := Some now\<rparr> \<noteq> s"
    proof
      assume "s\<lparr>sr_used := Some now\<rparr> = s"
      then have "sr_used (s\<lparr>sr_used := Some now\<rparr>) = sr_used s" by (simp only:)
      with h(2) show False by simp
    qed
    have other: "h \<notin> live_of (logins_of d) f" if "f \<noteq> sr_family s" for f
      using that only by (auto simp: logins_of_def)
    have "{x \<in> insert n (insert (s\<lparr>sr_used := Some now\<rparr>) (set (ga_sessions d) - {s})). sr_family x = f \<and> sr_used x = None}
      = (if f = sr_family s then {n} else {}) \<union> {x \<in> set (ga_sessions d) - {s}. sr_family x = f \<and> sr_used x = None}" for f
      using assms(4,5) ne by auto
    moreover have "{x \<in> insert n (insert (s\<lparr>sr_used := Some now\<rparr>) (set (ga_sessions d) - {s})). sr_family x = f \<and> sr_used x \<noteq> None}
      = (if f = sr_family s then {s\<lparr>sr_used := Some now\<rparr>} else {}) \<union> {x \<in> set (ga_sessions d) - {s}. sr_family x = f \<and> sr_used x \<noteq> None}" for f
      using assms(4,5) ne by auto
    ultimately show ?thesis
      using live spent other h(1)
      by (simp add: logins_of_def [of "add_session n (spend h now d)"] rows image_Un fun_eq_iff)
  qed
  moreover have "h \<in> live_of (logins_of d) (sr_family s)"
    using assms(1) h by (auto simp: logins_of_def)
  ultimately show ?thesis
    using login_step.rotate [of h "logins_of d" "sr_family s" "sr_hash n"] assms(6) by (simp add: known_logins)
qed

section \<open>Draws only go up\<close>

abbreviation keeps_draws :: "nat \<Rightarrow> ('r world, 'e, 'a) act \<Rightarrow> bool" where
  "keeps_draws n m \<equiv> keeps (\<lambda>w. n \<le> draws w) m"

lemma draws_world [keeps_rules]:
  "keeps_draws n Now" "keeps_draws n next_fault" "keeps_draws n (draw f)" "keeps_draws n server_now"
  "keeps_draws n (run_stmt st now u)" "keeps_draws n (redis_call g)"
  by (auto simp: keeps_def Now_def next_fault_def draw_def server_now_def run_stmt_def redis_call_def andthen_simp
      split: list.split option.split sum.split prod.split)

lemma draws_stmt [keeps_rules]: "keeps_draws n (exec_stmt e st)" "keeps_draws n (query a nf st)" "keeps_draws n (raw_query a st)"
  "keeps_draws n (rand_Read e k)" "keeps_draws n (NewString e)" "keeps_draws n (insertEvent a ev)"
  "keeps_draws n (replaceRolePermissions a nm ps)"
  unfolding exec_stmt_def query_def raw_query_def rand_Read_def NewString_def insertEvent_def replaceRolePermissions_def
  by (intro keeps_rules)+

lemma keeps_case_redis_error [keeps_rules]:
  "keeps P a \<Longrightarrow> (\<And>s. keeps P (b s)) \<Longrightarrow> keeps P (case e of RedisNil \<Rightarrow> a | RedisErr s \<Rightarrow> b s)"
  by (cases e) auto

lemma draws_withTx [keeps_rules]: "keeps_draws n m \<Longrightarrow> keeps_draws n (withTx m)"
  unfolding keeps_def
proof (intro allI impI)
  fix w :: "'a world" assume m: "\<forall>w. n \<le> draws w \<longrightarrow> n \<le> draws (snd (m w))" and w: "n \<le> draws w"
  have b: "draws (snd (Begin w)) = draws w" by (simp add: Begin_def act_simps next_fault_def Now_def split: list.split fault.split)
  have c: "draws w3 = draws v" if "Commit d v = (p, w3)" for d p and v w3 :: "'a world"
    using that by (auto simp: Commit_def next_fault_def split: list.splits fault.splits)
  obtain q w1 where q: "Begin w = (q, w1)" by fastforce
  show "n \<le> draws (snd (withTx m w))"
  proof (cases q)
    case (Inr t)
    obtain r w2 where r: "m (w1\<lparr>tx_now := Some t\<rparr>) = (r, w2)" by fastforce
    have "n \<le> draws (w1\<lparr>tx_now := Some t\<rparr>)" using b q w by simp
    with m r have w2: "n \<le> draws w2" by (metis snd_conv)
    obtain p w3 where p: "Commit (db w1) w2 = (p, w3)" by fastforce
    from q Inr r p c [OF p] w2 show ?thesis by (cases r; cases p) (auto simp: withTx_def)
  qed (use q b w in \<open>simp add: withTx_def\<close>)
qed

lemma draws_repo [keeps_rules]:
  "keeps_draws n (CreateUser a cup)" "keeps_draws n (UpdateUser a up)" "keeps_draws n (UpdateUserAndRevokeSessions a up)"
  "keeps_draws n (SetPasswordAndRevokeSessions a i h ev)" "keeps_draws n (SoftDeleteUser a i ev)"
  "keeps_draws n (TouchUserLogin a i)" "keeps_draws n (CreateRole a ro)" "keeps_draws n (UpdateRole a urp)"
  "keeps_draws n (DeleteRole a nm)" "keeps_draws n (CreateSession a csp)" "keeps_draws n (RotateSession a h csp)"
  "keeps_draws n (DeleteSessionFamily a i)" "keeps_draws n (DeleteUserSessions a i)" "keeps_draws n (InsertAuditEntry a ae)"
  "keeps_draws n (GetUserByID a i)" "keeps_draws n (GetUserByUsername a nm)" "keeps_draws n (GetUserByEmail a nm)"
  "keeps_draws n (CountActiveSuperAdmins a)" "keeps_draws n (ListUsers a lup)" "keeps_draws n (CountUsers a lup)"
  "keeps_draws n (GetRole a nm)" "keeps_draws n (ListRoles a)" "keeps_draws n (ActorRole a i)"
  "keeps_draws n (GetSessionByID a i)" "keeps_draws n (GetSessionByRefreshHash a h)"
  "keeps_draws n (ListLiveUserSessions a i)" "keeps_draws n (ListAuditEntries a lap)"
  unfolding repo_defs Let_def by (intro keeps_rules | simp)+

lemma draws_newRefreshToken [keeps_rules]: "keeps_draws n (newRefreshToken e)"
  unfolding newRefreshToken_def Let_def by (intro keeps_rules)

lemma draws_sign_pair [keeps_rules]: "keeps_draws n (sign_pair a u s t c)"
  unfolding sign_pair_def Sign_def by (intro keeps_rules)

lemma draws_services [keeps_rules]:
  "keeps_draws n (Record a e)" "keeps_draws n (Hash x p pw)" "keeps_draws n (DummyVerify x hs pw)" "keeps_draws n (Actor a i)"
  "keeps_draws n (Issue a u c)" "keeps_draws n (Rotate a h u f c)" "keeps_draws n (fresh_login a m ip ag u)"
  "keeps_draws n (Allow l k r)" "keeps_draws n (Backoff l k)" "keeps_draws n (RegisterFailure l k)" "keeps_draws n (Reset l k)"
  unfolding Record_def Hash_def DummyVerify_def Actor_def Issue_def Rotate_def fresh_login_def
    Allow_def Backoff_def RegisterFailure_def Reset_def Let_def
  by (intro keeps_rules | simp)+

lemma draws_admin [keeps_rules]:
  "keeps_draws n (guard_target a by u)" "keeps_draws n (guard_last_admin a b)" "keeps_draws n (guard_assigned a uui u r)"
  "keeps_draws n (plan_update a by uui)" "keeps_draws n (plan_delete a by i)"
  "keeps_draws n (apply_update a uui u uup)" "keeps_draws n (record_update a by u v)"
  unfolding guard_target_def guard_last_admin_def guard_assigned_def plan_update_def plan_delete_def apply_update_def
    record_update_def Let_def
  by (intro keeps_rules)+

lemma draws_use_cases:
  "keeps_draws n (Execute_revoke a u s ip)"
  "keeps_draws n (Execute_logout_all a u ip)" "keeps_draws n (Execute_me a u)"
  "keeps_draws n (Execute_session_list a u cur)" "keeps_draws n (Execute_user_create a by uci)"
  "keeps_draws n (Execute_user_update a by uui)" "keeps_draws n (Execute_user_delete a by i)"
  "keeps_draws n (Execute_set_password a by i pw)" "keeps_draws n (Execute_sessions_revoke a by i)"
  "keeps_draws n (Execute_user_get a i)" "keeps_draws n (Execute_user_list a uli)"
  "keeps_draws n (Execute_user_sessions a i)" "keeps_draws n (Execute_audit_list a lap)"
  "keeps_draws n (Execute_role_create a by rci)" "keeps_draws n (Execute_role_update a by rui)"
  "keeps_draws n (Execute_role_delete a by nm)" "keeps_draws n (Execute_role_list a)"
  unfolding Execute_revoke_def Execute_logout_all_def Execute_me_def Execute_session_list_def Execute_user_create_def
    Execute_user_update_def Execute_user_delete_def
    Execute_set_password_def Execute_sessions_revoke_def Execute_user_get_def Execute_user_list_def
    Execute_user_sessions_def Execute_audit_list_def Execute_role_create_def Execute_role_update_def
    Execute_role_delete_def Execute_role_list_def Let_def
  by (intro keeps_rules)+

section \<open>Operations that issue nothing\<close>

text \<open>
  Well-formed tables, reached from \<open>A\<close> by the abstract machine, whose families were all drawn before
  the \<open>N\<close>-th draw.
\<close>

definition lodged :: "ext \<Rightarrow> logins \<Rightarrow> nat \<Rightarrow> db \<Rightarrow> bool" where
  "lodged e A N d \<longleftrightarrow> db_ok d \<and> login_step\<^sup>*\<^sup>* A (logins_of d) \<and>
     (\<forall>s\<in>set (ga_sessions d). \<exists>k<N. sr_family s = uuid_new e k)"

lemma lodged_removed:
  assumes "lodged e A N d" "db_ok d'" "set (ga_sessions d') \<subseteq> set (ga_sessions d)"
  shows "lodged e A N d'"
  using assms logins_removed [OF assms(3)] unfolding lodged_def
  by (auto intro: rtranclp.rtrancl_into_rtrancl)

lemma stmt_lodgedI:
  assumes "stmt_keeps db_ok st"
    and "\<And>now u d x d'. st now u d = Inr (x, d') \<Longrightarrow> set (ga_sessions d') \<subseteq> set (ga_sessions d)"
  shows "stmt_keeps (lodged e A N) st"
proof (rule stmt_keepsI)
  fix now u d x d'
  assume st: "st now u d = Inr (x, d')" and d: "lodged e A N d"
  with assms(1) have "db_ok d'" unfolding stmt_keeps_def lodged_def by blast
  with d show "lodged e A N d'" using assms(2) [OF st] by (rule lodged_removed)
qed

lemma update_user_row_sessions: "update_user_row i g d = Inr (r, d') \<Longrightarrow> ga_sessions d' = ga_sessions d"
  by (auto simp: update_user_row_def Let_def split: option.splits if_splits)

named_theorems stmt_lodged "statements that issue no session"

lemma lodged_pure [stmt_lodged]: "stmt_pure st \<Longrightarrow> stmt_keeps (lodged e A N) st"
  by (rule stmt_pure_keeps)

lemma lodged_stmts [stmt_lodged]:
  "stmt_keeps (lodged e A N) (q_CreateUser un em h ro stat)" "stmt_keeps (lodged e A N) (update_stmt p i)"
  "stmt_keeps (lodged e A N) (q_SetUserPassword i h)" "stmt_keeps (lodged e A N) (q_SoftDeleteUser i)"
  "stmt_keeps (lodged e A N) (q_TouchUserLogin i)" "stmt_keeps (lodged e A N) (q_CreateRole nm rk sy)"
  "stmt_keeps (lodged e A N) (q_UpdateRole nm rk' sy')" "stmt_keeps (lodged e A N) (q_DeleteRole nm)"
  "stmt_keeps (lodged e A N) (q_DeleteRolePermissions nm)" "stmt_keeps (lodged e A N) (q_AddRolePermission nm pm)"
  "stmt_keeps (lodged e A N) (q_DeleteSessionFamily i)" "stmt_keeps (lodged e A N) (q_DeleteUserSessions i)"
  "stmt_keeps (lodged e A N) (q_InsertAuditEntry ac an tg ip mt)" "stmt_keeps (lodged e A N) (q_InsertOutboxEvent ev pl)"
  by (rule stmt_lodgedI, simp add: stmt_oks,
      auto simp: q_CreateUser_def update_stmt_def q_UpdateUser_def q_SetUserPassword_def q_SoftDeleteUser_def q_TouchUserLogin_def
        q_CreateRole_def q_UpdateRole_def q_DeleteRole_def q_DeleteRolePermissions_def q_AddRolePermission_def
        q_DeleteSessionFamily_def q_DeleteUserSessions_def delete_sessions_def q_InsertAuditEntry_def q_InsertOutboxEvent_def
        Let_def dest: update_user_row_sessions split: if_splits option.splits)+

abbreviation keeps_lodged :: "ext \<Rightarrow> logins \<Rightarrow> nat \<Rightarrow> ('r, 'a) io \<Rightarrow> bool" where
  "keeps_lodged e A N m \<equiv> keeps (\<lambda>w. lodged e A N (db w)) m"

lemma lodged_repo [keeps_rules]:
  "keeps_lodged e A N (CreateUser a cup)" "keeps_lodged e A N (UpdateUser a up)"
  "keeps_lodged e A N (UpdateUserAndRevokeSessions a up)" "keeps_lodged e A N (SetPasswordAndRevokeSessions a i h ev)"
  "keeps_lodged e A N (SoftDeleteUser a i ev)" "keeps_lodged e A N (TouchUserLogin a i)"
  "keeps_lodged e A N (CreateRole a ro)" "keeps_lodged e A N (UpdateRole a urp)" "keeps_lodged e A N (DeleteRole a nm)"
  "keeps_lodged e A N (DeleteSessionFamily a i)" "keeps_lodged e A N (DeleteUserSessions a i)"
  "keeps_lodged e A N (InsertAuditEntry a ae)" "keeps_lodged e A N (insertEvent a oe)"
  unfolding repo_defs Let_def insertEvent_def replaceRolePermissions_def
  by (intro keeps_rules keeps_exec_stmt stmt_lodged stmt_pures | simp)+

lemma lodged_services [keeps_rules]:
  "keeps_lodged e A N (Record a en)" "keeps_lodged e A N (Actor a i)"
  "keeps_lodged e A N (record_update a by u v)" "keeps_lodged e A N (apply_update a inp cur p)"
  unfolding Record_def record_update_def apply_update_def
  by (intro keeps_rules keeps_db frame_rules)+

lemma lodged_use_cases:
  "keeps_lodged e A N (Execute_revoke a u s ip)"
  "keeps_lodged e A N (Execute_logout_all a u ip)" "keeps_lodged e A N (Execute_me a u)"
  "keeps_lodged e A N (Execute_session_list a u cur)" "keeps_lodged e A N (Execute_user_create a by uci)"
  "keeps_lodged e A N (Execute_user_update a by uui)" "keeps_lodged e A N (Execute_user_delete a by i)"
  "keeps_lodged e A N (Execute_set_password a by i pw)" "keeps_lodged e A N (Execute_sessions_revoke a by i)"
  "keeps_lodged e A N (Execute_user_get a i)" "keeps_lodged e A N (Execute_user_list a uli)"
  "keeps_lodged e A N (Execute_user_sessions a i)" "keeps_lodged e A N (Execute_audit_list a lap)"
  "keeps_lodged e A N (Execute_role_create a by rci)" "keeps_lodged e A N (Execute_role_update a by rui)"
  "keeps_lodged e A N (Execute_role_delete a by nm)" "keeps_lodged e A N (Execute_role_list a)"
  unfolding Execute_revoke_def Execute_logout_all_def Execute_me_def Execute_session_list_def Execute_user_create_def
    Execute_user_update_def Execute_user_delete_def
    Execute_set_password_def Execute_sessions_revoke_def Execute_user_get_def Execute_user_list_def
    Execute_user_sessions_def Execute_audit_list_def Execute_role_create_def Execute_role_update_def
    Execute_role_delete_def Execute_role_list_def Let_def
  by (intro keeps_rules keeps_db frame_rules)+

section \<open>Issuing and rotating\<close>

lemma exec_stmt_any:
  assumes "exec_stmt e st w = (q, w')"
  shows "db w' = db w \<or> (\<exists>now u x. st now u (db w) = Inr (x, db w'))"
  using assms by (cases q) (auto elim: exec_stmt_Inr exec_stmt_Inl_db)

lemma CreateSession_any:
  assumes "CreateSession a p w = (q, w')"
  shows "db w' = db w \<or> (\<exists>s. db w' = add_session s (db w) \<and> uuid_parse (env a) (cs_family p) = Some (sr_family s)
    \<and> sr_used s = None \<and> sr_hash s \<notin> sr_hash ` set (ga_sessions (db w)))"
proof (cases "uuid_parse (env a) (cs_user p) = None \<or> uuid_parse (env a) (cs_family p) = None")
  case False
  then obtain i j where ids: "uuid_parse (env a) (cs_user p) = Some i" "uuid_parse (env a) (cs_family p) = Some j" by auto
  obtain r w1 where ex: "exec_stmt (env a) (session_stmt p i j) w = (r, w1)" by fastforce
  with assms ids have "w' = w1"
    by (cases r) (auto simp: CreateSession_def andthen_simp parse_id_def query_def attempt_simp map_err_simp)
  with exec_stmt_any [OF ex] consider "db w' = db w" | now u x where "session_stmt p i j now u (db w) = Inr (x, db w')"
    by blast
  then show ?thesis
  proof cases
    case (2 now u x)
    then have "db w' = add_session x (db w) \<and> sr_family x = j \<and> sr_used x = None \<and> sr_hash x \<notin> sr_hash ` set (ga_sessions (db w))"
      by (auto simp: session_stmt_def q_CreateSession_def add_session_def Let_def list_ex_iff image_iff ts_def
          split: option.splits if_splits)
    with ids show ?thesis by auto
  qed simp
qed (use assms in \<open>auto simp: CreateSession_def andthen_simp parse_id_def split: option.splits\<close>)

lemma RotateSession_effect:
  assumes "RotateSession a h p w = (q, w')"
  shows "db w' = db w \<or> (\<exists>now s n. s \<in> set (ga_sessions (db w)) \<and> spendable h now s \<and> sr_used n = None
    \<and> uuid_parse (env a) (cs_family p) = Some (sr_family n) \<and> sr_hash n \<notin> sr_hash ` set (ga_sessions (spend h now (db w)))
    \<and> db w' = add_session n (spend h now (db w)))"
proof (cases "uuid_parse (env a) (cs_user p) = None \<or> uuid_parse (env a) (cs_family p) = None")
  case False
  then obtain i j where ids: "uuid_parse (env a) (cs_user p) = Some i" "uuid_parse (env a) (cs_family p) = Some j" by auto
  with assms have "withTx (andthen (map_err spend_error (exec_stmt (env a) (q_SpendSession h)))
      (\<lambda>_. andthen (query a None (session_stmt p i j)) (\<lambda>row. ret (toDomainSession (env a) row)))) w = (q, w')"
    by (auto simp: RotateSession_def andthen_simp parse_id_def)
  then show ?thesis
  proof (cases rule: withTx_any)
    case (2 w1 w2 x)
    from 2(2) obtain r v n v2 where sp: "exec_stmt (env a) (q_SpendSession h) w1 = (Inr r, v)"
      and cr: "query a None (session_stmt p i j) v = (Inr n, v2)" and w2: "w2 = v2"
      by (auto simp: act_inv)
    from exec_spend_Inr [OF sp] query_session_stmt [OF cr ids] 2(1,3) w2 ids show ?thesis
      unfolding new_session_def by (intro disjI2) metis
  qed simp
qed (use assms in \<open>auto simp: RotateSession_def andthen_simp parse_id_def split: option.splits\<close>)

definition logged :: "'r app \<Rightarrow> logins \<Rightarrow> 'r world \<Rightarrow> bool" where
  "logged a A w \<longleftrightarrow> lodged (sys a) A (draws w) (db w)"

lemma lodged_mono: "lodged e A N d \<Longrightarrow> N \<le> M \<Longrightarrow> lodged e A M d"
  unfolding lodged_def by (meson less_le_trans)

lemma keeps_logged:
  assumes "\<And>N. keeps_lodged (sys a) A N m" "\<And>n. keeps_draws n m"
  shows "keeps (logged a A) m"
  using assms lodged_mono unfolding keeps_def logged_def by blast

lemma keeps_logged_frame:
  assumes "frame db m" "\<And>n. keeps_draws n m"
  shows "keeps (logged a A) m"
  unfolding keeps_def logged_def
proof (intro allI impI)
  fix w :: "'a world" assume w: "lodged (sys a) A (draws w) (db w)"
  have "db (snd (m w)) = db w" using assms(1) by (simp add: frame_def)
  moreover have "draws w \<le> draws (snd (m w))" using assms(2) [of "draws w"] by (simp add: keeps_def)
  ultimately show "lodged (sys a) A (draws (snd (m w))) (db (snd (m w)))"
    using lodged_mono [OF w] by simp
qed

lemma logged_Issue:
  assumes "uuid_law (sys a)" "uuid_fresh (sys a)"
  shows "keeps (logged a A) (Issue a u c)"
  unfolding keeps_def
proof (intro allI impI)
  fix w :: "'a world"
  assume w: "logged a A w"
  define fam where "fam = uuid_new (sys a) (draws w)"
  define w1 where "w1 = w\<lparr>draws := draws w + 1\<rparr>"
  have n: "NewString (sys a) w = (Inr (uuid_text (sys a) fam) :: error + string, w1)"
    by (simp add: NewString_def draw_def fam_def w1_def)
  obtain r w2 where r: "newRefreshToken (sys a) w1 = (r, w2)" by fastforce
  have w2: "db w2 = db w" "draws w < draws w2"
    using frameD [OF frame_newRefreshToken(1) r] keepsD [OF draws_newRefreshToken r, of "draws w1"] by (simp_all add: w1_def)
  have old: "lodged (sys a) A (draws w) (db w)" using w by (simp add: logged_def)
  then have fresh: "sr_family s \<noteq> fam" if "s \<in> set (ga_sessions (db w))" for s
    using that assms(2) unfolding lodged_def fam_def uuid_fresh_def by (metis injD less_irrefl)
  show "logged a A (snd (Issue a u c w))"
  proof (cases r)
    case (Inl e)
    with n r w2 lodged_mono [OF old] show ?thesis by (simp add: Issue_def andthen_simp logged_def)
  next
    case (Inr rh)
    obtain refresh hash where rh: "rh = (refresh, hash)" by fastforce
    obtain q w3 where q: "CreateSession (pg a) (session_params a u (uuid_text (sys a) fam) hash c) w2 = (q, w3)" by fastforce
    have d3: "draws w2 \<le> draws w3" using keepsD [OF draws_repo(10) q, of "draws w2"] by simp
    have ok3: "db_ok (db w3)" using keepsD [OF repo_keeps(11) q] old w2 by (simp add: lodged_def)
    have w3: "logged a A w3"
      using CreateSession_any [OF q]
    proof
      assume "db w3 = db w2"
      with lodged_mono [OF old] w2 d3 show ?thesis by (simp add: logged_def)
    next
      assume "\<exists>s. db w3 = add_session s (db w2) \<and> uuid_parse (sys a) (cs_family (session_params a u (uuid_text (sys a) fam) hash c))
          = Some (sr_family s) \<and> sr_used s = None \<and> sr_hash s \<notin> sr_hash ` set (ga_sessions (db w2))"
      then obtain s where s: "db w3 = add_session s (db w)" "sr_family s = fam" "sr_used s = None"
        "sr_hash s \<notin> sr_hash ` set (ga_sessions (db w))"
        using assms(1) w2 by (auto simp: session_params_def uuid_law_def)
      have "login_step (logins_of (db w)) (logins_of (db w3))"
        unfolding s(1) by (rule logins_issued) (use s fresh in auto)
      moreover have "\<exists>k<draws w3. sr_family x = uuid_new (sys a) k" if "x \<in> set (ga_sessions (db w3))" for x
      proof (cases "x = s")
        case True
        with s(2) w2 d3 show ?thesis unfolding fam_def by (meson less_le_trans)
      next
        case False
        with that s(1) have "x \<in> set (ga_sessions (db w))" by (auto simp: add_session_def)
        with old w2 d3 show ?thesis unfolding lodged_def by (meson less_le_trans less_trans)
      qed
      ultimately show ?thesis
        using old ok3 unfolding logged_def lodged_def by (auto intro: rtranclp.rtrancl_into_rtrancl)
    qed
    have "keeps (logged a A) (sign_pair a u s t c)" for s t
      by (intro keeps_logged_frame frame_rules draws_sign_pair)
    with n r Inr rh q w3 show ?thesis
      by (auto simp: Issue_def andthen_simp map_err_simp keeps_def split: sum.split)
  qed
qed

text \<open>A rotation into the family of the session that is spent.\<close>

lemma logged_RotateSession:
  "leads (\<lambda>w. logged a A w \<and> (\<exists>s\<in>set (ga_sessions (db w)). sr_hash s = h \<and> uuid_parse (sys a) (cs_family p) = Some (sr_family s)))
    (RotateSession (pg a) h p) (logged a A)"
  unfolding leads_def
proof (intro allI impI)
  fix w :: "'a world"
  assume w: "logged a A w \<and> (\<exists>s\<in>set (ga_sessions (db w)). sr_hash s = h \<and> uuid_parse (sys a) (cs_family p) = Some (sr_family s))"
  then obtain s where s: "s \<in> set (ga_sessions (db w))" "sr_hash s = h" "uuid_parse (sys a) (cs_family p) = Some (sr_family s)"
    and old: "lodged (sys a) A (draws w) (db w)" by (auto simp: logged_def)
  then have dist: "distinct (map sr_hash (ga_sessions (db w)))" by (simp add: lodged_def db_ok_def sessions_ok_def)
  obtain q w1 where q: "RotateSession (pg a) h p w = (q, w1)" by fastforce
  have d1: "draws w \<le> draws w1" using keepsD [OF draws_repo(11) q, of "draws w"] by simp
  have ok1: "db_ok (db w1)" using keepsD [OF repo_keeps(12) q] old by (simp add: lodged_def)
  have "logged a A w1"
    using RotateSession_effect [OF q]
  proof
    assume "db w1 = db w"
    with lodged_mono [OF old d1] show ?thesis by (simp add: logged_def)
  next
    assume "\<exists>now s' n. s' \<in> set (ga_sessions (db w)) \<and> spendable h now s' \<and> sr_used n = None
      \<and> uuid_parse (sys a) (cs_family p) = Some (sr_family n) \<and> sr_hash n \<notin> sr_hash ` set (ga_sessions (spend h now (db w)))
      \<and> db w1 = add_session n (spend h now (db w))"
    then obtain now s' n where n: "s' \<in> set (ga_sessions (db w))" "spendable h now s'" "sr_used n = None"
      "sr_family n = sr_family s" "sr_hash n \<notin> sr_hash ` set (ga_sessions (spend h now (db w)))"
      "db w1 = add_session n (spend h now (db w))" using s(3) by auto
    have "s' = s" using n(1,2) s(1,2) dist by (auto simp: spendable_def dest: distinct_map_inj)
    with n s dist have "login_step (logins_of (db w)) (logins_of (db w1))"
      unfolding n(6) by (intro logins_rotated) (auto simp: spend_hashes)
    moreover have "\<exists>k<draws w1. sr_family x = uuid_new (sys a) k" if "x \<in> set (ga_sessions (db w1))" for x
    proof -
      have "sr_family x \<in> sr_family ` set (ga_sessions (db w))"
        using that n(4,6) s(1) by (auto simp: add_session_def spend_def)
      with old d1 show ?thesis unfolding lodged_def by (auto dest!: bspec intro: less_le_trans)
    qed
    ultimately show ?thesis
      using old ok1 unfolding logged_def lodged_def by (auto intro: rtranclp.rtrancl_into_rtrancl)
  qed
  with q show "logged a A (snd (RotateSession (pg a) h p w))" by simp
qed

section \<open>The requests that issue\<close>

lemma logged_leaves [keeps_rules]:
  "keeps (logged a A) Now" "keeps (logged a A) (newRefreshToken e)" "keeps (logged a A) (sign_pair b u s t c)"
  "keeps (logged a A) (Hash x p pw)" "keeps (logged a A) (DummyVerify x hs pw)"
  "keeps (logged a A) (Backoff l k)" "keeps (logged a A) (RegisterFailure l k)" "keeps (logged a A) (Reset l k)"
  "keeps (logged a A) (GetUserByID q i)" "keeps (logged a A) (GetUserByUsername q nm)" "keeps (logged a A) (GetUserByEmail q nm)"
  by (rule keeps_logged_frame; (intro frame_rules frame_limiter frame_DummyVerify keeps_rules)?; fail)+

lemma logged_writes [keeps_rules]:
  "keeps (logged a A) (Record b en)" "keeps (logged a A) (CreateUser q cup)" "keeps (logged a A) (TouchUserLogin q i)"
  "keeps (logged a A) (SetPasswordAndRevokeSessions q i h ev)" "keeps (logged a A) (DeleteSessionFamily q i)"
  by (rule keeps_logged; intro keeps_rules)+

lemma logged_passwordGrant:
  assumes "uuid_law (sys a)" "uuid_fresh (sys a)"
  shows "keeps (logged a A) (passwordGrant a inp now)"
  unfolding passwordGrant_def backoff_gate_def lookup_user_def penalise_def
  by (intro keeps_rules logged_Issue assms)

lemma logged_fresh_login:
  assumes "uuid_law (sys a)" "uuid_fresh (sys a)"
  shows "keeps (logged a A) (fresh_login a m ip ag u)"
  unfolding fresh_login_def by (intro keeps_rules logged_Issue assms)

lemma logged_Execute_register:
  assumes "uuid_law (sys a)" "uuid_fresh (sys a)"
  shows "keeps (logged a A) (Execute_register a inp)"
  unfolding Execute_register_def by (intro keeps_rules logged_fresh_login assms)

lemma logged_Execute_password_change:
  assumes "uuid_law (sys a)" "uuid_fresh (sys a)"
  shows "keeps (logged a A) (Execute_password_change a inp)"
  unfolding Execute_password_change_def by (intro keeps_rules logged_fresh_login assms)

text \<open>The refresh grant keeps in hand, until it rotates, the row it read.\<close>

definition holding :: "'r app \<Rightarrow> logins \<Rightarrow> string \<Rightarrow> string \<Rightarrow> 'r world \<Rightarrow> bool" where
  "holding a A h fam w \<longleftrightarrow> logged a A w \<and>
     (\<exists>s\<in>set (ga_sessions (db w)). sr_hash s = h \<and> uuid_parse (sys a) fam = Some (sr_family s))"

lemma keeps_holding:
  assumes "frame db m" "keeps (logged a A) m"
  shows "keeps (holding a A h fam) m"
  using assms unfolding keeps_def frame_def holding_def by simp

lemma holding_Rotate:
  "leads (holding a A h fam) (Rotate a h u fam c) (logged a A)"
  unfolding Rotate_def
proof (rule leads_andthen)
  show "keeps (holding a A h fam) (newRefreshToken (sys a))"
    by (intro keeps_holding frame_rules keeps_rules)
  fix rh :: "string \<times> string"
  obtain refresh hash where rh: "rh = (refresh, hash)" by fastforce
  have "leads (holding a A h fam) (RotateSession (pg a) h (session_params a u fam hash c)) (logged a A)"
    by (rule leads_weaken [OF logged_RotateSession]) (simp_all add: holding_def session_params_def)
  then show "leads (holding a A h fam) (case rh of (refresh, hash) \<Rightarrow>
      andthen (RotateSession (pg a) h (session_params a u fam hash c)) (\<lambda>s. sign_pair a u s refresh c)) (logged a A)"
    unfolding rh prod.case by (rule leads_andthen_then) (intro keeps_rules)
qed (simp add: holding_def)

lemma holding_read:
  assumes "uuid_law (sys a)" "logged a A w" "map_err load_error (GetSessionByRefreshHash (pg a) h) w = (r, t)"
  shows "logged a A t \<and> (\<forall>ses. r = Inr ses \<longrightarrow> holding a A h (ses_family ses) t)"
proof -
  have "keeps (logged a A) (map_err load_error (GetSessionByRefreshHash (pg a) h))"
    by (intro keeps_map_err keeps_logged_frame frame_rules keeps_rules)
  then have t: "logged a A t" using assms(3,2) by (rule keepsD)
  moreover have "holding a A h (ses_family ses) t" if "r = Inr ses" for ses
  proof -
    from assms(3) that have "GetSessionByRefreshHash (pg a) h w = (Inr ses, t)" by (simp add: map_err_Inr)
    from GetSessionByRefreshHash_Inr [OF this] obtain s where "session_of_hash (db t) h = Some s"
      "ses = toDomainSession (sys a) s" by auto
    with t assms(1) show ?thesis
      by (auto simp: holding_def session_of_hash_def toDomainSession_def uuid_law_def dest!: find_Some_set)
  qed
  ultimately show ?thesis by blast
qed

lemma holding_drop: "keeps (logged a A) m \<Longrightarrow> leads (holding a A h fam) m (logged a A)"
  by (auto simp: leads_def keeps_def holding_def)

lemma holding_andthen:
  assumes "frame db m" "keeps (logged a A) m" "\<And>x. leads (holding a A h fam) (k x) (logged a A)"
  shows "leads (holding a A h fam) (andthen m k) (logged a A)"
  using assms by (intro leads_andthen keeps_holding) (auto simp: holding_def)

lemma logged_refreshGrant:
  assumes "uuid_law (sys a)"
  shows "leads (logged a A) (refreshGrant a inp now) (logged a A)"
  unfolding refreshGrant_def Let_def
  apply (rule leads_read [OF holding_read [OF assms]])
     apply assumption
    apply assumption
   apply assumption
  apply (rule leads_weaken [rotated 1])
    apply (erule conjunct2)
   apply assumption
  apply (rule leads_if, rule holding_drop, intro keeps_rules)+
  apply (intro holding_andthen leads_attempt_then [OF holding_Rotate] keeps_rules frame_rules)
  done

lemma logged_Execute_token:
  assumes "uuid_law (sys a)" "uuid_fresh (sys a)"
  shows "keeps (logged a A) (Execute_token a inp)"
  unfolding Execute_token_def
  by (intro keeps_rules logged_passwordGrant assms)
    (use logged_refreshGrant [OF assms(1)] in \<open>simp add: leads_def keeps_def\<close>)

section \<open>The service refines the machine\<close>

text \<open>
  A request finds the tables as they are; the clock, the faults, the caches and the callers are
  whatever they are by then, but no drawn value comes back.
\<close>

inductive served :: "'r app \<Rightarrow> 'r world \<Rightarrow> 'r world \<Rightarrow> bool" for a :: "'r app" where
  "db v = db w \<Longrightarrow> draws w \<le> draws v \<Longrightarrow> served a w (serve a rq v)"

lemma logged_serve:
  assumes "uuid_law (sys a)" "uuid_fresh (sys a)" "logged a A v"
  shows "logged a A (serve a rq v)"
proof -
  have k: "keeps (logged a A) m \<Longrightarrow> logged a A (snd (m v))" for m :: "('a, 'x) io"
    using assms(3) by (simp add: keeps_def)
  show ?thesis
  proof (cases rq)
    case (RToken i)
    with k [OF logged_Execute_token [OF assms(1,2)]] show ?thesis by simp
  next
    case (RRegister i)
    with k [OF logged_Execute_register [OF assms(1,2)]] show ?thesis by simp
  next
    case (RPasswordChange i)
    with k [OF logged_Execute_password_change [OF assms(1,2)]] show ?thesis by simp
  qed (auto intro!: k keeps_logged lodged_use_cases draws_use_cases)
qed

text \<open>A start whose logins, if any, were drawn by this process.\<close>

definition own_logins :: "'r app \<Rightarrow> 'r world \<Rightarrow> bool" where
  "own_logins a w \<longleftrightarrow> db_ok (db w) \<and> (\<forall>s\<in>set (ga_sessions (db w)). \<exists>k<draws w. sr_family s = uuid_new (sys a) k)"

lemma own_logins_logged: "own_logins a w \<longleftrightarrow> logged a (logins_of (db w)) w"
  by (simp add: own_logins_def logged_def lodged_def)

lemma served_logged:
  assumes "uuid_law (sys a)" "uuid_fresh (sys a)" "logged a A w" "served a w w'"
  shows "logged a A w'"
  using assms(4)
proof (cases rule: served.cases)
  case (1 v rq)
  then have "logged a A v" using assms(3) lodged_mono unfolding logged_def by metis
  with 1 logged_serve assms(1,2) show ?thesis by blast
qed

definition login_world :: "'r app \<Rightarrow> 'r world \<Rightarrow> bool" where
  "login_world a w \<longleftrightarrow> uuid_law (sys a) \<and> uuid_fresh (sys a) \<and> own_logins a w"

interpretation login: simulation "served a" "login_world a" "\<lambda>w. logins_of (db w)" login_step for a
proof unfold_locales
  fix w w' assume w: "login_world a w" and s: "served a w w'"
  then have l: "logged a (logins_of (db w)) w'"
    unfolding login_world_def own_logins_logged using served_logged by blast
  show "login_world a w'"
    using w l unfolding login_world_def own_logins_def logged_def lodged_def by blast
  show "login_step\<^sup>*\<^sup>* (logins_of (db w)) (logins_of (db w'))"
    using l unfolding logged_def lodged_def by blast
qed

section \<open>What it gives\<close>

text \<open>Two live rows of one login are one row.\<close>

definition one_live :: "db \<Rightarrow> bool" where
  "one_live d \<longleftrightarrow> (\<forall>s\<in>set (ga_sessions d). \<forall>t\<in>set (ga_sessions d).
     sr_family s = sr_family t \<and> sr_used s = None \<and> sr_used t = None \<longrightarrow> s = t)"

lemma one_token_logins:
  assumes "db_ok d" shows "one_token (logins_of d) \<longleftrightarrow> one_live d"
proof -
  have same: "s = t" if "s \<in> set (ga_sessions d)" "t \<in> set (ga_sessions d)" "sr_hash s = sr_hash t" for s t
    using assms that distinct_map_inj by (fastforce simp: db_ok_def sessions_ok_def)
  have "one_live d" if "one_token (logins_of d)"
    unfolding one_live_def
  proof (intro ballI impI)
    fix s t assume st: "s \<in> set (ga_sessions d)" "t \<in> set (ga_sessions d)"
      "sr_family s = sr_family t \<and> sr_used s = None \<and> sr_used t = None"
    from that obtain h where "live_of (logins_of d) (sr_family s) \<subseteq> {h}" unfolding one_token_def by blast
    then have "sr_hash s = h" "sr_hash t = h" using st by (auto simp: logins_of_def)
    with same [OF st(1,2)] show "s = t" by simp
  qed
  moreover have "one_token (logins_of d)" if one: "one_live d"
    unfolding one_token_def
  proof (intro conjI allI impI)
    fix f show "\<exists>h. live_of (logins_of d) f \<subseteq> {h}"
    proof (cases "live_of (logins_of d) f = {}")
      case False
      then obtain s where "s \<in> set (ga_sessions d)" "sr_family s = f" "sr_used s = None" by (auto simp: logins_of_def)
      with one have "live_of (logins_of d) f \<subseteq> {sr_hash s}" unfolding one_live_def by (auto simp: logins_of_def)
      then show ?thesis by blast
    qed simp
  next
    fix f g show "live_of (logins_of d) f \<inter> spent_of (logins_of d) g = {}"
      by (auto simp: logins_of_def dest: same)
  next
    fix f g :: uuid assume "f \<noteq> g"
    then show "live_of (logins_of d) f \<inter> live_of (logins_of d) g = {}"
      by (auto simp: logins_of_def dest: same)
  qed
  ultimately show ?thesis by blast
qed

text \<open>
  C7. The service refines the machine of logins. Whatever requests are served - in any order, with any
  clock, any database fault and any answer - each run of the service is, on the session table, a run
  of the abstract machine: a login starts with one live refresh token under a new family, a refresh
  trades that token for a new one of the same family and marks it spent, and everything else only
  takes rows away. No request ever brings a spent token back or puts a second one into a family.
\<close>

theorem runs_refine_logins:
  assumes "uuid_law (sys a)" "uuid_fresh (sys a)" "own_logins a w" "(served a)\<^sup>*\<^sup>* w w'"
  shows "login_step\<^sup>*\<^sup>* (logins_of (db w)) (logins_of (db w'))"
  by (rule login.run_simulated [OF assms(4)]) (use assms in \<open>simp add: login_world_def\<close>)

text \<open>
  C8. At most one live refresh token per login. In every database the service reaches, two sessions of
  one family that are not spent are one and the same row - also after requests that failed half-way or
  were answered by a database that lost the answer.
\<close>

theorem one_live_token:
  assumes "uuid_law (sys a)" "uuid_fresh (sys a)" "own_logins a w" "one_live (db w)" "(served a)\<^sup>*\<^sup>* w w'"
  shows "one_live (db w')"
proof -
  have w: "login_world a w" using assms by (simp add: login_world_def)
  have "one_token (logins_of (db w'))"
    by (rule login.spec_invariant [OF assms(5) w one_token_step])
      (use assms one_token_logins in \<open>auto simp: own_logins_def\<close>)
  moreover have "db_ok (db w')"
    using login.run_keeps [OF assms(5) w] by (simp add: login_world_def own_logins_def)
  ultimately show ?thesis by (simp add: one_token_logins)
qed

text \<open>From a sample without sessions: a login, then its refresh token twice.\<close>

definition sample_start :: "unit world" where
  "sample_start = sample_world\<lparr>db := sample_db\<lparr>ga_sessions := []\<rparr>\<rparr>"

abbreviation sample_login :: token_input where
  "sample_login \<equiv> sample_input GrantPassword ''alice'' ''secret'' []"

definition sample_refreshed :: "unit world" where
  "sample_refreshed = (case Execute_token sample_app sample_login sample_start of
     (Inl _, w) \<Rightarrow> w
   | (Inr out, w) \<Rightarrow> serve sample_app (RToken (sample_input GrantRefresh [] [] (to_refresh out))) w)"

lemma sample_run: "(served sample_app)\<^sup>*\<^sup>* sample_start sample_refreshed"
proof -
  have s: "served a w (serve a rq w)" for a :: "unit app" and w rq
    by (rule served.intros) simp_all
  obtain r w where e: "Execute_token sample_app sample_login sample_start = (r, w)" by fastforce
  then have w: "served sample_app sample_start w" using s [of sample_app sample_start "RToken sample_login"] by simp
  show ?thesis
  proof (cases r)
    case (Inl x)
    with e w show ?thesis by (auto simp: sample_refreshed_def)
  next
    case (Inr out)
    with e s [of sample_app w "RToken (sample_input GrantRefresh [] [] (to_refresh out))"]
    have "served sample_app w sample_refreshed" by (simp add: sample_refreshed_def)
    with w show ?thesis by (rule converse_rtranclp_into_rtranclp [OF _ r_into_rtranclp])
  qed
qed

lemma sample_start_ok: "uuid_law (sys sample_app)" "uuid_fresh (sys sample_app)" "own_logins sample_app sample_start"
  "one_live (db sample_start)"
proof -
  show "uuid_law (sys sample_app)" by (simp add: sample_uuid_law)
  show "uuid_fresh (sys sample_app)" by (simp add: uuid_fresh_def sample_env_def inj_def)
  have "db_ok (db sample_start)" by code_simp
  then show "own_logins sample_app sample_start" by (simp add: own_logins_def sample_start_def)
  show "one_live (db sample_start)" by (simp add: one_live_def sample_start_def)
qed

theorem runs_refine_logins_witness:
  "login_step\<^sup>*\<^sup>* (logins_of (db sample_start)) (logins_of (db sample_refreshed)) \<and>
   length (ga_sessions (db sample_refreshed)) = 2"
proof
  show "login_step\<^sup>*\<^sup>* (logins_of (db sample_start)) (logins_of (db sample_refreshed))"
    by (rule runs_refine_logins [OF sample_start_ok(1-3) sample_run])
  show "length (ga_sessions (db sample_refreshed)) = 2" by code_simp
qed

theorem one_live_token_witness:
  "one_live (db sample_refreshed) \<and> map (\<lambda>s. sr_used s = None) (ga_sessions (db sample_refreshed)) = [False, True]"
proof
  show "one_live (db sample_refreshed)"
    by (rule one_live_token [OF sample_start_ok sample_run])
  show "map (\<lambda>s. sr_used s = None) (ga_sessions (db sample_refreshed)) = [False, True]" by code_simp
qed

end
