(* ===== verification/Lifecycle.thy ===== *)
theory Lifecycle
  imports Service Machine Jobs Bootstrap
begin

text \<open>
  The life of a process: \<open>App.Run\<close> (\<open>cmd/app.go\<close>) and the goroutines it starts - the two listeners and
  one loop per enabled job (\<open>orchestrators/cron\<close>) - as one step relation. The main goroutine goes from
  stage to stage; requests come and go, timers fire and jobs finish in between, in any order. A
  request or a job acts on the database when it finishes.

  One thing is left open: \<open>pgxpool.Close\<close> waits until connections in use are given back. Which
  connection a request holds that outlived the deadline is not part of the state, so \<open>close_pool\<close> may
  happen in states in which Go would still wait for such a request.
\<close>

section \<open>Stages\<close>

datatype stage =
    Boot | Serve | ServeAdmin | StartCron | AwaitSignal | ShutPublic | AwaitPublic | ShutAdmin | AwaitAdmin
  | StopCron | AwaitJobs | ClosePool | CloseCache | Stopped | Failed

fun rank :: "stage \<Rightarrow> nat" where
  "rank Boot = 0" | "rank Serve = 1" | "rank ServeAdmin = 2" | "rank StartCron = 3" | "rank AwaitSignal = 4"
| "rank ShutPublic = 5" | "rank AwaitPublic = 6" | "rank ShutAdmin = 7" | "rank AwaitAdmin = 8" | "rank StopCron = 9"
| "rank AwaitJobs = 10" | "rank ClosePool = 11" | "rank CloseCache = 12" | "rank Stopped = 13" | "rank Failed = 14"

lemma rank_inj: "rank x = rank y \<Longrightarrow> x = y"
  by (cases x; cases y) auto

instantiation stage :: linorder
begin

definition less_eq_stage :: "stage \<Rightarrow> stage \<Rightarrow> bool" where "less_eq_stage x y \<longleftrightarrow> rank x \<le> rank y"
definition less_stage :: "stage \<Rightarrow> stage \<Rightarrow> bool" where "less_stage x y \<longleftrightarrow> rank x < rank y"

instance
  by standard (auto simp: less_eq_stage_def less_stage_def rank_inj)

end

lemmas stage_order = less_eq_stage_def less_stage_def

section \<open>The process\<close>

text \<open>A job loop waits in its \<open>select\<close>, is inside \<open>Run\<close>, or has returned.\<close>

datatype loop = Waiting | Running | Returned

record 'r process =
  pc :: stage
  public_started :: bool
  public_open :: bool
  public_shut :: bool
  public_busy :: "request_kind list"
  admin_started :: bool
  admin_open :: bool
  admin_shut :: bool
  admin_busy :: "request_kind list"
  loops :: "('r job \<times> loop) list"
  cancelled :: bool
  deadline :: bool
  pool_open :: bool
  cache_open :: bool
  outside :: "'r world"

record 'r wiring =
  the_app :: "'r app"
  schema_step :: "('r, unit) io"
  role_seeds :: "role_seed list"
  admin_seed :: seed_config
  admin_enabled :: bool
  the_jobs :: "'r job list"

definition started :: "'r world \<Rightarrow> 'r process" where
  "started w =
     \<lparr>pc = Boot, public_started = False, public_open = False, public_shut = False, public_busy = [],
      admin_started = False, admin_open = False, admin_shut = False, admin_busy = [], loops = [],
      cancelled = False, deadline = False, pool_open = True, cache_open = True, outside = w\<rparr>"

definition alive :: "'r process \<Rightarrow> bool" where
  "alive s \<longleftrightarrow> pc s < Stopped"

definition set_loop :: "nat \<Rightarrow> loop \<Rightarrow> 'r process \<Rightarrow> 'r process" where
  "set_loop i l s = s\<lparr>loops := (loops s)[i := (fst (loops s ! i), l)]\<rparr>"

text \<open>
  The world as it is when a request or a job acts: the database is what it was, the clock, the faults
  and the caches are whatever they are by then, and no drawn value comes back.
\<close>

definition meanwhile :: "'r process \<Rightarrow> 'r world \<Rightarrow> bool" where
  "meanwhile s w \<longleftrightarrow> db w = db (outside s) \<and> draws (outside s) \<le> draws w"

text \<open>\<open>Cron.Start\<close>: one loop for each job that is enabled. \<open>Cron.Stop\<close> waits for all of them.\<close>

definition start_loops :: "'r job list \<Rightarrow> ('r job \<times> loop) list" where
  "start_loops jobs = map (\<lambda>j. (j, Waiting)) (scheduled jobs)"

definition all_returned :: "('r job \<times> loop) list \<Rightarrow> bool" where
  "all_returned ls \<longleftrightarrow> (\<forall>l\<in>set ls. snd l = Returned)"

inductive app_step :: "'r wiring \<Rightarrow> 'r process \<Rightarrow> 'r process \<Rightarrow> bool" for c :: "'r wiring" where
  boot: "pc s = Boot \<Longrightarrow> meanwhile s w \<Longrightarrow>
     Run_bootstrap (the_app c) (schema_step c) (role_seeds c) (admin_seed c) w = (Inr (), w') \<Longrightarrow>
     app_step c s (s\<lparr>pc := Serve, outside := w'\<rparr>)"
| boot_fails: "pc s = Boot \<Longrightarrow> meanwhile s w \<Longrightarrow>
     Run_bootstrap (the_app c) (schema_step c) (role_seeds c) (admin_seed c) w = (Inl e, w') \<Longrightarrow>
     app_step c s (s\<lparr>pc := Failed, outside := w'\<rparr>)"
| serve_public: "pc s = Serve \<Longrightarrow> app_step c s (s\<lparr>pc := ServeAdmin, public_started := True\<rparr>)"
| serve_admin: "pc s = ServeAdmin \<Longrightarrow> app_step c s (s\<lparr>pc := StartCron, admin_started := admin_enabled c\<rparr>)"
| start_cron: "pc s = StartCron \<Longrightarrow>
     app_step c s (s\<lparr>pc := AwaitSignal, loops := start_loops (the_jobs c)\<rparr>)"
| stop_signal: "pc s = AwaitSignal \<Longrightarrow> app_step c s (s\<lparr>pc := ShutPublic\<rparr>)"
| shut_public: "pc s = ShutPublic \<Longrightarrow> app_step c s (s\<lparr>pc := AwaitPublic, public_shut := True, public_open := False\<rparr>)"
| public_drained: "pc s = AwaitPublic \<Longrightarrow> public_busy s = [] \<or> deadline s \<Longrightarrow> app_step c s (s\<lparr>pc := ShutAdmin\<rparr>)"
| shut_admin: "pc s = ShutAdmin \<Longrightarrow> admin_enabled c \<Longrightarrow>
     app_step c s (s\<lparr>pc := AwaitAdmin, admin_shut := True, admin_open := False\<rparr>)"
| no_admin: "pc s = ShutAdmin \<Longrightarrow> \<not> admin_enabled c \<Longrightarrow> app_step c s (s\<lparr>pc := StopCron\<rparr>)"
| admin_drained: "pc s = AwaitAdmin \<Longrightarrow> admin_busy s = [] \<or> deadline s \<Longrightarrow> app_step c s (s\<lparr>pc := StopCron\<rparr>)"
| stop_cron: "pc s = StopCron \<Longrightarrow> app_step c s (s\<lparr>pc := AwaitJobs, cancelled := True\<rparr>)"
| jobs_done: "pc s = AwaitJobs \<Longrightarrow> all_returned (loops s) \<Longrightarrow> app_step c s (s\<lparr>pc := ClosePool\<rparr>)"
| close_pool: "pc s = ClosePool \<Longrightarrow> app_step c s (s\<lparr>pc := CloseCache, pool_open := False\<rparr>)"
| close_cache: "pc s = CloseCache \<Longrightarrow> app_step c s (s\<lparr>pc := Stopped, cache_open := False\<rparr>)"
| expire: "alive s \<Longrightarrow> ShutPublic < pc s \<Longrightarrow> app_step c s (s\<lparr>deadline := True\<rparr>)"
| listen_public: "alive s \<Longrightarrow> public_started s \<Longrightarrow> \<not> public_shut s \<Longrightarrow> app_step c s (s\<lparr>public_open := True\<rparr>)"
| listen_admin: "alive s \<Longrightarrow> admin_started s \<Longrightarrow> \<not> admin_shut s \<Longrightarrow> app_step c s (s\<lparr>admin_open := True\<rparr>)"
| listener_fails: "alive s \<Longrightarrow> public_started s \<and> \<not> public_shut s \<or> admin_started s \<and> \<not> admin_shut s \<Longrightarrow>
     app_step c s (s\<lparr>pc := Failed\<rparr>)"
| accept_public: "alive s \<Longrightarrow> public_open s \<Longrightarrow> app_step c s (s\<lparr>public_busy := rq # public_busy s\<rparr>)"
| accept_admin: "alive s \<Longrightarrow> admin_open s \<Longrightarrow> app_step c s (s\<lparr>admin_busy := rq # admin_busy s\<rparr>)"
| answer_public: "alive s \<Longrightarrow> rq \<in> set (public_busy s) \<Longrightarrow> meanwhile s w \<Longrightarrow>
     app_step c s (s\<lparr>public_busy := remove1 rq (public_busy s), outside := serve (the_app c) rq w\<rparr>)"
| answer_admin: "alive s \<Longrightarrow> rq \<in> set (admin_busy s) \<Longrightarrow> meanwhile s w \<Longrightarrow>
     app_step c s (s\<lparr>admin_busy := remove1 rq (admin_busy s), outside := serve (the_app c) rq w\<rparr>)"
| timer: "alive s \<Longrightarrow> i < length (loops s) \<Longrightarrow> snd (loops s ! i) = Waiting \<Longrightarrow> app_step c s (set_loop i Running s)"
| job_returns: "alive s \<Longrightarrow> i < length (loops s) \<Longrightarrow> snd (loops s ! i) = Running \<Longrightarrow> meanwhile s w \<Longrightarrow>
     app_step c s ((set_loop i Waiting s)\<lparr>outside := run_job (fst (loops s ! i)) w\<rparr>)"
| loop_ends: "alive s \<Longrightarrow> i < length (loops s) \<Longrightarrow> snd (loops s ! i) = Waiting \<Longrightarrow> cancelled s \<Longrightarrow>
     app_step c s (set_loop i Returned s)"

section \<open>The order of things\<close>

inductive_cases app_stepE: "app_step c s t"

text \<open>What each stage may rely on.\<close>

definition orderly :: "'r wiring \<Rightarrow> 'r process \<Rightarrow> bool" where
  "orderly c s \<longleftrightarrow>
     (pc s \<le> Serve \<longrightarrow> \<not> public_started s) \<and> (pc s \<le> ServeAdmin \<longrightarrow> \<not> admin_started s) \<and>
     (pc s \<le> StartCron \<longrightarrow> loops s = []) \<and>
     (\<not> public_started s \<longrightarrow> \<not> public_open s \<and> public_busy s = []) \<and>
     (\<not> admin_started s \<longrightarrow> \<not> admin_open s \<and> admin_busy s = []) \<and> (admin_started s \<longrightarrow> admin_enabled c) \<and>
     (pc s > ShutPublic \<longrightarrow> public_shut s \<and> \<not> public_open s) \<and>
     (pc s > ShutAdmin \<longrightarrow> (admin_enabled c \<longrightarrow> admin_shut s) \<and> \<not> admin_open s) \<and>
     (pc s > AwaitPublic \<longrightarrow> public_busy s = [] \<or> deadline s) \<and>
     (pc s > AwaitAdmin \<longrightarrow> admin_busy s = [] \<or> deadline s) \<and>
     (pc s > StopCron \<longrightarrow> cancelled s) \<and>
     (pc s > AwaitJobs \<longrightarrow> all_returned (loops s)) \<and>
     (pool_open s \<longleftrightarrow> pc s \<le> ClosePool) \<and> (cache_open s \<longleftrightarrow> pc s \<le> CloseCache)"

definition in_order :: "'r wiring \<Rightarrow> 'r process \<Rightarrow> bool" where
  "in_order c s \<longleftrightarrow> (pc s = Failed \<and> pool_open s) \<or> (pc s \<noteq> Failed \<and> orderly c s)"

lemma in_order_started: "in_order c (started w)"
  by (simp add: in_order_def orderly_def started_def stage_order)

lemma set_loop_sel [simp]:
  "pc (set_loop i l s) = pc s" "public_started (set_loop i l s) = public_started s" "public_open (set_loop i l s) = public_open s"
  "public_shut (set_loop i l s) = public_shut s" "public_busy (set_loop i l s) = public_busy s"
  "admin_started (set_loop i l s) = admin_started s" "admin_open (set_loop i l s) = admin_open s"
  "admin_shut (set_loop i l s) = admin_shut s" "admin_busy (set_loop i l s) = admin_busy s"
  "cancelled (set_loop i l s) = cancelled s" "deadline (set_loop i l s) = deadline s"
  "pool_open (set_loop i l s) = pool_open s" "cache_open (set_loop i l s) = cache_open s" "outside (set_loop i l s) = outside s"
  "loops (set_loop i l s) = (loops s)[i := (fst (loops s ! i), l)]"
  by (simp_all add: set_loop_def)

lemma in_order_loop:
  assumes "in_order c s" "alive s" "i < length (loops s)" "snd (loops s ! i) \<noteq> Returned"
  shows "in_order c ((set_loop i l s)\<lparr>outside := w\<rparr>)" "in_order c (set_loop i l s)"
proof -
  have o: "orderly c s" "pc s \<noteq> Failed" using assms(1,2) by (auto simp: in_order_def alive_def stage_order)
  have "\<not> AwaitJobs < pc s"
  proof
    assume "AwaitJobs < pc s"
    then have "all_returned (loops s)" using o by (simp add: orderly_def)
    then show False using assms(3,4) nth_mem unfolding all_returned_def by blast
  qed
  moreover have "pc s \<le> StartCron \<longrightarrow> loops s = []" using o by (simp add: orderly_def)
  then have "\<not> pc s \<le> StartCron" using assms(3) by auto
  ultimately show "in_order c ((set_loop i l s)\<lparr>outside := w\<rparr>)" "in_order c (set_loop i l s)"
    using o unfolding in_order_def orderly_def by (simp_all add: stage_order)
qed

lemmas order_simps = in_order_def orderly_def stage_order alive_def

lemma in_order_step:
  assumes "in_order c s" "app_step c s t" shows "in_order c t"
  using assms(2)
proof (cases rule: app_step.cases)
  case (timer i)
  with in_order_loop(2) [OF assms(1)] show ?thesis by simp
next
  case (job_returns i w)
  with in_order_loop(1) [OF assms(1)] show ?thesis by simp
next
  case (loop_ends i)
  with in_order_loop(2) [OF assms(1)] show ?thesis by simp
next
  case (answer_public rq w)
  then have "public_busy s \<noteq> []" by auto
  with answer_public assms(1) show ?thesis unfolding order_simps by (elim disjE conjE; simp)
next
  case (answer_admin rq w)
  then have "admin_busy s \<noteq> []" by auto
  with answer_admin assms(1) show ?thesis unfolding order_simps by (elim disjE conjE; simp)
next
  case listener_fails
  with assms(1) show ?thesis
    unfolding order_simps by (cases "11 < rank (pc s)"; elim disjE conjE; simp)
qed (use assms(1) in \<open>simp_all add: order_simps\<close>; elim disjE conjE; simp)+

interpretation order: invariant_of "app_step c" "in_order c" for c
  by unfold_locales (rule in_order_step)

section \<open>What the parts keep, the process keeps\<close>

lemma loops_update: "i < length ls \<Longrightarrow> fst ` set ls \<subseteq> J \<Longrightarrow> fst ` set (ls[i := (fst (ls ! i), l)]) \<subseteq> J"
  using set_update_subset_insert [of ls i "(fst (ls ! i), l)"] nth_mem [of i ls] by force

definition lawful :: "'r wiring \<Rightarrow> ('r world \<Rightarrow> bool) \<Rightarrow> 'r process \<Rightarrow> bool" where
  "lawful c P s \<longleftrightarrow> P (outside s) \<and> fst ` set (loops s) \<subseteq> set (the_jobs c)"

text \<open>
  A property of the database and of how much randomness was drawn that the boot, every request and
  every job preserve.
\<close>

locale world_law =
  fixes c :: "'r wiring" and P :: "'r world \<Rightarrow> bool"
  assumes later: "P v \<Longrightarrow> db w = db v \<Longrightarrow> draws v \<le> draws w \<Longrightarrow> P w"
    and boot_law: "keeps P (Run_bootstrap (the_app c) (schema_step c) (role_seeds c) (admin_seed c))"
    and serve_law: "P w \<Longrightarrow> P (serve (the_app c) rq w)"
    and job_law: "j \<in> set (the_jobs c) \<Longrightarrow> keeps P (job_run j)"
begin

lemma still: "P (outside s) \<Longrightarrow> meanwhile s w \<Longrightarrow> P w"
  using later unfolding meanwhile_def by blast

lemma lawful_step:
  assumes "lawful c P s" "app_step c s t" shows "lawful c P t"
  using assms(2)
proof (cases rule: app_step.cases)
  case (boot w w')
  with assms(1) keepsD [OF boot_law boot(4)] still [of s w] show ?thesis by (simp add: lawful_def)
next
  case (boot_fails w e w')
  with assms(1) keepsD [OF boot_law boot_fails(4)] still [of s w] show ?thesis by (simp add: lawful_def)
next
  case start_cron
  with assms(1) show ?thesis by (auto simp: lawful_def start_loops_def scheduled_def)
next
  case (answer_public rq w)
  with assms(1) serve_law [of w rq] still [of s w] show ?thesis by (simp add: lawful_def)
next
  case (answer_admin rq w)
  with assms(1) serve_law [of w rq] still [of s w] show ?thesis by (simp add: lawful_def)
next
  case (timer i)
  with assms(1) loops_update [OF timer(3)] show ?thesis by (simp add: lawful_def)
next
  case (loop_ends i)
  with assms(1) loops_update [OF loop_ends(3)] show ?thesis by (simp add: lawful_def)
next
  case (job_returns i w)
  have "fst (loops s ! i) \<in> set (the_jobs c)" using assms(1) nth_mem [OF job_returns(3)] by (auto simp: lawful_def)
  from job_law [OF this] still [of s w] assms(1) job_returns have "P (run_job (fst (loops s ! i)) w)"
    by (simp add: keeps_def run_job_def lawful_def)
  with assms(1) loops_update [OF job_returns(3)] job_returns(1) show ?thesis by (simp add: lawful_def)
qed (use assms(1) in \<open>simp_all add: lawful_def\<close>)

lemma lawful_started: "P w \<Longrightarrow> lawful c P (started w)"
  by (simp add: lawful_def started_def)

end

sublocale world_law \<subseteq> kept: invariant_of "app_step c" "lawful c P"
  by unfold_locales (rule lawful_step)

context world_law
begin

lemma law_run:
  "(app_step c)\<^sup>*\<^sup>* p q \<Longrightarrow> P (outside p) \<Longrightarrow> fst ` set (loops p) \<subseteq> set (the_jobs c) \<Longrightarrow>
     P (outside q) \<and> fst ` set (loops q) \<subseteq> set (the_jobs c)"
  using kept.run_keeps [of p q] by (simp add: lawful_def)

end

text \<open>A property of the database alone.\<close>

locale database_law =
  fixes c :: "'r wiring" and P :: "db \<Rightarrow> bool"
  assumes boot_keeps: "keeps (\<lambda>w. P (db w)) (Run_bootstrap (the_app c) (schema_step c) (role_seeds c) (admin_seed c))"
    and serve_keeps: "P (db w) \<Longrightarrow> P (db (serve (the_app c) rq w))"
    and job_keeps: "j \<in> set (the_jobs c) \<Longrightarrow> keeps (\<lambda>w. P (db w)) (job_run j)"

sublocale database_law \<subseteq> world_law c "\<lambda>w. P (db w)"
  by unfold_locales (auto simp: boot_keeps serve_keeps job_keeps)

text \<open>
  \<open>NewApp\<close> and the schedule, as they are put together. The schema step runs against tables that exist:
  it is taken to leave their rows alone.
\<close>

definition NewApp :: "'r app \<Rightarrow> network \<Rightarrow> audit_cleaner_config \<Rightarrow> duration \<Rightarrow> webhook_config \<Rightarrow> dispatcher_config
    \<Rightarrow> outbox_cleaner_config \<Rightarrow> ('r, unit) io \<Rightarrow> role_seed list \<Rightarrow> seed_config \<Rightarrow> 'r wiring" where
  "NewApp a net ac si wh dc oc schema seeds cfg =
     \<lparr>the_app = a, schema_step = schema, role_seeds = seeds, admin_seed = cfg, admin_enabled = (admin_token a \<noteq> []),
      the_jobs = cron_jobs a net ac si wh dc oc\<rparr>"

definition goauth :: "'r wiring \<Rightarrow> bool" where
  "goauth c \<longleftrightarrow> (\<exists>a net ac si wh dc oc schema seeds cfg. frame db schema \<and> c = NewApp a net ac si wh dc oc schema seeds cfg)"

lemma goauth_NewApp: "frame db schema \<Longrightarrow> goauth (NewApp a net ac si wh dc oc schema seeds cfg)"
  unfolding goauth_def by blast

lemma goauth_keeps:
  assumes "goauth c" "keeps (\<lambda>w. P (db w)) (Execute_seed_roles (the_app c) (role_seeds c))"
    "keeps (\<lambda>w. P (db w)) (Execute_seed_super_admin (the_app c) (admin_seed c))"
    "\<And>rq w. P (db w) \<Longrightarrow> P (db (serve (the_app c) rq w))"
    "keeps (\<lambda>w. P (db w)) (Execute_session_cleaner (the_app c))" "\<And>ac. keeps (\<lambda>w. P (db w)) (Execute_audit_cleaner (the_app c) ac)"
    "\<And>oc. keeps (\<lambda>w. P (db w)) (Execute_outbox_cleaner (the_app c) oc)"
    "\<And>net wh dc. keeps (\<lambda>w. P (db w)) (Execute_dispatch (the_app c) net wh dc)"
  shows "database_law c P"
proof
  have f: "frame db (schema_step c)" using assms(1) by (auto simp: goauth_def NewApp_def)
  show "keeps (\<lambda>w. P (db w)) (Run_bootstrap (the_app c) (schema_step c) (role_seeds c) (admin_seed c))"
    unfolding Run_bootstrap_def by (intro keeps_rules assms(2,3) frame_imp_keeps f)
  fix j assume "j \<in> set (the_jobs c)"
  then show "keeps (\<lambda>w. P (db w)) (job_run j)"
    using assms(1,5-8) by (auto simp: goauth_def NewApp_def cron_jobs_def done_with_def intro!: keeps_rules)
qed (rule assms(4))

lemma goauth_tables: "goauth c \<Longrightarrow> database_law c db_ok"
  by (rule goauth_keeps) (assumption | rule serve_ok | intro keeps_rules)+

lemma law_under: "(H \<Longrightarrow> database_law c P) \<Longrightarrow> database_law c (\<lambda>d. H \<longrightarrow> P d)"
  by (cases H) (simp_all add: database_law_def keeps_def)

interpretation tables: database_law c "\<lambda>d. goauth c \<longrightarrow> db_ok d" for c
  by (rule law_under [OF goauth_tables])

text \<open>No step of the process takes the last active superadmin away.\<close>

lemma manned_housekeeping [stmt_manned]:
  "stmt_keeps (manned n) (q_SeedRole nm rk sy)" "stmt_keeps (manned n) (q_SeedRolePermission nm pm)"
  "stmt_keeps (manned n) q_DeleteExpiredSessions"
  "stmt_keeps (manned n) (q_DeleteAuditEntriesBefore c)" "stmt_keeps (manned n) (q_DeleteAuditEntriesBeyond k)"
  "stmt_keeps (manned n) (q_ClaimDueOutboxEvents lim ls)" "stmt_keeps (manned n) (q_MarkOutboxDelivered i)"
  "stmt_keeps (manned n) (q_MarkOutboxFailed i er nx gu)" "stmt_keeps (manned n) (q_DeleteOutboxEventsBefore c)"
  "stmt_keeps (manned n) (q_DeleteStuckOutboxEvents c)"
  by (rule stmt_manned_users, simp add: stmt_oks,
      auto simp: q_SeedRole_def q_CreateRole_def q_SeedRolePermission_def q_AddRolePermission_def q_DeleteExpiredSessions_def
        delete_sessions_def q_DeleteAuditEntriesBefore_def q_DeleteAuditEntriesBeyond_def q_ClaimDueOutboxEvents_def
        q_MarkOutboxDelivered_def q_MarkOutboxFailed_def q_DeleteOutboxEventsBefore_def q_DeleteStuckOutboxEvents_def
        delete_outbox_def Let_def split: if_splits option.splits)+

lemma manned_repo_jobs [keeps_rules]:
  "keeps_manned n (DeleteExpiredSessions q)" "keeps_manned n (DeleteAuditEntriesBefore q t)"
  "keeps_manned n (DeleteAuditEntriesBeyond q k)" "keeps_manned n (ClaimDueOutboxEvents q lim ls)"
  "keeps_manned n (MarkOutboxDelivered q i)" "keeps_manned n (MarkOutboxFailed q i er nx gu)"
  "keeps_manned n (DeleteOutboxEventsBefore q t)" "keeps_manned n (DeleteStuckOutboxEvents q t)"
  "keeps_manned n (SeedRole q ro)" "keeps_manned n (GetUserByUsername q nm)" "keeps_manned n (CountActiveSuperAdmins q)"
  unfolding repo_defs SeedRole_def Let_def by (intro keeps_rules keeps_exec_stmt stmt_manned stmt_pures | simp)+

lemma manned_process:
  "keeps_manned n (Send e net cfg i ev k pl)"
  "keeps_manned n (Execute_session_cleaner a)" "keeps_manned n (Execute_audit_cleaner a ac)" "keeps_manned n (Execute_outbox_cleaner a oc)"
  "keeps_manned n (Execute_dispatch a net wh dc)"
  "keeps_manned n (Execute_seed_roles a seeds)" "keeps_manned n (Execute_seed_super_admin a sc)"
  unfolding Execute_session_cleaner_def Execute_audit_cleaner_def Execute_outbox_cleaner_def Execute_dispatch_def
    deliver_def record_failure_def Send_def Execute_seed_roles_def seed_count_def seed_role_def
    Execute_seed_super_admin_def create_first_admin_def Let_def
  by (intro keeps_rules keeps_db frame_rules)+

lemma goauth_manned: "goauth c \<Longrightarrow> uuid_law (sys (the_app c)) \<Longrightarrow> database_law c (manned 1)"
  by (rule goauth_keeps) (assumption | rule manned_process serve_manned)+

interpretation admins: database_law c "\<lambda>d. goauth c \<and> uuid_law (sys (the_app c)) \<longrightarrow> manned 1 d" for c
  by (rule law_under) (elim conjE, rule goauth_manned)

section \<open>The way down\<close>

definition finishes :: "'r wiring \<Rightarrow> 'r process \<Rightarrow> bool" where
  "finishes c s \<longleftrightarrow> (\<exists>t. (app_step c)\<^sup>*\<^sup>* s t \<and> pc t = Stopped)"

lemma finishes_step: "app_step c s t \<Longrightarrow> finishes c t \<Longrightarrow> finishes c s"
  unfolding finishes_def by (meson converse_rtranclp_into_rtranclp)

lemma finishes_Stopped: "pc s = Stopped \<Longrightarrow> finishes c s"
  unfolding finishes_def by blast

lemma finishes_CloseCache: "pc s = CloseCache \<Longrightarrow> finishes c s"
  by (rule finishes_step [OF app_step.close_cache finishes_Stopped]) simp_all

lemma finishes_ClosePool: "pc s = ClosePool \<Longrightarrow> finishes c s"
  by (rule finishes_step [OF app_step.close_pool finishes_CloseCache]) simp_all

text \<open>What the loops still have to do once they are cancelled.\<close>

fun ahead :: "loop \<Rightarrow> nat" where
  "ahead Running = 2" | "ahead Waiting = 1" | "ahead Returned = 0"

definition work :: "'r process \<Rightarrow> nat" where
  "work s = sum_list (map (\<lambda>l. ahead (snd l)) (loops s))"

lemma work_less:
  assumes "i < length (loops s)" "ahead l < ahead (snd (loops s ! i))"
  shows "work (set_loop i l s) < work s"
proof -
  have "ahead (snd (loops s ! i)) \<le> sum_list (map (\<lambda>l. ahead (snd l)) (loops s))"
    by (rule member_le_sum_list) (use assms(1) in auto)
  then show ?thesis using assms by (simp add: work_def map_update sum_list_update)
qed

lemma finishes_AwaitJobs: "pc s = AwaitJobs \<Longrightarrow> cancelled s \<Longrightarrow> finishes c s"
proof (induction "work s" arbitrary: s rule: less_induct)
  case less
  have alive: "alive s" using less.prems by (simp add: alive_def stage_order)
  show ?case
  proof (cases "all_returned (loops s)")
    case True
    show ?thesis
      by (rule finishes_step [OF app_step.jobs_done finishes_ClosePool]) (use less.prems True in simp_all)
  next
    case False
    then obtain i where i: "i < length (loops s)" "snd (loops s ! i) \<noteq> Returned" by (auto simp: all_returned_def in_set_conv_nth)
    show ?thesis
    proof (cases "snd (loops s ! i)")
      case Waiting
      show ?thesis
        by (rule finishes_step [OF app_step.loop_ends [OF alive i(1) Waiting less.prems(2)] less.hyps [OF work_less]])
          (use i Waiting less.prems in simp_all)
    next
      case Running
      have "work ((set_loop i Waiting s)\<lparr>outside := run_job (fst (loops s ! i)) (outside s)\<rparr>) = work (set_loop i Waiting s)"
        by (simp add: work_def)
      then have "work ((set_loop i Waiting s)\<lparr>outside := run_job (fst (loops s ! i)) (outside s)\<rparr>) < work s"
        using work_less [OF i(1), of Waiting] Running by simp
      from finishes_step [OF app_step.job_returns [OF alive i(1) Running, of "outside s"] less.hyps [OF this]] less.prems
      show ?thesis by (simp add: meanwhile_def)
    qed (use i in simp)
  qed
qed

lemma finishes_StopCron: "pc s = StopCron \<Longrightarrow> finishes c s"
  by (rule finishes_step [OF app_step.stop_cron finishes_AwaitJobs]) simp_all

lemma finishes_AwaitAdmin: "pc s = AwaitAdmin \<Longrightarrow> finishes c s"
  by (rule finishes_step [OF app_step.expire finishes_step [OF app_step.admin_drained finishes_StopCron]])
    (simp_all add: alive_def stage_order)

lemma finishes_ShutAdmin: "pc s = ShutAdmin \<Longrightarrow> finishes c s"
  using finishes_step [OF app_step.shut_admin finishes_AwaitAdmin] finishes_step [OF app_step.no_admin finishes_StopCron]
  by (cases "admin_enabled c") fastforce+

lemma finishes_AwaitPublic: "pc s = AwaitPublic \<Longrightarrow> finishes c s"
  by (rule finishes_step [OF app_step.expire finishes_step [OF app_step.public_drained finishes_ShutAdmin]])
    (simp_all add: alive_def stage_order)

lemma finishes_ShutPublic: "pc s = ShutPublic \<Longrightarrow> finishes c s"
  by (rule finishes_step [OF app_step.shut_public finishes_AwaitPublic]) simp_all

lemma finishes_AwaitSignal: "pc s = AwaitSignal \<Longrightarrow> finishes c s"
  by (rule finishes_step [OF app_step.stop_signal finishes_ShutPublic]) simp_all

lemmas finishes_stages = finishes_AwaitSignal finishes_ShutPublic finishes_AwaitPublic finishes_ShutAdmin finishes_AwaitAdmin
  finishes_StopCron finishes_ClosePool finishes_CloseCache finishes_Stopped

section \<open>What a run of the process shows\<close>

text \<open>
  C29. Order of the way down. Once the connection pool is closed, no job is running or will run again,
  both listeners are shut, and a request can be in flight only because the fifteen seconds it was
  given have passed - whatever interleaving of requests, timers, jobs and failures led there.
\<close>

theorem pool_closes_last:
  assumes "(app_step c)\<^sup>*\<^sup>* (started w) s" "\<not> pool_open s"
  shows "all_returned (loops s) \<and> \<not> public_open s \<and> \<not> admin_open s \<and>
    (public_busy s = [] \<and> admin_busy s = [] \<or> deadline s)"
proof -
  have "in_order c s" by (rule order.run_keeps [OF assms(1) in_order_started])
  then have o: "orderly c s" using assms(2) by (auto simp: in_order_def)
  then have "ClosePool < pc s" using assms(2) by (simp add: orderly_def not_le)
  with o show ?thesis by (auto simp: orderly_def stage_order)
qed

text \<open>
  C30. The way down can always end. From every state a process can be in once it serves, the stop signal
  included, some run leads to the end with the pool and the cache closed: the shutdown has no state
  it could not leave, whatever requests, jobs that failed or still run, and listeners it finds.
\<close>

theorem shutdown_completes:
  assumes "(app_step c)\<^sup>*\<^sup>* (started w) s" "AwaitSignal \<le> pc s" "pc s \<noteq> Failed"
  shows "\<exists>t. (app_step c)\<^sup>*\<^sup>* s t \<and> pc t = Stopped \<and> \<not> pool_open t \<and> \<not> cache_open t"
proof -
  have "in_order c s" by (rule order.run_keeps [OF assms(1) in_order_started])
  with assms(3) have "orderly c s" by (simp add: in_order_def)
  then have "pc s = AwaitJobs \<Longrightarrow> cancelled s" by (simp add: orderly_def stage_order)
  with assms(2,3) have "finishes c s"
    by (cases "pc s") (simp_all add: finishes_stages finishes_AwaitJobs stage_order)
  then obtain t where t: "(app_step c)\<^sup>*\<^sup>* s t" "pc t = Stopped" by (auto simp: finishes_def)
  have "in_order c t" using order.run_keeps [OF t(1)] \<open>in_order c s\<close> by blast
  with t show ?thesis by (auto simp: in_order_def orderly_def stage_order)
qed

text \<open>
  The tables stay well-formed for the life of a process. From its start, through the boot, every
  request on either listener and every run of every job, in any order and with any clock, fault and
  answer, the database satisfies the constraints of the schema and every foreign key.
\<close>

theorem process_keeps_tables:
  assumes "frame db schema" "db_ok (db w)" "(app_step (NewApp a net ac si wh dc oc schema seeds cfg))\<^sup>*\<^sup>* (started w) s"
  shows "db_ok (db (outside s))"
proof -
  have g: "goauth (NewApp a net ac si wh dc oc schema seeds cfg)" using assms(1) by (rule goauth_NewApp)
  from tables.kept.run_keeps [OF assms(3) tables.lawful_started] assms(2) g show ?thesis
    by (simp add: lawful_def)
qed

text \<open>
  C10. The last administrator survives the process. If there is an active superadmin at some moment of
  a process's life, there is one at every later moment, whatever is asked of it by whomever, and
  whatever housekeeping runs in between - as long as requests act one at a time.
\<close>

theorem process_keeps_an_admin:
  assumes "frame db schema" "uuid_law (sys a)" "db_ok (db w)"
    "(app_step (NewApp a net ac si wh dc oc schema seeds cfg))\<^sup>*\<^sup>* (started w) s" "1 \<le> superadmins (db (outside s))"
    "(app_step (NewApp a net ac si wh dc oc schema seeds cfg))\<^sup>*\<^sup>* s t"
  shows "1 \<le> superadmins (db (outside t))"
proof -
  let ?c = "NewApp a net ac si wh dc oc schema seeds cfg"
  have g: "goauth ?c" "the_app ?c = a" using goauth_NewApp [OF assms(1)] by (simp_all add: NewApp_def)
  from tables.kept.run_keeps [OF assms(4) tables.lawful_started] assms(3) g
  have "db_ok (db (outside s))" "fst ` set (loops s) \<subseteq> set (the_jobs ?c)" by (simp_all add: lawful_def)
  then have "lawful ?c (\<lambda>w. goauth ?c \<and> uuid_law (sys (the_app ?c)) \<longrightarrow> manned 1 (db w)) s" using assms(5) by (simp add: lawful_def manned_def)
  from admins.kept.run_keeps [OF assms(6) this] g assms(2) show ?thesis by (simp add: lawful_def manned_def)
qed

section \<open>A concrete process\<close>

abbreviation sample_wiring :: "unit wiring" where
  "sample_wiring \<equiv> NewApp sample_app silent_network audit_cleaner_defaults Hour no_webhook dispatcher_defaults
     outbox_cleaner_defaults (ret ()) [] (first_admin [])"

definition booted :: "unit world" where
  "booted = snd (Run_bootstrap sample_app (ret ()) [] (first_admin []) sample_world)"

definition serving :: "unit process" where
  "serving = (started booted)
     \<lparr>pc := AwaitSignal, public_started := True, admin_started := True,
      loops := start_loops (the_jobs sample_wiring)\<rparr>"

lemma sample_boot: "Run_bootstrap sample_app (ret ()) [] (first_admin []) sample_world = (Inr (), booted)"
proof -
  have "fst (Run_bootstrap sample_app (ret ()) [] (first_admin []) sample_world) = Inr ()" by code_simp
  then show ?thesis by (simp add: booted_def prod_eq_iff)
qed

lemma rtrancl_step: "r\<^sup>*\<^sup>* a b \<Longrightarrow> r b c \<Longrightarrow> r\<^sup>*\<^sup>* a c"
  by (rule rtranclp.rtrancl_into_rtrancl)

lemma run_serving: "(app_step sample_wiring)\<^sup>*\<^sup>* (started sample_world) serving"
proof -
  let ?c = sample_wiring and ?s0 = "started sample_world"
  let ?s1 = "?s0\<lparr>pc := Serve, outside := booted\<rparr>"
  let ?s2 = "?s1\<lparr>pc := ServeAdmin, public_started := True\<rparr>"
  let ?s3 = "?s2\<lparr>pc := StartCron, admin_started := admin_enabled ?c\<rparr>"
  have "app_step ?c ?s0 ?s1"
    by (rule app_step.boot [where w = sample_world]) (simp_all add: started_def meanwhile_def NewApp_def sample_boot)
  moreover have "app_step ?c ?s1 ?s2" by (rule app_step.serve_public) simp
  moreover have "app_step ?c ?s2 ?s3" by (rule app_step.serve_admin) simp
  moreover have "app_step ?c ?s3 serving"
  proof -
    have "admin_enabled ?c" by (simp add: NewApp_def sample_app_def)
    then show ?thesis using app_step.start_cron [of ?s3 ?c] by (simp add: serving_def started_def)
  qed
  ultimately show ?thesis by (meson rtranclp.rtrancl_refl rtrancl_step)
qed

lemma run_request_from:
  "\<exists>t. (app_step sample_wiring)\<^sup>*\<^sup>* (serving\<lparr>outside := w\<rparr>) t \<and> outside t = serve sample_app rq w"
proof -
  let ?c = sample_wiring and ?s0 = "serving\<lparr>outside := w\<rparr>"
  let ?s1 = "?s0\<lparr>public_open := True\<rparr>"
  let ?s2 = "?s1\<lparr>public_busy := rq # public_busy ?s1\<rparr>"
  let ?s3 = "?s2\<lparr>public_busy := remove1 rq (public_busy ?s2), outside := serve (the_app ?c) rq w\<rparr>"
  have "app_step ?c ?s0 ?s1" by (rule app_step.listen_public) (simp_all add: serving_def alive_def stage_order started_def)
  moreover have "app_step ?c ?s1 ?s2" by (rule app_step.accept_public) (simp_all add: serving_def alive_def stage_order)
  moreover have "app_step ?c ?s2 ?s3"
    by (rule app_step.answer_public) (simp_all add: serving_def alive_def stage_order meanwhile_def started_def)
  ultimately have "(app_step ?c)\<^sup>*\<^sup>* ?s0 ?s3" by (meson rtranclp.rtrancl_refl rtrancl_step)
  then show ?thesis by (intro exI [of _ ?s3]) (simp add: NewApp_def)
qed

lemma run_request: "\<exists>t. (app_step sample_wiring)\<^sup>*\<^sup>* serving t \<and> outside t = serve sample_app rq booted"
proof -
  have "serving\<lparr>outside := booted\<rparr> = serving" by (simp add: serving_def started_def)
  with run_request_from [of booted rq] show ?thesis by simp
qed

theorem shutdown_completes_witness: "\<exists>t. (app_step sample_wiring)\<^sup>*\<^sup>* serving t \<and> pc t = Stopped \<and> \<not> pool_open t \<and> \<not> cache_open t"
  by (rule shutdown_completes [OF run_serving]) (simp_all add: serving_def stage_order)

theorem pool_closes_last_witness:
  "\<exists>s. (app_step sample_wiring)\<^sup>*\<^sup>* (started sample_world) s \<and> \<not> pool_open s \<and> all_returned (loops s) \<and> \<not> public_open s"
proof -
  have "finishes sample_wiring serving" by (rule finishes_AwaitSignal) (simp add: serving_def)
  then obtain t where t: "(app_step sample_wiring)\<^sup>*\<^sup>* serving t" "pc t = Stopped" by (auto simp: finishes_def)
  from run_serving t(1) have r: "(app_step sample_wiring)\<^sup>*\<^sup>* (started sample_world) t" by (rule rtranclp_trans)
  from order.run_keeps [OF r in_order_started] t(2) have "\<not> pool_open t" by (auto simp: in_order_def orderly_def stage_order)
  with pool_closes_last [OF r this] r show ?thesis by blast
qed

theorem process_keeps_tables_witness:
  "db_ok (db (serve sample_app (RUserDelete (sample_caller 4) (sample_uuid_text 1)) booted))"
proof -
  obtain t where t: "(app_step sample_wiring)\<^sup>*\<^sup>* serving t"
    "outside t = serve sample_app (RUserDelete (sample_caller 4) (sample_uuid_text 1)) booted" using run_request by blast
  have "db_ok (db sample_world)" by (simp add: sample_db_ok)
  from process_keeps_tables [OF frame_ret this rtranclp_trans [OF run_serving t(1)]] t(2) show ?thesis by simp
qed

theorem process_keeps_an_admin_witness:
  "1 \<le> superadmins (db (serve sample_app (RUserDelete unnamed_caller (sample_uuid_text 2)) booted))"
proof -
  obtain t where t: "(app_step sample_wiring)\<^sup>*\<^sup>* serving t"
    "outside t = serve sample_app (RUserDelete unnamed_caller (sample_uuid_text 2)) booted" using run_request by blast
  have ok: "uuid_law (sys sample_app)" "db_ok (db sample_world)" by (simp_all add: sample_uuid_law sample_db_ok)
  have "1 \<le> superadmins (db booted)" by code_simp
  then have "1 \<le> superadmins (db (outside serving))" by (simp add: serving_def started_def)
  from process_keeps_an_admin [OF frame_ret ok run_serving this t(1)] t(2) show ?thesis by simp
qed

end
