(* ===== verification/Secrets.thy ===== *)
theory Secrets
  imports Lifecycle Logins
begin

text \<open>
  What the database holds of the secrets: passwords only as hashes, refresh tokens only as hashes,
  and a token that was exchanged never again as a live one. Both are instances of one contract on the
  rows that carry a secret, which every write of the service respects.
\<close>

section \<open>The contract\<close>

definition rows_fine :: "(string \<Rightarrow> bool) \<Rightarrow> (session_row \<Rightarrow> bool) \<Rightarrow> db \<Rightarrow> bool" where
  "rows_fine H S d \<longleftrightarrow> (\<forall>u\<in>set (ga_users d). H (ur_hash u)) \<and> (\<forall>s\<in>set (ga_sessions d). S s)"

definition fine_world :: "(string \<Rightarrow> bool) \<Rightarrow> (session_row \<Rightarrow> bool) \<Rightarrow> nat \<Rightarrow> 'r world \<Rightarrow> bool" where
  "fine_world H S N w \<longleftrightarrow> N \<le> draws w \<and> rows_fine H S (db w)"

definition good_token :: "(session_row \<Rightarrow> bool) \<Rightarrow> string \<Rightarrow> bool" where
  "good_token S h \<longleftrightarrow> (\<forall>s. sr_hash s = h \<longrightarrow> sr_used s = None \<longrightarrow> S s)"

text \<open>
  \<open>H\<close> holds of the password column of every account, \<open>S\<close> of every session row. \<open>S\<close> survives the
  marking of a row as spent; what \<open>Hash\<close> returns satisfies \<open>H\<close>; and a fresh row for a token drawn at or
  after the \<open>N\<close>-th draw satisfies \<open>S\<close>.
\<close>

locale secret_rows =
  fixes e :: ext and H :: "string \<Rightarrow> bool" and S :: "session_row \<Rightarrow> bool" and N :: nat
  assumes spending: "S s \<Longrightarrow> S (s\<lparr>sr_used := Some t\<rparr>)"
    and hashing: "argon2_idkey e pw salt (Iterations p) (Memory p) (Parallelism p) (KeyLength p) = Some key \<Longrightarrow> H (phc p salt key)"
    and drawing: "N \<le> n \<Longrightarrow> rand_read e n refreshTokenBytes = Some buf \<Longrightarrow>
       sr_hash s = HashRefresh e (raw_encode True buf) \<Longrightarrow> sr_used s = None \<Longrightarrow> S s"
begin

abbreviation rows :: "db \<Rightarrow> bool" where "rows \<equiv> rows_fine H S"
abbreviation fine :: "'r world \<Rightarrow> bool" where "fine \<equiv> fine_world H S N"
abbreviation good :: "string \<Rightarrow> bool" where "good \<equiv> good_token S"

subsection \<open>Statements\<close>

lemma stmt_rowsI:
  assumes "\<And>now u d x d'. st now u d = Inr (x, d') \<Longrightarrow> rows d \<Longrightarrow> rows d'"
  shows "stmt_keeps rows st"
  using assms unfolding stmt_keeps_def by blast

lemma update_user_rows:
  assumes "update_user_row i f d = Inr (x, d')" "rows d" "\<And>r. H (ur_hash r) \<Longrightarrow> H (ur_hash (f r))"
  shows "rows d'"
  using assms by (auto simp: update_user_row_def rows_fine_def Let_def dest!: find_Some_set split: option.splits if_splits)

lemma rows_user_stmts:
  "stmt_keeps rows (update_stmt p i)" "stmt_keeps rows (q_SoftDeleteUser i)" "stmt_keeps rows (q_TouchUserLogin i)"
  "H h \<Longrightarrow> stmt_keeps rows (q_SetUserPassword i h)"
  by (rule stmt_rowsI, auto simp: update_stmt_def q_UpdateUser_def q_SoftDeleteUser_def q_SetUserPassword_def q_TouchUserLogin_def
      rows_fine_def elim!: update_user_rows [unfolded rows_fine_def])+

lemma rows_new_stmts:
  "H h \<Longrightarrow> stmt_keeps rows (q_CreateUser un em h ro st)"
  "good (cs_hash p) \<Longrightarrow> stmt_keeps rows (session_stmt p i j)" "stmt_keeps rows (q_SpendSession k)"
  by (rule stmt_rowsI, auto simp: q_CreateUser_def session_stmt_def q_CreateSession_def q_SpendSession_def good_token_def
      rows_fine_def spending Let_def split: option.splits if_splits)+

lemma rows_other_stmts:
  "stmt_keeps rows (q_CreateRole nm rk sy)" "stmt_keeps rows (q_UpdateRole nm rk' sy')"
  "stmt_keeps rows (q_DeleteRole nm)" "stmt_keeps rows (q_DeleteRolePermissions nm)"
  "stmt_keeps rows (q_AddRolePermission nm pm)" "stmt_keeps rows (q_SeedRole nm rk sy)"
  "stmt_keeps rows (q_SeedRolePermission nm pm)"
  "stmt_keeps rows (q_DeleteSessionFamily i)" "stmt_keeps rows (q_DeleteUserSessions i)"
  "stmt_keeps rows (q_DeleteExpiredSessions)"
  "stmt_keeps rows (q_InsertAuditEntry ac an tg ip mt)" "stmt_keeps rows (q_InsertOutboxEvent ev pl)"
  "stmt_keeps rows (q_DeleteAuditEntriesBefore c)" "stmt_keeps rows (q_DeleteAuditEntriesBeyond k)"
  "stmt_keeps rows (q_ClaimDueOutboxEvents lim ls)" "stmt_keeps rows (q_MarkOutboxDelivered i)"
  "stmt_keeps rows (q_MarkOutboxFailed i er nx gu)" "stmt_keeps rows (q_DeleteOutboxEventsBefore c)"
  "stmt_keeps rows (q_DeleteStuckOutboxEvents c)"
  by (rule stmt_rowsI, auto simp: q_CreateRole_def q_UpdateRole_def q_DeleteRole_def q_DeleteRolePermissions_def
      q_AddRolePermission_def q_SeedRole_def q_SeedRolePermission_def q_DeleteSessionFamily_def q_DeleteUserSessions_def
      q_DeleteExpiredSessions_def delete_sessions_def q_InsertAuditEntry_def q_InsertOutboxEvent_def
      q_DeleteAuditEntriesBefore_def q_DeleteAuditEntriesBeyond_def q_ClaimDueOutboxEvents_def q_MarkOutboxDelivered_def
      q_MarkOutboxFailed_def q_DeleteOutboxEventsBefore_def q_DeleteStuckOutboxEvents_def delete_outbox_def rows_fine_def
      Let_def split: if_splits option.splits)+

lemmas rows_stmts = rows_user_stmts rows_new_stmts rows_other_stmts stmt_pure_keeps

subsection \<open>Operations\<close>

abbreviation keeps_rows :: "('r world, 'x, 'a) act \<Rightarrow> bool" where
  "keeps_rows m \<equiv> keeps (\<lambda>w. rows (db w)) m"

lemma fineI: "keeps_rows m \<Longrightarrow> (\<And>n. keeps_draws n m) \<Longrightarrow> keeps fine m"
  by (simp add: keeps_def fine_world_def)

lemma fine_frame: "frame db m \<Longrightarrow> (\<And>n. keeps_draws n m) \<Longrightarrow> keeps fine m"
  by (intro fineI keeps_db)

lemma rows_repo:
  "keeps_rows (UpdateUser a up)" "keeps_rows (UpdateUserAndRevokeSessions a up)" "keeps_rows (SoftDeleteUser a i ev)"
  "keeps_rows (TouchUserLogin a i)" "keeps_rows (CreateRole a ro)" "keeps_rows (UpdateRole a urp)" "keeps_rows (DeleteRole a nm)"
  "keeps_rows (DeleteSessionFamily a i)" "keeps_rows (DeleteUserSessions a i)" "keeps_rows (InsertAuditEntry a ae)"
  "keeps_rows (DeleteExpiredSessions a)" "keeps_rows (DeleteAuditEntriesBefore a t)" "keeps_rows (DeleteAuditEntriesBeyond a k)"
  "keeps_rows (ClaimDueOutboxEvents a lim ls)" "keeps_rows (MarkOutboxDelivered a i)" "keeps_rows (MarkOutboxFailed a i er nx gu)"
  "keeps_rows (DeleteOutboxEventsBefore a t)" "keeps_rows (DeleteStuckOutboxEvents a t)" "keeps_rows (SeedRole a ro)"
  unfolding repo_defs SeedRole_def Let_def insertEvent_def replaceRolePermissions_def
  by (intro keeps_rules keeps_exec_stmt rows_stmts stmt_pures | simp)+

lemma rows_repo_given:
  "H (cu_hash cup) \<Longrightarrow> keeps_rows (CreateUser a cup)" "H h \<Longrightarrow> keeps_rows (SetPasswordAndRevokeSessions a i h ev)"
  "good (cs_hash csp) \<Longrightarrow> keeps_rows (CreateSession a csp)" "good (cs_hash csp) \<Longrightarrow> keeps_rows (RotateSession a hk csp)"
  unfolding repo_defs Let_def insertEvent_def
  by (intro keeps_rules keeps_exec_stmt rows_stmts stmt_pures | simp)+

lemma draws_jobs:
  "keeps_draws n (DeleteExpiredSessions q)" "keeps_draws n (DeleteAuditEntriesBefore q t)" "keeps_draws n (DeleteAuditEntriesBeyond q k)"
  "keeps_draws n (ClaimDueOutboxEvents q lim ls)" "keeps_draws n (MarkOutboxDelivered q i)" "keeps_draws n (MarkOutboxFailed q i er nx gu)"
  "keeps_draws n (DeleteOutboxEventsBefore q t)" "keeps_draws n (DeleteStuckOutboxEvents q t)" "keeps_draws n (SeedRole q ro)"
  unfolding repo_defs SeedRole_def Let_def
  by (intro keeps_rules | simp)+

lemmas fine_draws = draws_world draws_stmt draws_repo draws_jobs draws_newRefreshToken draws_sign_pair draws_services draws_admin

lemma fine_writes:
  "keeps fine (UpdateUser a up)" "keeps fine (UpdateUserAndRevokeSessions a up)" "keeps fine (SoftDeleteUser a i ev)"
  "keeps fine (TouchUserLogin a i)" "keeps fine (CreateRole a ro)" "keeps fine (UpdateRole a urp)" "keeps fine (DeleteRole a nm)"
  "keeps fine (DeleteSessionFamily a i)" "keeps fine (DeleteUserSessions a i)" "keeps fine (InsertAuditEntry a ae)"
  "keeps fine (DeleteExpiredSessions a)" "keeps fine (DeleteAuditEntriesBefore a t)" "keeps fine (DeleteAuditEntriesBeyond a k)"
  "keeps fine (ClaimDueOutboxEvents a lim ls)" "keeps fine (MarkOutboxDelivered a i)" "keeps fine (MarkOutboxFailed a i er nx gu)"
  "keeps fine (DeleteOutboxEventsBefore a t)" "keeps fine (DeleteStuckOutboxEvents a t)" "keeps fine (SeedRole a ro)"
  "H (cu_hash cup) \<Longrightarrow> keeps fine (CreateUser a cup)" "H h \<Longrightarrow> keeps fine (SetPasswordAndRevokeSessions a i h ev)"
  "good (cs_hash csp) \<Longrightarrow> keeps fine (CreateSession a csp)" "good (cs_hash csp) \<Longrightarrow> keeps fine (RotateSession a hk csp)"
  by (intro fineI rows_repo rows_repo_given fine_draws; assumption)+

lemma fine_reads:
  "keeps fine (GetUserByID q i)" "keeps fine (GetUserByUsername q nm)" "keeps fine (GetUserByEmail q nm)"
  "keeps fine (CountActiveSuperAdmins q)" "keeps fine (ListUsers q lup)" "keeps fine (CountUsers q lup)"
  "keeps fine (GetRole q nm)" "keeps fine (ListRoles q)" "keeps fine (ActorRole q i)"
  "keeps fine (GetSessionByID q i)" "keeps fine (GetSessionByRefreshHash q k)"
  "keeps fine (ListLiveUserSessions q i)" "keeps fine (ListAuditEntries q lap)"
  "keeps fine Now" "keeps fine (draw f)" "keeps fine (NewString x)" "keeps fine (sign_pair a u s t c)" "keeps fine (DummyVerify x hs pw)"
  "keeps fine (Backoff l k)" "keeps fine (RegisterFailure l k)" "keeps fine (Reset l k)" "keeps fine (Actor a i)"
  "keeps fine (guard_target a by u)" "keeps fine (guard_last_admin a b)" "keeps fine (guard_assigned a uui u r)"
  "keeps fine (plan_update a by uui)" "keeps fine (plan_delete a by i)"
  by (intro fine_frame frame_rules frame_world fine_draws frame_plan_delete)+

text \<open>What a hash or a fresh token is good for, the rest of the operation may use.\<close>

lemma fine_Hash_then:
  fixes k :: "string \<Rightarrow> ('r, 'x) io"
  assumes "sys a = e" "\<And>h. H h \<Longrightarrow> keeps fine (k h)"
  shows "keeps fine (andthen (map_err g (Hash (sys a) p pw)) k)"
  unfolding keeps_def
proof (intro allI impI)
  fix w :: "'r world" assume w: "fine w"
  obtain r w1 where h: "Hash e p pw w = (r, w1)" by fastforce
  have w1: "fine w1"
    using keepsD [OF fine_frame [OF frame_Hash(1) draws_services(2)] h w] .
  show "fine (snd (andthen (map_err g (Hash (sys a) p pw)) k w))"
  proof (cases r)
    case (Inr x)
    with h have "H x" by (auto elim: Hash_Inr intro: hashing)
    with assms w1 h Inr show ?thesis by (simp add: andthen_simp map_err_simp keeps_def)
  qed (use assms(1) h w1 in \<open>simp add: andthen_simp map_err_simp\<close>)
qed

lemma fine_token_then:
  fixes k :: "string \<times> string \<Rightarrow> ('r, 'x) io"
  assumes "\<And>t h. good h \<Longrightarrow> keeps fine (k (t, h))"
  shows "keeps fine (andthen (newRefreshToken e) k)"
  unfolding keeps_def
proof (intro allI impI)
  fix w :: "'r world" assume w: "fine w"
  obtain r w1 where t: "newRefreshToken e w = (r, w1)" by fastforce
  have w1: "fine w1"
    using keepsD [OF fine_frame [OF frame_newRefreshToken(1) draws_newRefreshToken] t w] .
  show "fine (snd (andthen (newRefreshToken e) k w))"
  proof (cases r)
    case (Inr x)
    with t obtain buf where "rand_read e (draws w) refreshTokenBytes = Some buf"
      "x = (raw_encode True buf, HashRefresh e (raw_encode True buf))"
      by (auto simp: newRefreshToken_def rand_Read_def act_inv draw_def Let_def map_err_Inr split: option.splits)
    with w have "good (snd x)" unfolding good_token_def fine_world_def using drawing by fastforce
    with assms w1 t Inr show ?thesis by (cases x) (simp add: andthen_simp keeps_def)
  qed (use t w1 in \<open>simp add: andthen_simp\<close>)
qed

lemma fine_Issue:
  assumes "sys a = e"
  shows "keeps fine (Issue a u c)" "keeps fine (Rotate a h u f c)"
  unfolding Issue_def Rotate_def assms
  by (rule keeps_andthen [OF fine_reads(16)] fine_token_then | simp only: prod.case | intro keeps_rules fine_writes fine_reads
      | simp add: session_params_def)+

subsection \<open>Use cases\<close>

lemma fine_Record: "keeps fine (Record a en)"
  unfolding Record_def by (intro keeps_rules fine_writes)

lemma fine_services:
  "keeps fine (record_update a by u v)" "keeps fine (apply_update a inp cur p)" "keeps fine (backoff_gate a i)"
  "keeps fine (lookup_user a i)" "keeps fine (penalise a i)"
  unfolding record_update_def apply_update_def backoff_gate_def lookup_user_def penalise_def
  by (intro keeps_rules fine_Record fine_writes fine_reads)+

lemma fine_fresh_login: "sys a = e \<Longrightarrow> keeps fine (fresh_login a m ip ag u)"
  unfolding fresh_login_def by (intro keeps_rules fine_reads fine_Issue)

lemmas fine_rules = fine_Record fine_services fine_writes fine_reads

lemma fine_issuing:
  assumes "sys a = e"
  shows "keeps fine (Execute_token a ti)" "keeps fine (Execute_register a ri)" "keeps fine (Execute_password_change a pin)"
  unfolding Execute_token_def passwordGrant_def refreshGrant_def Execute_register_def Execute_password_change_def Let_def
  by (intro fine_Hash_then [OF assms] keeps_rules fine_Issue [OF assms] fine_fresh_login [OF assms] fine_rules | simp)+

lemma fine_use_cases:
  assumes "sys a = e"
  shows "keeps fine (Execute_revoke a u s ip)" "keeps fine (Execute_logout_all a u ip)" "keeps fine (Execute_me a u)"
  "keeps fine (Execute_session_list a u cur)" "keeps fine (Execute_user_create a by uci)"
  "keeps fine (Execute_user_update a by uui)" "keeps fine (Execute_user_delete a by i)"
  "keeps fine (Execute_set_password a by i pw)" "keeps fine (Execute_sessions_revoke a by i)"
  "keeps fine (Execute_user_get a i)" "keeps fine (Execute_user_list a uli)"
  "keeps fine (Execute_user_sessions a i)" "keeps fine (Execute_audit_list a lap)"
  "keeps fine (Execute_role_create a by rci)" "keeps fine (Execute_role_update a by rui)"
  "keeps fine (Execute_role_delete a by nm)" "keeps fine (Execute_role_list a)"
  unfolding Execute_revoke_def Execute_logout_all_def Execute_me_def Execute_session_list_def Execute_user_create_def
    Execute_user_update_def Execute_user_delete_def Execute_set_password_def Execute_sessions_revoke_def Execute_user_get_def
    Execute_user_list_def Execute_user_sessions_def Execute_audit_list_def Execute_role_create_def Execute_role_update_def
    Execute_role_delete_def Execute_role_list_def Let_def
  by (intro fine_Hash_then [OF assms] keeps_rules fine_rules | simp)+

lemma fine_serve:
  assumes "sys a = e" "fine w" shows "fine (serve a rq w)"
proof -
  have k: "keeps fine m \<Longrightarrow> fine (snd (m w))" for m :: "('a, 'x) io"
    using assms(2) by (simp add: keeps_def)
  show ?thesis
    by (cases rq) (auto intro!: k fine_issuing fine_use_cases assms(1))
qed

subsection \<open>Jobs and the boot\<close>

lemma fine_Send: "keeps fine (Send x net cfg i ev k pl)"
  unfolding Send_def by (intro keeps_rules fine_rules)

lemma fine_jobs:
  "keeps fine (Execute_session_cleaner a)" "keeps fine (Execute_audit_cleaner a ac)" "keeps fine (Execute_outbox_cleaner a oc)"
  "keeps fine (Execute_dispatch a net wh dc)"
  unfolding Execute_session_cleaner_def Execute_audit_cleaner_def Execute_outbox_cleaner_def Execute_dispatch_def
    deliver_def record_failure_def Let_def
  by (intro keeps_rules fine_Send fine_rules)+

lemma fine_boot:
  assumes "sys a = e"
  shows "keeps fine (Execute_seed_roles a seeds)" "keeps fine (Execute_seed_super_admin a sc)"
  unfolding Execute_seed_roles_def seed_count_def seed_role_def Execute_seed_super_admin_def create_first_admin_def
  by (intro fine_Hash_then [OF assms] keeps_rules fine_rules | simp)+

lemma fine_process:
  assumes "sys a = e" "frame db schema" "\<And>n. keeps_draws n schema"
  shows "world_law (NewApp a net ac si wh dc oc schema seeds cfg) fine"
proof
  let ?c = "NewApp a net ac si wh dc oc schema seeds cfg"
  show "fine w" if "fine v" "db w = db v" "draws v \<le> draws w" for v w :: "'r world"
    using that by (simp add: fine_world_def)
  show "keeps fine (Run_bootstrap (the_app ?c) (schema_step ?c) (role_seeds ?c) (admin_seed ?c))"
    unfolding Run_bootstrap_def NewApp_def wiring.select_convs
    by (intro keeps_rules fine_boot [OF assms(1)] fine_frame assms(2,3))
  show "fine (serve (the_app ?c) rq w)" if "fine w" for w rq
    using fine_serve [OF assms(1) that] by (simp add: NewApp_def)
  show "keeps fine (job_run j)" if "j \<in> set (the_jobs ?c)" for j
    using that by (auto simp: NewApp_def cron_jobs_def done_with_def intro!: keeps_rules fine_jobs)
qed

lemma fine_run:
  assumes "sys a = e" "frame db schema" "\<And>n. keeps_draws n schema"
    and "(app_step (NewApp a net ac si wh dc oc schema seeds cfg))\<^sup>*\<^sup>* p q" "fine (outside p)"
    and "fst ` set (loops p) \<subseteq> set (the_jobs (NewApp a net ac si wh dc oc schema seeds cfg))"
  shows "fine (outside q) \<and> fst ` set (loops q) \<subseteq> set (the_jobs (NewApp a net ac si wh dc oc schema seeds cfg))"
  by (rule world_law.law_run [OF fine_process [OF assms(1-3)] assms(4-6)])

end

section \<open>Both readings of it\<close>

text \<open>A password column: an argon2id hash, in PHC format, of some password.\<close>

definition argon2_text :: "ext \<Rightarrow> string \<Rightarrow> bool" where
  "argon2_text e h \<longleftrightarrow> (\<exists>p pw salt key. h = phc p salt key \<and>
     argon2_idkey e pw salt (Iterations p) (Memory p) (Parallelism p) (KeyLength p) = Some key)"

definition hashed_token :: "ext \<Rightarrow> session_row \<Rightarrow> bool" where
  "hashed_token e s \<longleftrightarrow> (\<exists>refresh. sr_hash s = HashRefresh e refresh)"

definition stored_hashed :: "ext \<Rightarrow> db \<Rightarrow> bool" where
  "stored_hashed e d \<longleftrightarrow> (\<forall>u\<in>set (ga_users d). argon2_text e (ur_hash u)) \<and>
     (\<forall>s\<in>set (ga_sessions d). hashed_token e s)"

interpretation hashed: secret_rows e "argon2_text e" "hashed_token e" 0 for e
  by unfold_locales (auto simp: argon2_text_def hashed_token_def)

text \<open>From the \<open>N\<close>-th draw on, the random source does not yield the token again.\<close>

definition never_redrawn :: "ext \<Rightarrow> nat \<Rightarrow> string \<Rightarrow> bool" where
  "never_redrawn e N refresh \<longleftrightarrow> (\<forall>n buf. N \<le> n \<longrightarrow> rand_read e n refreshTokenBytes = Some buf \<longrightarrow>
     HashRefresh e (raw_encode True buf) \<noteq> HashRefresh e refresh)"

definition not_live :: "ext \<Rightarrow> nat \<Rightarrow> string \<Rightarrow> session_row \<Rightarrow> bool" where
  "not_live e N refresh s \<longleftrightarrow> (never_redrawn e N refresh \<and> sr_hash s = HashRefresh e refresh \<longrightarrow> sr_used s \<noteq> None)"

interpretation exchanged: secret_rows e "\<lambda>_. True" "not_live e N refresh" N for e N refresh
  by unfold_locales (auto simp: never_redrawn_def not_live_def)

text \<open>
  C9. No secret is stored in clear. From a database whose password columns are argon2id hashes and
  whose session rows hold hashes of refresh tokens, only such databases are reached for the life of a
  process: through the boot, every request and every job, in any order, under any clock and fault.
\<close>

theorem secrets_stay_hashed:
  assumes "frame db schema" "\<And>n. keeps_draws n schema" "stored_hashed (sys a) (db w)"
    and "(app_step (NewApp a net ac si wh dc oc schema seeds cfg))\<^sup>*\<^sup>* (started w) s"
  shows "stored_hashed (sys a) (db (outside s))"
proof -
  have "fine_world (argon2_text (sys a)) (hashed_token (sys a)) 0 (outside (started w))"
    using assms(3) by (simp add: fine_world_def rows_fine_def stored_hashed_def started_def)
  moreover have "fst ` set (loops (started w)) \<subseteq> set (the_jobs (NewApp a net ac si wh dc oc schema seeds cfg))"
    by (simp add: started_def)
  ultimately have "fine_world (argon2_text (sys a)) (hashed_token (sys a)) 0 (outside s)"
    using hashed.fine_run [OF refl assms(1,2,4)] by blast
  then show ?thesis by (simp add: fine_world_def rows_fine_def stored_hashed_def)
qed

text \<open>
  C1. A refresh token works once. Some time in the life of a process a refresh is answered with a new
  pair. From then on, whatever requests, jobs and further refreshes come in between and however
  the clock, the database and the caches behave, presenting the same token is refused - as long as
  the random source does not draw that very token a second time.
\<close>

theorem refresh_token_single_use:
  fixes a net ac si wh dc oc schema seeds cfg
  defines "c \<equiv> NewApp a net ac si wh dc oc schema seeds cfg"
  assumes "frame db schema" "\<And>n. keeps_draws n schema" "uuid_law (sys a)" "db_ok (db w0)"
    and "(app_step c)\<^sup>*\<^sup>* (started w0) p" "meanwhile p w"
    and "ti_grant inp = GrantRefresh" "Execute_token a inp w = (Inr out, w1)"
    and "never_redrawn (sys a) (draws w1) (ti_refresh inp)"
    and "(app_step c)\<^sup>*\<^sup>* (p\<lparr>outside := w1\<rparr>) q" "meanwhile q w2"
    and "ti_grant inp2 = GrantRefresh" "ti_refresh inp2 = ti_refresh inp" "Execute_token a inp2 w2 = (r, w3)"
  shows "\<exists>err. r = Inl err"
proof (rule ccontr)
  let ?h = "HashRefresh (sys a) (ti_refresh inp)" and ?N = "draws w1"
  have g: "goauth c" unfolding c_def by (rule goauth_NewApp [OF assms(2)])
  from tables.law_run [OF assms(6)] g assms(5,7) have ok: "db_ok (db w)" "fst ` set (loops p) \<subseteq> set (the_jobs c)"
    by (simp_all add: started_def meanwhile_def)
  from assms(9,8) obtain now v where v: "db v = db w" "refreshGrant a inp now v = (Inr out, w1)"
    by (rule Execute_refresh)
  from rotated_spent [OF refreshGrant_Inr [OF v(2) assms(4)]] v(1) ok(1) obtain s
    where s: "session_of_hash (db w1) ?h = Some s" "sr_used s \<noteq> None" by auto
  have "db_ok (db w1)" using keepsD [OF keeps_Execute_token assms(9) ok(1)] .
  from session_of_hash_mem [OF this] s have "not_live (sys a) ?N (ti_refresh inp) x" if "x \<in> set (ga_sessions (db w1))" for x
    using that unfolding not_live_def by fastforce
  then have "fine_world (\<lambda>_. True) (not_live (sys a) ?N (ti_refresh inp)) ?N w1"
    by (simp add: fine_world_def rows_fine_def)
  with exchanged.fine_run [OF refl assms(2,3) assms(11) [unfolded c_def]] ok(2)
  have "fine_world (\<lambda>_. True) (not_live (sys a) ?N (ti_refresh inp)) ?N (outside q)" by (simp add: c_def)
  then have spent: "not_live (sys a) ?N (ti_refresh inp) x" if "x \<in> set (ga_sessions (db w2))" for x
    using that assms(12) by (simp add: fine_world_def rows_fine_def meanwhile_def)
  assume "\<nexists>err. r = Inl err"
  then obtain out2 where "r = Inr out2" by (cases r) auto
  with assms(15,13) obtain now2 v2 where v2: "db v2 = db w2" "refreshGrant a inp2 now2 v2 = (Inr out2, w3)"
    by (auto elim: Execute_refresh)
  have "db_ok (db v2)" using tables.law_run [OF assms(11)] g \<open>db_ok (db w1)\<close> ok(2) v2(1) assms(12)
    by (simp add: meanwhile_def)
  from refreshGrant_Inr [OF v2(2) assms(4) this] v2(1) assms(14) obtain t n
    where "session_of_hash (db w2) ?h = Some t" "spendable ?h n t" unfolding rotated_def by auto
  then show False
    using spent [of t] assms(10) by (auto simp: not_live_def session_of_hash_def spendable_def dest!: find_Some_set)
qed

section \<open>On a concrete process\<close>

theorem secrets_stay_hashed_witness:
  "stored_hashed sample_env (db (serve sample_app (RSetPassword (sample_caller 4) (sample_uuid_text 1) ''longer'') booted)) \<and>
   map ur_hash (ga_users (db (serve sample_app (RSetPassword (sample_caller 4) (sample_uuid_text 1) ''longer'') booted)))
     \<noteq> map ur_hash (ga_users (db booted))"
proof
  obtain t where t: "(app_step sample_wiring)\<^sup>*\<^sup>* serving t"
    "outside t = serve sample_app (RSetPassword (sample_caller 4) (sample_uuid_text 1) ''longer'') booted"
    using run_request by blast
  let ?p = "\<lparr>Memory = 1, Iterations = 1, Parallelism = 1, SaltLength = 0, KeyLength = 6\<rparr>"
  have "sample_hash = phc ?p [] ''secret''" by code_simp
  then have "argon2_text sample_env sample_hash"
    unfolding argon2_text_def by (intro exI [of _ ?p] exI [of _ "''secret''"] exI [of _ "[]"] exI [of _ "''secret''"])
      (simp add: sample_env_def)
  then have st: "stored_hashed (sys sample_app) (db sample_world)"
    by (simp add: stored_hashed_def hashed_token_def sample_db_def sample_user_def HashRefresh_def) (simp add: sample_env_def)
  from secrets_stay_hashed [OF frame_ret keeps_ret st rtranclp_trans [OF run_serving t(1)]] t(2)
  show "stored_hashed sample_env (db (serve sample_app (RSetPassword (sample_caller 4) (sample_uuid_text 1) ''longer'') booted))"
    by simp
  show "map ur_hash (ga_users (db (serve sample_app (RSetPassword (sample_caller 4) (sample_uuid_text 1) ''longer'') booted)))
     \<noteq> map ur_hash (ga_users (db booted))" by code_simp
qed

abbreviation sample_exchange :: token_input where
  "sample_exchange \<equiv> sample_input GrantRefresh [] [] ''live''"

lemma live_not_redrawn: "never_redrawn sample_env N ''live''"
proof -
  have "raw_encode True (replicate refreshTokenBytes c) \<noteq> ''live''" for c
  proof
    assume "raw_encode True (replicate refreshTokenBytes c) = ''live''"
    then have "raw_decode True True ''live'' = Some (replicate refreshTokenBytes c)"
      using raw_decode_encode [of True True "replicate refreshTokenBytes c"] by simp
    moreover have "(case raw_decode True True ''live'' of None \<Rightarrow> 0 | Some b \<Rightarrow> length b) = 3" by code_simp
    ultimately show False by (simp add: refreshTokenBytes_def)
  qed
  then show ?thesis by (simp add: never_redrawn_def HashRefresh_def sample_env_def)
qed

lemma sample_exchange_booted: "succeeds (Execute_token sample_app sample_exchange) booted"
  by code_simp

text \<open>The token is exchanged, an administrator resets a password, and the token comes back.\<close>

theorem refresh_token_single_use_witness:
  "\<exists>out w1 err. Execute_token sample_app sample_exchange booted = (Inr out, w1) \<and>
     fst (Execute_token sample_app sample_exchange
       (serve sample_app (RSetPassword (sample_caller 4) (sample_uuid_text 3) ''longer'') w1)) = Inl err"
proof (rule succeedsE [OF sample_exchange_booted])
  let ?rq = "RSetPassword (sample_caller 4) (sample_uuid_text 3) ''longer''"
  fix out w1 assume e: "Execute_token sample_app sample_exchange booted = (Inr out, w1)"
  obtain q where q: "(app_step sample_wiring)\<^sup>*\<^sup>* (serving\<lparr>outside := w1\<rparr>) q" "outside q = serve sample_app ?rq w1"
    using run_request_from by blast
  obtain r w3 where r: "Execute_token sample_app sample_exchange (serve sample_app ?rq w1) = (r, w3)" by fastforce
  have "\<exists>err. r = Inl err"
    by (rule refresh_token_single_use [OF frame_ret keeps_ret _ _ run_serving _ _ e _ q(1) _ _ _ r])
      (simp_all add: sample_uuid_law sample_db_ok meanwhile_def serving_def started_def live_not_redrawn q(2) sample_input_def)
  with e r show ?thesis by auto
qed

end
