(* ===== verification/Durations.thy ===== *)
theory Durations
  imports Decimal Ratelimit
begin

text \<open>
  Durations as text: \<open>time.ParseDuration\<close> and \<open>Duration.String\<close> of Go's standard library, as far as
  a configuration file reaches them, and the rate limit rules (\<open>pkg/ratelimit/rule.go\<close>) that are
  written with them. A fraction is scaled in floating point; that one product is a parameter, of
  which only the exact cases are used.
\<close>

section \<open>Parsing\<close>

text \<open>\<open>frac f unit k\<close> is \<open>uint64(float64(f) * (float64(unit) / 1e<k>))\<close>.\<close>

type_synonym fraction = "nat \<Rightarrow> nat \<Rightarrow> nat \<Rightarrow> nat"

text \<open>Integers below \<open>2 ^ 53\<close> and their products are exact.\<close>

definition frac_exact :: "fraction \<Rightarrow> bool" where
  "frac_exact frac \<longleftrightarrow>
     (\<forall>f unit k. 10 ^ k dvd unit \<and> f * (unit div 10 ^ k) < 2 ^ 53 \<longrightarrow> frac f unit k = f * (unit div 10 ^ k))"

fun leadingInt :: "nat \<Rightarrow> string \<Rightarrow> (nat \<times> string) option" where
  "leadingInt x [] = Some (x, [])"
| "leadingInt x (c # s) =
     (if \<not> digit c then Some (x, c # s)
      else if x > 2 ^ 63 div 10 then None
      else let y = x * 10 + (byte c - 48) in if y > 2 ^ 63 then None else leadingInt y s)"

text \<open>The digits beyond what fits are read and dropped.\<close>

fun leadingFraction :: "nat \<Rightarrow> nat \<Rightarrow> bool \<Rightarrow> string \<Rightarrow> nat \<times> nat \<times> string" where
  "leadingFraction x k over [] = (x, k, [])"
| "leadingFraction x k over (c # s) =
     (if \<not> digit c then (x, k, c # s)
      else if over \<or> x > (2 ^ 63 - 1) div 10 then leadingFraction x k True s
      else let y = x * 10 + (byte c - 48) in
        if y > 2 ^ 63 then leadingFraction x k True s else leadingFraction y (k + 1) False s)"

definition micro_sign :: string where "micro_sign = [CHR 0xC2, CHR 0xB5, CHR ''s'']"
definition greek_mu :: string where "greek_mu = [CHR 0xCE, CHR 0xBC, CHR ''s'']"

definition unit_of :: "string \<Rightarrow> nat option" where
  "unit_of u =
     (if u = ''ns'' then Some 1
      else if u = ''us'' \<or> u = micro_sign \<or> u = greek_mu then Some 1000
      else if u = ''ms'' then Some 1000000
      else if u = ''s'' then Some 1000000000
      else if u = ''m'' then Some 60000000000
      else if u = ''h'' then Some 3600000000000
      else None)"

text \<open>One number with its unit, and what follows it.\<close>

definition component :: "fraction \<Rightarrow> string \<Rightarrow> (nat \<times> string) option" where
  "component frac s =
     (case leadingInt 0 s of
        None \<Rightarrow> None
      | Some (v, s1) \<Rightarrow>
          let pre = length s1 < length s;
              (f, k, s2) = (if HasPrefix s1 ''.'' then leadingFraction 0 0 False (tl s1) else (0, 0, s1));
              post = HasPrefix s1 ''.'' \<and> length s2 < length s1 - 1;
              u = takeWhile (\<lambda>c. c \<noteq> CHR ''.'' \<and> \<not> digit c) s2
          in if \<not> pre \<and> \<not> post then None
             else case unit_of u of
               None \<Rightarrow> None
             | Some unit \<Rightarrow>
                 if v > 2 ^ 63 div unit then None
                 else let w = (if f > 0 then v * unit + frac f unit k else v * unit)
                      in if w > 2 ^ 63 then None else Some (w, drop (length u) s2))"

lemma leadingInt_length: "leadingInt x s = Some (v, r) \<Longrightarrow> length r \<le> length s"
  by (induction x s arbitrary: v r rule: leadingInt.induct) (fastforce simp: Let_def split: if_splits)+

lemma leadingFraction_length: "leadingFraction x k b s = (v, j, r) \<Longrightarrow> length r \<le> length s"
  by (induction x k b s arbitrary: v j r rule: leadingFraction.induct) (fastforce simp: Let_def split: if_splits)+

lemma unit_of_nonempty: "unit_of u = Some k \<Longrightarrow> u \<noteq> []"
  by (auto simp: unit_of_def micro_sign_def greek_mu_def)

lemma component_length:
  assumes "component frac s = Some (w, r)" shows "length r < length s"
proof -
  from assms obtain v s1 where i: "leadingInt 0 s = Some (v, s1)"
    by (auto simp: component_def split: option.splits)
  define p where "p = (if HasPrefix s1 ''.'' then leadingFraction 0 0 False (tl s1) else (0, 0, s1))"
  obtain f k s2 where p: "p = (f, k, s2)" by (cases p) auto
  define u where "u = takeWhile (\<lambda>c. c \<noteq> CHR ''.'' \<and> \<not> digit c) s2"
  have s2: "length s2 \<le> length s1"
    using p leadingFraction_length [of 0 0 False "tl s1" f k s2]
    by (cases s1) (auto simp: p_def HasPrefix_def split: if_splits)
  have "unit_of u \<noteq> None" "r = drop (length u) s2"
    using assms i p unfolding component_def p_def u_def
    by (auto simp: Let_def split: option.splits if_splits)
  then have "u \<noteq> []" "length r = length s2 - length u" "length u \<le> length s2"
    using unit_of_nonempty length_takeWhile_le [of _ s2] by (auto simp: u_def)
  with s2 leadingInt_length [OF i] show ?thesis by (cases u) auto
qed

text \<open>\<open>d += v\<close> is a sum of \<open>uint64\<close>.\<close>

function components :: "fraction \<Rightarrow> nat \<Rightarrow> string \<Rightarrow> nat option" where
  "components frac d s =
     (if s = [] then Some d
      else case component frac s of
        None \<Rightarrow> None
      | Some (w, r) \<Rightarrow>
          let d' = (d + w) mod 2 ^ 64 in if d' > 2 ^ 63 then None else components frac d' r)"
  by pat_completeness auto
termination by (relation "measure (\<lambda>(_, _, s). length s)") (auto dest: component_length)

declare components.simps [simp del]

definition ParseDuration :: "fraction \<Rightarrow> string \<Rightarrow> duration option" where
  "ParseDuration frac orig =
     (let neg = HasPrefix orig ''-'';
          s = (if HasPrefix orig ''-'' \<or> HasPrefix orig ''+'' then tl orig else orig)
      in if s = ''0'' then Some 0
         else if s = [] then None
         else case components frac 0 s of
           None \<Rightarrow> None
         | Some d \<Rightarrow> if neg then Some (- int d) else if d > 2 ^ 63 - 1 then None else Some (int d))"

section \<open>Printing\<close>

text \<open>\<open>fmtFrac\<close>: the last digits of \<open>v\<close> without their trailing zeros, and the digits before them.\<close>

fun fmtFrac :: "nat \<Rightarrow> nat \<Rightarrow> string \<Rightarrow> string \<times> nat" where
  "fmtFrac 0 v acc = (if acc = [] then [] else CHR ''.'' # acc, v)"
| "fmtFrac (Suc k) v acc =
     fmtFrac k (v div 10) (if acc \<noteq> [] \<or> v mod 10 \<noteq> 0 then digit_char (v mod 10) # acc else [])"

definition with_frac :: "nat \<Rightarrow> nat \<Rightarrow> string \<Rightarrow> string" where
  "with_frac u prec unit = (case fmtFrac prec u [] of (t, q) \<Rightarrow> print_nat q @ t @ unit)"

definition print_seconds :: "nat \<Rightarrow> string" where
  "print_seconds u =
     (case fmtFrac 9 u [] of (t, q) \<Rightarrow>
        (if q div 60 > 0 then (if q div 60 div 60 > 0 then print_nat (q div 60 div 60) @ ''h'' else [])
            @ print_nat (q div 60 mod 60) @ ''m'' else [])
        @ print_nat (q mod 60) @ t @ ''s'')"

definition String_duration :: "duration \<Rightarrow> string" where
  "String_duration d =
     (let u = nat \<bar>d\<bar>
      in (if d < 0 then ''-'' else []) @
         (if u = 0 then ''0s''
          else if u < 1000 then with_frac u 0 ''ns''
          else if u < 1000000 then with_frac u 3 micro_sign
          else if u < 1000000000 then with_frac u 6 ''ms''
          else print_seconds u))"

section \<open>What is printed parses back\<close>

lemma digit_bounds: "digit c \<Longrightarrow> byte c - 48 < 10"
  by (auto simp: digit_def in_range_def)

lemma digits_foldl: "foldl (\<lambda>v c. v * 10 + (byte c - 48)) x s = x * 10 ^ length s + digits_val s"
proof (induction s arbitrary: x)
  case (Cons c s)
  show ?case using Cons [of "byte c - 48"] Cons [of "x * 10 + (byte c - 48)"]
    by (simp add: digits_val_def algebra_simps)
qed (simp add: digits_val_def)

lemma digits_val_Cons: "digits_val (c # s) = (byte c - 48) * 10 ^ length s + digits_val s"
  using digits_foldl [of "byte c - 48" s] by (simp add: digits_val_def)

lemma leadingInt_print:
  assumes "list_all digit s" "r = [] \<or> \<not> digit (hd r)" "x * 10 ^ length s + digits_val s \<le> 2 ^ 63"
  shows "leadingInt x (s @ r) = Some (x * 10 ^ length s + digits_val s, r)"
  using assms(1,3)
proof (induction s arbitrary: x)
  case Nil
  show ?case using assms(2) by (cases r) (auto simp: digits_val_def)
next
  case (Cons c s)
  let ?y = "x * 10 + (byte c - 48)"
  have v: "?y * 10 ^ length s + digits_val s = x * 10 ^ length (c # s) + digits_val (c # s)"
    by (simp add: digits_val_Cons algebra_simps)
  with Cons.prems(2) have b: "?y * 10 ^ length s + digits_val s \<le> 2 ^ 63" by simp
  have "?y \<le> ?y * 10 ^ length s" by simp
  with b have y: "?y \<le> 2 ^ 63" by linarith
  then have "x \<le> 2 ^ 63 div 10" by linarith
  with y show ?case using Cons.IH [OF _ b] Cons.prems(1) v by (simp add: Let_def)
qed

lemma leadingFraction_print:
  assumes "list_all digit s" "r = [] \<or> \<not> digit (hd r)" "(x + 1) * 10 ^ length s \<le> 10 ^ 9"
  shows "leadingFraction x k False (s @ r) = (x * 10 ^ length s + digits_val s, k + length s, r)"
  using assms(1,3)
proof (induction s arbitrary: x k)
  case Nil
  show ?case using assms(2) by (cases r) (auto simp: digits_val_def)
next
  case (Cons c s)
  let ?y = "x * 10 + (byte c - 48)"
  have v: "?y * 10 ^ length s + digits_val s = x * 10 ^ length (c # s) + digits_val (c # s)"
    by (simp add: digits_val_Cons algebra_simps)
  have "?y + 1 \<le> (x + 1) * 10" using digit_bounds [of c] Cons.prems(1) by simp
  then have "(?y + 1) * 10 ^ length s \<le> (x + 1) * 10 * 10 ^ length s" by (rule mult_right_mono) simp
  with Cons.prems(2) have b: "(?y + 1) * 10 ^ length s \<le> 10 ^ 9" by (simp add: algebra_simps)
  have "(?y + 1) * 1 \<le> (?y + 1) * 10 ^ length s" by (rule mult_left_mono) simp_all
  from order_trans [OF this b] have "?y < 10 ^ 9" by simp
  then have "x \<le> (2 ^ 63 - 1) div 10" "?y \<le> 2 ^ 63" by simp_all
  then show ?case using Cons.IH [OF _ b] Cons.prems(1) v by (simp add: Let_def)
qed

text \<open>
  After \<open>i\<close> digits of \<open>n\<close>: what is printed is the value of these digits without trailing zeros.
\<close>

definition printed :: "nat \<Rightarrow> nat \<Rightarrow> string \<Rightarrow> bool" where
  "printed n i acc \<longleftrightarrow> list_all digit acc \<and> length acc \<le> i \<and> digits_val acc * 10 ^ (i - length acc) = n mod 10 ^ i"

lemma printed_step:
  assumes "printed n i acc"
  shows "printed n (Suc i) (if acc \<noteq> [] \<or> n div 10 ^ i mod 10 \<noteq> 0 then digit_char (n div 10 ^ i mod 10) # acc else [])"
proof -
  let ?d = "n div 10 ^ i mod 10"
  have d: "digit (digit_char ?d)" "byte (digit_char ?d) = 48 + ?d" by (simp_all add: digit_char)
  have m: "n mod 10 ^ Suc i = ?d * 10 ^ i + n mod 10 ^ i"
    by (simp add: mod_mult2_eq power_Suc2 del: power_Suc)
  have p: "?d * 10 ^ length acc * 10 ^ (i - length acc) = ?d * 10 ^ i"
    using assms by (simp add: printed_def power_add [symmetric] mult.assoc)
  show ?thesis
  proof (cases "acc \<noteq> [] \<or> ?d \<noteq> 0")
    case True
    then show ?thesis
      using assms d m p by (simp add: printed_def digits_val_Cons algebra_simps)
  next
    case False
    with assms m show ?thesis by (simp add: printed_def digits_val_def)
  qed
qed

lemma fmtFrac_printed:
  "printed n i acc \<Longrightarrow> \<exists>ds. printed n (i + k) ds \<and>
     fmtFrac k (n div 10 ^ i) acc = (if ds = [] then [] else CHR ''.'' # ds, n div 10 ^ (i + k))"
proof (induction k arbitrary: i acc)
  case (Suc k)
  have "n div 10 ^ i div 10 = n div 10 ^ Suc i" by (metis div_mult2_eq power_Suc2)
  with Suc.IH [OF printed_step [OF Suc.prems]] show ?case by simp
qed auto

lemma fmtFrac_spec:
  obtains ds where "printed u k ds" "fmtFrac k u [] = (if ds = [] then [] else CHR ''.'' # ds, u div 10 ^ k)"
proof -
  have "printed u 0 []" by (simp add: printed_def digits_val_def)
  from fmtFrac_printed [OF this, of k] that show ?thesis by auto
qed

definition plain_unit :: "string \<Rightarrow> bool" where
  "plain_unit u \<longleftrightarrow> u \<noteq> [] \<and> list_all (\<lambda>c. c \<noteq> CHR ''.'' \<and> \<not> digit c) u"

lemma takeWhile_unit:
  assumes "plain_unit u" "r = [] \<or> digit (hd r)"
  shows "takeWhile (\<lambda>c. c \<noteq> CHR ''.'' \<and> \<not> digit c) (u @ r) = u"
  using assms by (cases r) (auto simp: plain_unit_def list_all_iff takeWhile_append)

text \<open>One component as it is printed.\<close>

lemma component_print:
  assumes "frac_exact frac" "printed u k ds" "k \<le> 9" "unit_of n = Some m" "ds = [] \<or> m = 10 ^ k" "plain_unit n" "r = [] \<or> digit (hd r)"
    and "v * m + u mod 10 ^ k \<le> 2 ^ 63"
  shows "component frac (print_nat v @ (if ds = [] then [] else CHR ''.'' # ds) @ n @ r) = Some (v * m + u mod 10 ^ k, r)"
proof -
  let ?t = "if ds = [] then [] else CHR ''.'' # ds"
  have dot: "\<not> digit (CHR ''.'')" by (simp add: digit_def in_range_def byte_def)
  obtain c n' where n: "n = c # n'" "\<not> digit c" "c \<noteq> CHR ''.''" using assms(6) by (cases n) (auto simp: plain_unit_def)
  have m: "0 < m" using assms(4) by (auto simp: unit_of_def split: if_splits)
  then have "v * 1 \<le> v * m" by (intro mult_left_mono) simp_all
  with assms(8) have "v \<le> 2 ^ 63" by linarith
  then have i: "leadingInt 0 (print_nat v @ ?t @ n @ r) = Some (v, ?t @ n @ r)"
    using leadingInt_print [of "print_nat v" "?t @ n @ r" 0] dot n print_nat_digits [of v]
    by (simp add: digits_val_print)
  have pre: "length (?t @ n @ r) < length (print_nat v @ ?t @ n @ r)" using print_nat_digits [of v] by simp
  define f where "f = (if ds = [] then 0 else digits_val ds)"
  have fr: "(if HasPrefix (?t @ n @ r) ''.'' then leadingFraction 0 0 False (tl (?t @ n @ r)) else (0, 0, ?t @ n @ r))
      = (f, if ds = [] then 0 else length ds, n @ r)"
  proof (cases "ds = []")
    case False
    have "(0 + 1) * 10 ^ length ds \<le> (10::nat) ^ 9"
      using assms(2,3) power_increasing [of "length ds" 9 "10::nat"] by (simp add: printed_def)
    with leadingFraction_print [of ds "n @ r" 0 0] assms(2) n False show ?thesis
      by (simp add: printed_def f_def HasPrefix_def)
  qed (use n in \<open>simp add: f_def HasPrefix_def\<close>)
  have val: "(if f > 0 then v * m + frac f m (if ds = [] then 0 else length ds) else v * m) = v * m + u mod 10 ^ k"
  proof (cases "ds = []")
    case True
    with assms(2) show ?thesis by (simp add: printed_def f_def digits_val_def)
  next
    case False
    have l: "length ds \<le> k" "digits_val ds * 10 ^ (k - length ds) = u mod 10 ^ k" using assms(2) by (simp_all add: printed_def)
    have q: "(10::nat) ^ k div 10 ^ length ds = 10 ^ (k - length ds)" by (rule power_diff [symmetric]) (use l in simp_all)
    have "u mod 10 ^ k < 10 ^ k" by simp
    also have "10 ^ k \<le> (10::nat) ^ 9" using assms(3) by (rule power_increasing) simp
    finally have "u mod 10 ^ k < 2 ^ 53" by simp
    then have "frac (digits_val ds) (10 ^ k) (length ds) = u mod 10 ^ k"
      using assms(1) l q le_imp_power_dvd [of "length ds" k 10] unfolding frac_exact_def by metis
    with l False assms(5) show ?thesis by (auto simp: f_def)
  qed
  have "v \<le> 2 ^ 63 div m" using assms(8) m by (simp add: less_eq_div_iff_mult_less_eq)
  then show ?thesis
    using assms(4,8) pre fr val takeWhile_unit [OF assms(6,7)]
    by (simp only: component_def i option.case prod.case Let_def fr) simp
qed

lemma components_Cons:
  assumes "component frac s = Some (w, r)" "s \<noteq> []" "d + w \<le> 2 ^ 63"
  shows "components frac d s = components frac (d + w) r"
  using assms by (simp add: components.simps [of frac d s])

lemma components_Nil: "components frac d [] = Some d"
  by (simp add: components.simps [of frac d "[]"])

lemma units:
  "unit_of ''ns'' = Some (10 ^ 0)" "unit_of micro_sign = Some (10 ^ 3)" "unit_of ''ms'' = Some (10 ^ 6)"
  "unit_of ''s'' = Some (10 ^ 9)" "unit_of ''m'' = Some 60000000000" "unit_of ''h'' = Some 3600000000000"
  by (simp_all add: unit_of_def micro_sign_def greek_mu_def)

lemma plain_units:
  "plain_unit ''ns''" "plain_unit micro_sign" "plain_unit ''ms''" "plain_unit ''s''" "plain_unit ''m''" "plain_unit ''h''"
  by (simp_all add: plain_unit_def micro_sign_def greek_mu_def digit_def in_range_def byte_def)

lemma digit_print: "digit (hd (print_nat v @ r))" "print_nat v @ r \<noteq> []"
  using print_nat_digits [of v] by (cases "print_nat v"; auto)+

lemma with_frac_parses:
  assumes "frac_exact frac" "unit_of n = Some (10 ^ k)" "plain_unit n" "k \<le> 9" "u \<le> 2 ^ 63"
  shows "components frac 0 (with_frac u k n) = Some u" "digit (hd (with_frac u k n))" "with_frac u k n \<noteq> []"
proof -
  obtain ds where ds: "printed u k ds" "fmtFrac k u [] = (if ds = [] then [] else CHR ''.'' # ds, u div 10 ^ k)"
    by (rule fmtFrac_spec)
  have w: "with_frac u k n = print_nat (u div 10 ^ k) @ (if ds = [] then [] else CHR ''.'' # ds) @ n"
    by (simp add: with_frac_def ds(2))
  have "u div 10 ^ k * 10 ^ k + u mod 10 ^ k = u" by (rule div_mult_mod_eq)
  with component_print [OF assms(1) ds(1) assms(4,2) _ assms(3), of "[]" "u div 10 ^ k"] assms(5)
  have c: "component frac (with_frac u k n) = Some (u, [])" unfolding w by simp
  show ne: "with_frac u k n \<noteq> []" unfolding w by (rule digit_print)
  from components_Cons [OF c ne, of 0] assms(5) show "components frac 0 (with_frac u k n) = Some u"
    by (simp add: components_Nil)
  show "digit (hd (with_frac u k n))" unfolding w by (rule digit_print)
qed

lemma component_whole:
  assumes "frac_exact frac" "unit_of n = Some m" "plain_unit n" "digit (hd r)" "v * m \<le> 2 ^ 63"
  shows "component frac (print_nat v @ n @ r) = Some (v * m, r)"
  using component_print [of frac 0 0 "[]" n m r v] assms by (simp add: printed_def digits_val_def)

lemma hms:
  assumes "u = q * 10 ^ 9 + r" "q = n * 60 + s" "n = h * 60 + m"
  shows "u = h * 3600000000000 + m * 60000000000 + (s * 10 ^ 9 + r :: nat)"
  unfolding assms by simp

lemma print_seconds_parses:
  assumes "frac_exact frac" "u \<le> 2 ^ 63"
  shows "components frac 0 (print_seconds u) = Some u" "digit (hd (print_seconds u))" "print_seconds u \<noteq> []"
proof -
  obtain ds where ds: "printed u 9 ds" "fmtFrac 9 u [] = (if ds = [] then [] else CHR ''.'' # ds, u div 10 ^ 9)"
    by (rule fmtFrac_spec)
  define q where "q = u div 10 ^ 9"
  define s where "s = print_nat (q mod 60) @ (if ds = [] then [] else CHR ''.'' # ds) @ ''s''"
  define m where "m = print_nat (q div 60 mod 60) @ ''m'' @ s"
  define h where "h = print_nat (q div 60 div 60) @ ''h'' @ m"
  have nz: "s \<noteq> []" "m \<noteq> []" "h \<noteq> []" "digit (hd s)" "digit (hd m)" "digit (hd h)"
    unfolding s_def m_def h_def by (rule digit_print)+
  have p: "print_seconds u = (if q div 60 > 0 then if q div 60 div 60 > 0 then h else m else s)"
    by (simp add: print_seconds_def ds(2) q_def h_def m_def s_def)
  define S where "S = q mod 60 * 10 ^ 9 + u mod 10 ^ 9"
  define M where "M = q div 60 mod 60 * 60000000000"
  define H where "H = q div 60 div 60 * 3600000000000"
  have "u = q * 10 ^ 9 + u mod 10 ^ 9" "q = q div 60 * 60 + q mod 60" "q div 60 = q div 60 div 60 * 60 + q div 60 mod 60"
    unfolding q_def by (rule div_mult_mod_eq [symmetric])+
  then have u: "u = H + M + S" unfolding H_def M_def S_def by (rule hms)
  have cs: "component frac s = Some (S, [])"
    using component_print [OF assms(1) ds(1) _ units(4) _ plain_units(4), of "[]" "q mod 60"] assms(2) u
    unfolding s_def S_def by simp
  have cm: "component frac m = Some (M, s)"
    unfolding m_def M_def by (rule component_whole [OF assms(1) units(5) plain_units(5) nz(4)]) (use assms(2) u in \<open>simp add: M_def\<close>)
  have ch: "component frac h = Some (H, m)"
    unfolding h_def H_def by (rule component_whole [OF assms(1) units(6) plain_units(6) nz(5)]) (use assms(2) u in \<open>simp add: H_def\<close>)
  have z: "q div 60 = 0 \<Longrightarrow> M = 0 \<and> H = 0" "q div 60 div 60 = 0 \<Longrightarrow> H = 0" by (simp_all add: M_def H_def)
  show "components frac 0 (print_seconds u) = Some u"
    using assms(2) u z unfolding p
    by (auto simp: components_Cons [OF ch nz(3)] components_Cons [OF cm nz(2)] components_Cons [OF cs nz(1)] components_Nil)
  show "digit (hd (print_seconds u))" "print_seconds u \<noteq> []" using nz by (simp_all add: p)
qed

lemma components_zero: "components frac 0 ''0'' = None"
  by (simp add: components.simps [of frac 0 "''0''"] component_def digit_def in_range_def byte_def HasPrefix_def unit_of_def
      micro_sign_def greek_mu_def)

lemma components_zero_seconds:
  assumes "frac_exact frac" shows "components frac 0 ''0s'' = Some 0"
proof -
  have "print_nat 0 = ''0''"
    using char_of_byte [of "CHR ''0''"] by (simp add: print_nat.simps digit_char_def byte_def)
  with component_print [OF assms, of 0 0 "[]" "''s''" "10 ^ 9" "[]" 0] units(4) plain_units(4)
  have "component frac ''0s'' = Some (0, [])" by (simp add: printed_def digits_val_def)
  from components_Cons [OF this, of 0] show ?thesis by (simp add: components_Nil)
qed

lemma ParseDuration_String:
  assumes "frac_exact frac" "- (2 ^ 63) \<le> d" "d < 2 ^ 63"
  shows "ParseDuration frac (String_duration d) = Some d"
proof -
  define u where "u = nat \<bar>d\<bar>"
  define t where "t = (if u < 1000 then with_frac u 0 ''ns'' else if u < 1000000 then with_frac u 3 micro_sign
    else if u < 1000000000 then with_frac u 6 ''ms'' else print_seconds u)"
  have "\<bar>d\<bar> \<le> 2 ^ 63" using assms(2,3) by (simp add: abs_le_iff)
  then have u: "u \<le> 2 ^ 63" by (simp add: u_def nat_le_iff)
  have t: "components frac 0 t = Some u" "digit (hd t)" "t \<noteq> []"
    using with_frac_parses [OF assms(1) units(1) plain_units(1) _ u] with_frac_parses [OF assms(1) units(2) plain_units(2) _ u]
      with_frac_parses [OF assms(1) units(3) plain_units(3) _ u] print_seconds_parses [OF assms(1) u]
    unfolding t_def by simp_all
  have nz: "t \<noteq> ''0''" using t(1) components_zero by auto
  have sign: "\<not> HasPrefix t ''-''" "\<not> HasPrefix t ''+''"
    using t(2,3) by (cases t; auto simp: HasPrefix_def digit_def in_range_def byte_def)+
  have d: "String_duration d = (if d < 0 then ''-'' else []) @ (if u = 0 then ''0s'' else t)"
    by (simp add: String_duration_def u_def t_def)
  show ?thesis
  proof (cases "d < 0")
    case True
    then have "String_duration d = ''-'' @ t" "u \<noteq> 0" by (simp_all add: d u_def)
    with True t nz show ?thesis by (simp add: ParseDuration_def HasPrefix_def u_def)
  next
    case False
    then have "int u = d" "u < 2 ^ 63" using assms(3) by (simp_all add: u_def)
    with False t nz sign components_zero_seconds [OF assms(1)] show ?thesis
      by (auto simp: d ParseDuration_def HasPrefix_def)
  qed
qed

section \<open>Rules\<close>

text \<open>\<open>Rule.UnmarshalText\<close> into a rule that already holds a default; \<open>None\<close> is an error.\<close>

definition UnmarshalText :: "fraction \<Rightarrow> string \<Rightarrow> rule \<Rightarrow> rule option" where
  "UnmarshalText frac text r =
     (let val = TrimSpace text in
      if val = [] then Some r
      else case Cut val ''/'' of
        None \<Rightarrow> None
      | Some (limit, window) \<Rightarrow>
          (case Atoi (TrimSpace limit) of
             None \<Rightarrow> None
           | Some n \<Rightarrow>
               if n \<le> 0 then None
               else case ParseDuration frac (TrimSpace window) of
                 None \<Rightarrow> None
               | Some d \<Rightarrow> if d \<le> 0 then None else Some \<lparr>rule_limit = n, rule_window = d\<rparr>))"

definition String_rule :: "rule \<Rightarrow> string" where
  "String_rule r = print_int (rule_limit r) @ ''/'' @ String_duration (rule_window r)"

text \<open>What is printed starts and ends without a space.\<close>

definition graphic :: "char \<Rightarrow> bool" where
  "graphic c \<longleftrightarrow> byte c < 128 \<and> \<not> is_space (byte c)"

definition untrimmed :: "string \<Rightarrow> bool" where
  "untrimmed s \<longleftrightarrow> (\<exists>p q. s = p @ q \<and> p \<noteq> [] \<and> list_all graphic p \<and> (q = [] \<or> q = micro_sign))"

lemma runes_ascii_append: "list_all (\<lambda>c. byte c < 128) p \<Longrightarrow> runes (p @ q) = map (\<lambda>c. (byte c, [c])) p @ runes q"
  by (induction p) (simp_all add: runes_Cons width_def decode_bytes_ascii)

lemma runes_micro: "runes micro_sign = [(181, [CHR 0xC2, CHR 0xB5]), (115, ''s'')]"
  by code_simp

lemma TrimSpace_runes:
  assumes "s \<noteq> []" "\<not> is_space (fst (hd (runes s)))" "\<not> is_space (fst (last (runes s)))"
  shows "TrimSpace s = s"
proof -
  have "runes s \<noteq> []" using assms(1) by (cases s) (simp_all add: runes_Cons)
  then have "dropWhile (is_space \<circ> fst) (runes s) = runes s" using assms(2) by (cases "runes s") auto
  with assms(3) show ?thesis by (simp add: TrimSpace_def dropWhile_end_id runes_concat)
qed

lemma TrimSpace_untrimmed:
  assumes "untrimmed s" shows "TrimSpace s = s"
proof -
  obtain p q where s: "s = p @ q" "p \<noteq> []" "list_all graphic p" "q = [] \<or> q = micro_sign"
    using assms by (auto simp: untrimmed_def)
  then have r: "runes s = map (\<lambda>c. (byte c, [c])) p @ runes q"
    using runes_ascii_append [of p q] by (auto simp: graphic_def list_all_iff)
  have "\<not> is_space (byte (hd p))" "\<not> is_space (byte (last p))" using s(2,3) by (auto simp: graphic_def list_all_iff)
  moreover have "\<not> is_space 115" by (simp add: is_space_def in_range_def)
  moreover have "fst (hd (runes s)) = byte (hd p)" "fst (last (runes s)) = (if q = [] then byte (last p) else 115)"
    using s(2,4) unfolding r by (auto simp: hd_map last_map runes_micro)
  ultimately show ?thesis
    using s(1,2) by (intro TrimSpace_runes) simp_all
qed

lemma untrimmed_append: "untrimmed s \<Longrightarrow> list_all graphic p \<Longrightarrow> untrimmed (p @ s)"
  unfolding untrimmed_def by (metis Nil_is_append_conv append.assoc list_all_append)

lemma graphic_digits: "list_all digit s \<Longrightarrow> list_all graphic s"
  using digit_not_space by (auto simp: graphic_def list_all_iff)

lemma graphic_letters: "graphic (CHR ''n'')" "graphic (CHR ''s'')" "graphic (CHR ''m'')" "graphic (CHR ''h'')" "graphic (CHR ''.'')"
  "graphic (CHR ''/'')"
  by (simp_all add: graphic_def byte_def is_space_def in_range_def)

lemma graphic_print: "list_all graphic (print_nat n)"
  using print_nat_digits graphic_digits by blast

lemma graphic_frac:
  assumes "fmtFrac k u [] = (t, q)" shows "list_all graphic t"
proof -
  obtain ds where "printed u k ds" "fmtFrac k u [] = (if ds = [] then [] else CHR ''.'' # ds, u div 10 ^ k)"
    by (rule fmtFrac_spec)
  with assms graphic_digits [of ds] show ?thesis by (auto simp: printed_def graphic_letters split: if_splits)
qed

lemma untrimmed_graphic: "list_all graphic s \<Longrightarrow> s \<noteq> [] \<Longrightarrow> untrimmed s"
  unfolding untrimmed_def by (intro exI [of _ s] exI [of _ "[]"]) simp

lemma untrimmed_duration:
  assumes "0 < d" shows "untrimmed (String_duration d)"
proof -
  have f: "untrimmed (with_frac u k n)" if "list_all graphic n \<or> n = micro_sign" for u k n
  proof -
    obtain t q where t: "fmtFrac k u [] = (t, q)" by fastforce
    have p: "list_all graphic (print_nat q @ t)" "print_nat q @ t \<noteq> []"
      using graphic_print graphic_frac [OF t] print_nat_digits by auto
    show ?thesis
    proof (cases "n = micro_sign")
      case True
      with p t show ?thesis
        unfolding untrimmed_def by (intro exI [of _ "print_nat q @ t"] exI [of _ n]) (simp add: with_frac_def)
    next
      case False
      with p t that show ?thesis by (intro untrimmed_graphic) (auto simp: with_frac_def)
    qed
  qed
  have "untrimmed (print_seconds u)" for u
  proof -
    obtain t q where t: "fmtFrac 9 u [] = (t, q)" by fastforce
    then show ?thesis
      using graphic_frac [OF t] by (intro untrimmed_graphic) (simp_all add: print_seconds_def graphic_print graphic_letters)
  qed
  with f assms show ?thesis
    by (simp add: String_duration_def Let_def graphic_letters)
qed

lemma Cut_slash: "CHR ''/'' \<notin> set a \<Longrightarrow> Cut (a @ CHR ''/'' # b) ''/'' = Some (a, b)"
  by (induction a) (auto simp: HasPrefix_def)

text \<open>
  C32. A rule that is printed parses back. Reading the text of an enforced rule - as the service logs
  it, or as an operator copies it into the configuration - gives that rule, whatever default was
  there before, for every count and window of Go's \<open>int\<close> and \<open>Duration\<close>.
\<close>

theorem rule_roundtrip:
  assumes "frac_exact frac" "Enabled r" "rule_limit r < 2 ^ 63" "rule_window r < 2 ^ 63"
  shows "UnmarshalText frac (String_rule r) r0 = Some r"
proof -
  define n where "n = nat (rule_limit r)"
  have n: "rule_limit r = int n" "0 < n" "n < 2 ^ 63" using assms(2,3) by (simp_all add: n_def Enabled_def)
  define w where "w = String_duration (rule_window r)"
  have w: "untrimmed w" "ParseDuration frac w = Some (rule_window r)" "0 < rule_window r"
    using assms untrimmed_duration ParseDuration_String [OF assms(1), of "rule_window r"] by (simp_all add: w_def Enabled_def)
  have s: "String_rule r = print_nat n @ CHR ''/'' # w" by (simp add: String_rule_def w_def n print_int_def)
  have "untrimmed (print_nat n)" "untrimmed (String_rule r)"
    using w(1) untrimmed_append [of w "print_nat n @ ''/''"] print_nat_digits
    by (simp_all add: s untrimmed_graphic graphic_print graphic_letters)
  moreover have "CHR ''/'' \<notin> set (print_nat n)"
    using print_nat_digits [of n] by (auto simp: list_all_iff digit_def in_range_def byte_def)
  ultimately show ?thesis
    using w n by (simp add: UnmarshalText_def TrimSpace_untrimmed s Cut_slash Atoi_print)
qed

text \<open>
  No text switches a limit off. Whatever the configuration says, a rule that started as an
  enforced default is still enforced after reading it: a blank text leaves the default, and a count
  or a window of zero is refused.
\<close>

theorem configured_rule_enforced:
  assumes "UnmarshalText frac text r0 = Some r" "Enabled r0"
  shows "Enabled r"
  using assms by (auto simp: UnmarshalText_def Enabled_def Let_def split: if_splits option.splits)

theorem configured_rule_enforced_witness:
  "Enabled (the (UnmarshalText (\<lambda>f unit k. 0) ''5/1h'' \<lparr>rule_limit = 100, rule_window = 15 * Minute\<rparr>))"
proof -
  let ?r0 = "\<lparr>rule_limit = 100, rule_window = 15 * Minute\<rparr>"
  have d: "digit (CHR ''5'')" "digit (CHR ''1'')" "\<not> digit (CHR ''h'')" by (simp_all add: digit_def in_range_def byte_def)
  have "untrimmed ''5/1h''" "untrimmed ''5''" "untrimmed ''1h''"
    using graphic_digits [of "''5''"] graphic_digits [of "''1''"] d by (simp_all add: untrimmed_graphic graphic_letters)
  moreover have "ParseDuration (\<lambda>f unit k. 0) ''1h'' = Some Hour"
    using d by (simp add: ParseDuration_def HasPrefix_def components.simps component_def unit_of_def micro_sign_def greek_mu_def
        byte_def Hour_def Minute_def Second_def)
  moreover have "Cut ''5/1h'' ''/'' = Some (''5'', ''1h'')" by (simp add: HasPrefix_def)
  moreover have "Atoi ''5'' = Some 5" using d by (simp add: Atoi_def HasPrefix_def digits_val_def byte_def)
  ultimately have u: "UnmarshalText (\<lambda>f unit k. 0) ''5/1h'' ?r0 = Some \<lparr>rule_limit = 5, rule_window = Hour\<rparr>"
    by (simp add: UnmarshalText_def TrimSpace_untrimmed Hour_def Minute_def Second_def)
  show ?thesis
    using configured_rule_enforced [OF u] u by (simp add: Enabled_def Minute_def Second_def)
qed

definition exact_fraction :: fraction where
  "exact_fraction f unit k = f * (unit div 10 ^ k)"

theorem rule_roundtrip_witness:
  "UnmarshalText exact_fraction (String_rule \<lparr>rule_limit = 10, rule_window = 61500000000\<rparr>) \<lparr>rule_limit = 1, rule_window = 1\<rparr>
     = Some \<lparr>rule_limit = 10, rule_window = 61500000000\<rparr>"
  by (rule rule_roundtrip) (simp_all add: frac_exact_def exact_fraction_def Enabled_def)

end
