(* ===== verification/Appconfig.thy ===== *)
theory Appconfig
  imports Durations "HOL-Library.Char_ord" "HOL-Library.List_Lexorder"
begin

text \<open>
  \<open>pkg/appconfig\<close>: the configuration file and its sections. A raw message is the JSON value it holds;
  \<open>encoding/json\<close>'s parser is a parameter, and so is its decoder, which \<open>Settings\<close> supplies; a struct type is what
  \<open>reflect\<close> shows of it. The rewriting of durations goes from path to path in the order of a Go map,
  which is any order.
\<close>

section \<open>JSON values and struct types\<close>

datatype json =
    JNull | JBool bool | JNumber string | JString string | JArray "json list" | JObject "(string \<times> json) list"

datatype gotype = GDuration | GPointer gotype | GStruct "gofield list" | GOther
  and gofield = Field (exported: bool) (name_of: string) (json_tag: string) (anonymous: bool) (type_of: gotype)

text \<open>A key that is given twice holds its last value.\<close>

definition member :: "string \<Rightarrow> (string \<times> json) list \<Rightarrow> json option" where
  "member k kvs = map_of (rev kvs) k"

text \<open>\<open>json.Marshal\<close> of a map: each key once, in order.\<close>

definition marshal :: "(string \<times> json) list \<Rightarrow> (string \<times> json) list" where
  "marshal kvs = map (\<lambda>k. (k, the (member k kvs))) (sort (remdups (map fst kvs)))"

definition put_member :: "string \<Rightarrow> json \<Rightarrow> (string \<times> json) list \<Rightarrow> (string \<times> json) list" where
  "put_member k v kvs = map (\<lambda>(k', x). (k', if k' = k then v else x)) kvs"

section \<open>The keys that hold a duration\<close>

definition struct_of :: "gotype \<Rightarrow> gofield list option" where
  "struct_of t = (case t of GStruct fs \<Rightarrow> Some fs | GPointer (GStruct fs) \<Rightarrow> Some fs | _ \<Rightarrow> None)"

definition tag_name :: "gofield \<Rightarrow> string" where
  "tag_name f = takeWhile (\<lambda>c. c \<noteq> CHR '','') (json_tag f)"

lemma struct_of_size: "struct_of t = Some fs \<Longrightarrow> f \<in> set fs \<Longrightarrow> size (type_of f) < size t"
  by (auto simp: struct_of_def split: gotype.splits) (cases f; fastforce dest: size_list_estimation' [where f = size])+

function durationKeys :: "gotype \<Rightarrow> string list" where
  "durationKeys t =
     (case struct_of t of
        None \<Rightarrow> []
      | Some fs \<Rightarrow> concat (map (\<lambda>f.
          if \<not> exported f then []
          else if tag_name f = [] \<and> anonymous f then durationKeys (type_of f)
          else if tag_name f = ''-'' then []
          else let name = (if tag_name f = [] then name_of f else tag_name f) in
            if type_of f = GDuration \<or> type_of f = GPointer GDuration then [name]
            else map (\<lambda>k. name @ ''.'' @ k) (if struct_of (type_of f) = None then [] else durationKeys (type_of f))) fs))"
  by pat_completeness auto
termination by (relation "measure size") (auto dest: struct_of_size)

declare durationKeys.simps [simp del]

section \<open>Rewriting durations\<close>

definition rewriteDuration :: "fraction \<Rightarrow> json \<Rightarrow> json option" where
  "rewriteDuration frac v =
     (case v of
        JString text \<Rightarrow> (case ParseDuration frac text of None \<Rightarrow> None | Some d \<Rightarrow> Some (JNumber (print_int d)))
      | _ \<Rightarrow> Some v)"

fun normalizePath :: "fraction \<Rightarrow> json \<Rightarrow> string list \<Rightarrow> json option" where
  "normalizePath frac v [] = rewriteDuration frac v"
| "normalizePath frac v (seg # segs) =
     (case v of
        JObject obj \<Rightarrow>
          (case member seg obj of
             None \<Rightarrow> Some v
           | Some child \<Rightarrow>
               (case normalizePath frac child segs of
                  None \<Rightarrow> None
                | Some replaced \<Rightarrow> if replaced = child then Some v else Some (JObject (marshal (put_member seg replaced obj)))))
      | _ \<Rightarrow> Some v)"

text \<open>The error names the last key of the path.\<close>

fun normalizeDurations :: "fraction \<Rightarrow> string list \<Rightarrow> json \<Rightarrow> string + json" where
  "normalizeDurations frac [] raw = Inr raw"
| "normalizeDurations frac (path # paths) raw =
     (case normalizePath frac raw (Split (CHR ''.'') path) of
        None \<Rightarrow> Inl (last (Split (CHR ''.'') path))
      | Some raw' \<Rightarrow> normalizeDurations frac paths raw')"

section \<open>The file\<close>

record config =
  Env :: string
  sections :: "(string \<times> json) list"

text \<open>
  \<open>Load\<close>, over what reading the file and decoding it gave: the text of \<open>env\<close> and the members of the
  top-level object.
\<close>

datatype config_error = ReadConfig string | ParseConfig string | SectionError string string

definition Load :: "string \<Rightarrow> string option \<Rightarrow> (string \<Rightarrow> (string \<times> (string \<times> json) list) option) \<Rightarrow> config_error + config" where
  "Load path file decode =
     (case file of
        None \<Rightarrow> Inl (ReadConfig path)
      | Some raw \<Rightarrow>
          (case decode raw of
             None \<Rightarrow> Inl (ParseConfig path)
           | Some (env, members) \<Rightarrow>
               Inr \<lparr>Env = (if env = [] then ''development'' else env), sections = filter (\<lambda>(k, _). k \<noteq> ''env'') members\<rparr>))"

text \<open>\<open>Section\<close> into \<open>dst\<close> of type \<open>t\<close>; \<open>unmarshal\<close> is \<open>json.Unmarshal\<close> over the defaults in \<open>dst\<close>.\<close>

definition Section ::
  "fraction \<Rightarrow> string list \<Rightarrow> (json \<Rightarrow> 'c \<Rightarrow> string + 'c) \<Rightarrow> config \<Rightarrow> string \<Rightarrow> 'c \<Rightarrow> config_error + 'c" where
  "Section frac order unmarshal c name dst =
     (case member name (sections c) of
        None \<Rightarrow> Inr dst
      | Some raw \<Rightarrow>
          (case normalizeDurations frac order raw of
             Inl e \<Rightarrow> Inl (SectionError name e)
           | Inr raw' \<Rightarrow> (case unmarshal raw' dst of Inl e \<Rightarrow> Inl (SectionError name e) | Inr v \<Rightarrow> Inr v)))"

section \<open>One pass over the value\<close>

text \<open>
  What the loop over the paths amounts to: each text that stands at a duration key is replaced, and an
  object in which something was replaced is marshalled.
\<close>

lemma json_member_size [termination_simp]: "(k, v) \<in> set kvs \<Longrightarrow> size v < Suc (size_list (size_prod (\<lambda>x. 0) size) kvs)"
  by (induction kvs) auto

function rewrite :: "fraction \<Rightarrow> (string list \<Rightarrow> bool) \<Rightarrow> json \<Rightarrow> json option" where
  "rewrite frac P (JObject kvs) =
     map_option (\<lambda>vs. JObject (if vs = kvs then kvs else marshal vs))
       (those (map (\<lambda>(k, v). map_option (Pair k) (rewrite frac (\<lambda>q. P (k # q)) v)) kvs))"
| "rewrite frac P (JString s) = (if P [] then rewriteDuration frac (JString s) else Some (JString s))"
| "rewrite frac P JNull = Some JNull"
| "rewrite frac P (JBool b) = Some (JBool b)"
| "rewrite frac P (JNumber n) = Some (JNumber n)"
| "rewrite frac P (JArray js) = Some (JArray js)"
  by pat_completeness auto
termination by (relation "measure (\<lambda>(_, _, v). size v)") (auto simp: termination_simp)

text \<open>No object gives a key twice.\<close>

function unique_keys :: "json \<Rightarrow> bool" where
  "unique_keys (JObject kvs) \<longleftrightarrow> distinct (map fst kvs) \<and> list_all (\<lambda>(k, v). unique_keys v) kvs"
| "unique_keys (JString s) \<longleftrightarrow> True"
| "unique_keys JNull \<longleftrightarrow> True"
| "unique_keys (JBool b) \<longleftrightarrow> True"
| "unique_keys (JNumber n) \<longleftrightarrow> True"
| "unique_keys (JArray js) \<longleftrightarrow> True"
  by pat_completeness auto
termination by (relation "measure size") (auto simp: termination_simp)

lemma those_None: "None \<in> set xs \<Longrightarrow> those xs = None"
  by (induction xs) (auto split: option.split)

lemma those_Pair: "(\<And>k v. (k, v) \<in> set kvs \<Longrightarrow> f k v = Some v) \<Longrightarrow> those (map (\<lambda>(k, v). map_option (Pair k) (f k v)) kvs) = Some kvs"
  by (induction kvs) auto

lemma rewrite_nothing: "rewrite frac (\<lambda>_. False) j = Some j"
proof (induction j rule: unique_keys.induct)
  case (1 kvs)
  have "those (map (\<lambda>(k, v). map_option (Pair k) (rewrite frac (\<lambda>q. False) v)) kvs) = Some kvs"
    by (rule those_Pair) (use 1 in auto)
  then show ?case by simp
qed auto

lemma member_unique: "distinct (map fst kvs) \<Longrightarrow> member k kvs = Some v \<longleftrightarrow> (k, v) \<in> set kvs"
  by (simp add: member_def rev_map [symmetric])

lemma member_None: "member k kvs = None \<longleftrightarrow> k \<notin> fst ` set kvs"
  by (simp add: member_def map_of_eq_None_iff)

lemma keys_put: "map fst (put_member k v kvs) = map fst kvs"
  by (simp add: put_member_def comp_def case_prod_beta)

lemma set_put: "(k', x) \<in> set (put_member k v kvs) \<Longrightarrow> (k' = k \<and> x = v) \<or> (k', x) \<in> set kvs"
  by (auto simp: put_member_def split: if_splits)

section \<open>What marshalling a map does\<close>

lemma member_exists: "member k kvs = Some v \<Longrightarrow> (k, v) \<in> set kvs"
  by (auto simp: member_def dest: map_of_SomeD)

lemma keys_marshal: "map fst (marshal kvs) = sort (remdups (map fst kvs))"
  by (simp add: marshal_def comp_def)

lemma distinct_marshal [simp]: "distinct (map fst (marshal kvs))"
  by (simp add: keys_marshal)

lemma set_marshal_sub: "set (marshal kvs) \<subseteq> set kvs"
  using member_None by (fastforce simp: marshal_def dest: member_exists)

lemma set_marshal: "distinct (map fst kvs) \<Longrightarrow> set (marshal kvs) = set kvs"
proof
  assume d: "distinct (map fst kvs)"
  show "set kvs \<subseteq> set (marshal kvs)"
  proof (intro subsetI, clarify)
    fix k v assume "(k, v) \<in> set kvs"
    with d have "member k kvs = Some v" "k \<in> fst ` set kvs" by (auto simp: member_unique rev_image_eqI)
    then show "(k, v) \<in> set (marshal kvs)" by (auto simp: marshal_def intro!: image_eqI [of _ _ k])
  qed
qed (rule set_marshal_sub)

lemma sum_marshal:
  fixes h :: "_ \<Rightarrow> nat"
  assumes "distinct (map fst kvs)"
  shows "sum_list (map h (marshal kvs)) = sum_list (map h kvs)"
  using assms set_marshal [OF assms] distinct_marshal [of kvs]
  by (simp add: sum_list_distinct_conv_sum_set distinct_map)

lemma marshal_map:
  assumes "distinct (map fst kvs)"
  shows "marshal (map (\<lambda>(k, v). (k, g k v)) kvs) = map (\<lambda>(k, v). (k, g k v)) (marshal kvs)"
proof -
  have keys: "map fst (map (\<lambda>(k, v). (k, g k v)) kvs) = map fst kvs" by (simp add: comp_def case_prod_beta)
  have "the (member k (map (\<lambda>(k, v). (k, g k v)) kvs)) = g k (the (member k kvs))" if "k \<in> set (map fst kvs)" for k
  proof -
    from that obtain v where v: "(k, v) \<in> set kvs" by auto
    then have "(k, g k v) \<in> set (map (\<lambda>(k, v). (k, g k v)) kvs)" by force
    then have "member k (map (\<lambda>(k, v). (k, g k v)) kvs) = Some (g k v)" using assms by (simp only: member_unique keys)
    moreover have "member k kvs = Some v" using assms v by (simp add: member_unique)
    ultimately show ?thesis by simp
  qed
  then show ?thesis unfolding marshal_def keys by (simp add: comp_def)
qed

lemma marshal_idem: "marshal (marshal kvs) = marshal kvs"
proof -
  have "member k (marshal kvs) = member k kvs" if "k \<in> set (map fst kvs)" for k
  proof -
    from that obtain v where "member k kvs = Some v" by (cases "member k kvs") (auto simp: member_None)
    then have "(k, v) \<in> set (marshal kvs)" using that by (auto simp: marshal_def intro!: image_eqI [of _ _ k])
    with \<open>member k kvs = _\<close> show ?thesis by (simp add: member_unique)
  qed
  moreover have "sort (remdups (map fst (marshal kvs))) = sort (remdups (map fst kvs))"
    by (simp add: keys_marshal sorted_sort_id distinct_remdups_id)
  ultimately show ?thesis unfolding marshal_def [of "marshal kvs"] by (simp add: marshal_def)
qed

lemma those_marshal:
  assumes "distinct (map fst kvs)"
  shows "those (map (\<lambda>(k, v). map_option (Pair k) (f k v)) (marshal kvs))
    = map_option marshal (those (map (\<lambda>(k, v). map_option (Pair k) (f k v)) kvs))"
proof (cases "\<exists>(k, v)\<in>set kvs. f k v = None")
  case True
  then obtain k v where kv: "(k, v) \<in> set kvs" "f k v = None" by blast
  have none: "those (map (\<lambda>(k, v). map_option (Pair k) (f k v)) xs) = None" if "(k, v) \<in> set xs" for xs
  proof (rule those_None)
    show "None \<in> set (map (\<lambda>(k, v). map_option (Pair k) (f k v)) xs)" unfolding set_map using that kv(2) by (rule_tac image_eqI [of _ _ "(k, v)"]) auto
  qed
  show ?thesis using none [of kvs] none [of "marshal kvs"] kv(1) set_marshal [OF assms] by simp
next
  case False
  let ?g = "\<lambda>k v. the (f k v)"
  have all: "those (map (\<lambda>(k, v). map_option (Pair k) (f k v)) xs) = Some (map (\<lambda>(k, v). (k, ?g k v)) xs)"
    if "set xs \<subseteq> set kvs" for xs
    using that
  proof (induction xs)
    case (Cons x xs)
    obtain k v where x: "x = (k, v)" by fastforce
    with False Cons.prems obtain y where "f k v = Some y" by fastforce
    with Cons x show ?case by simp
  qed simp
  show ?thesis using all [of kvs] all [of "marshal kvs"] set_marshal [OF assms] marshal_map [OF assms, of ?g] by simp
qed

text \<open>Rewriting only takes texts away.\<close>

function texts :: "json \<Rightarrow> nat" where
  "texts (JObject kvs) = sum_list (map (\<lambda>(k, v). texts v) kvs)"
| "texts (JString s) = 1"
| "texts JNull = 0"
| "texts (JBool b) = 0"
| "texts (JNumber n) = 0"
| "texts (JArray js) = 0"
  by pat_completeness auto
termination by (relation "measure size") (auto simp: termination_simp)

lemma texts_marshal: "distinct (map fst kvs) \<Longrightarrow> texts (JObject (marshal kvs)) = texts (JObject kvs)"
  by (simp add: sum_marshal)

lemma texts_put:
  "distinct (map fst obj) \<Longrightarrow> (k, child) \<in> set obj \<Longrightarrow> texts (JObject (put_member k v obj)) + texts child = texts (JObject obj) + texts v"
proof (induction obj)
  case (Cons x obj)
  show ?case
  proof (cases "x = (k, child)")
    case True
    with Cons.prems have "put_member k v obj = obj" unfolding put_member_def by (intro map_idI) (auto simp: rev_image_eqI)
    with True show ?thesis by (simp add: put_member_def)
  next
    case False
    with Cons.prems have "fst x \<noteq> k" "(k, child) \<in> set obj" by (auto simp: rev_image_eqI)
    with Cons show ?thesis by (cases x) (simp add: put_member_def)
  qed
qed simp

lemma normalizePath_unique: "normalizePath frac j p = Some j' \<Longrightarrow> unique_keys j \<Longrightarrow> unique_keys j'"
proof (induction frac j p arbitrary: j' rule: normalizePath.induct)
  case (1 frac v)
  then show ?case by (auto simp: rewriteDuration_def split: json.splits option.splits)
next
  case (2 frac v seg segs)
  show ?case
  proof (cases v)
    case (JObject obj)
    show ?thesis
    proof (cases "member seg obj")
      case (Some child)
      with 2(2) JObject obtain c where c: "normalizePath frac child segs = Some c"
        "j' = v \<or> j' = JObject (marshal (put_member seg c obj))" by (auto split: option.splits if_splits)
      from 2(3) JObject member_exists [OF Some] have u: "unique_keys child" by (auto simp: list_all_iff)
      from 2(1) [OF JObject Some c(1) u] have "unique_keys x" if "(k, x) \<in> set (put_member seg c obj)" for k x
        using set_put [OF that] 2(3) JObject by (auto simp: list_all_iff)
      then have "unique_keys (JObject (marshal (put_member seg c obj)))"
        using set_marshal_sub [of "put_member seg c obj"] by (auto simp: list_all_iff)
      with c(2) 2(3) show ?thesis by blast
    qed (use 2 JObject in auto)
  qed (use 2 in auto)
qed

lemma normalizePath_texts: "normalizePath frac j p = Some j' \<Longrightarrow> unique_keys j \<Longrightarrow> j' = j \<or> texts j' < texts j"
proof (induction frac j p arbitrary: j' rule: normalizePath.induct)
  case (1 frac v)
  then show ?case by (auto simp: rewriteDuration_def split: json.splits option.splits)
next
  case (2 frac v seg segs)
  show ?case
  proof (cases v)
    case (JObject obj)
    show ?thesis
    proof (cases "member seg obj")
      case (Some child)
      with 2(2) JObject obtain c where c: "normalizePath frac child segs = Some c"
        "j' = v \<or> c \<noteq> child \<and> j' = JObject (marshal (put_member seg c obj))" by (auto split: option.splits if_splits)
      from 2(3) JObject member_exists [OF Some] have u: "unique_keys child" and d: "distinct (map fst obj)" by (auto simp: list_all_iff)
      from 2(1) [OF JObject Some c(1) u] c(2) texts_put [OF d member_exists [OF Some], of c]
        texts_marshal [of "put_member seg c obj"] d JObject show ?thesis by (auto simp: keys_put simp del: texts.simps)
    qed (use 2 JObject in auto)
  qed (use 2 in auto)
qed

lemma those_map_texts:
  assumes "those (map (\<lambda>(k, v). map_option (Pair k) (f k v)) kvs) = Some vs"
    and "\<And>k v v'. (k, v) \<in> set kvs \<Longrightarrow> f k v = Some v' \<Longrightarrow> texts v' \<le> texts v"
  shows "map fst vs = map fst kvs \<and> texts (JObject vs) \<le> texts (JObject kvs)"
  using assms
proof (induction kvs arbitrary: vs)
  case (Cons x kvs)
  obtain k v where x: "x = (k, v)" by fastforce
  with Cons.prems(1) obtain v' ws where "f k v = Some v'" "those (map (\<lambda>(k, v). map_option (Pair k) (f k v)) kvs) = Some ws" "vs = (k, v') # ws"
    by (auto split: option.splits)
  with Cons.IH [of ws] Cons.prems(2) x show ?case by (auto intro: add_mono)
qed simp

lemma rewrite_texts: "rewrite frac P j = Some j' \<Longrightarrow> unique_keys j \<Longrightarrow> texts j' \<le> texts j"
proof (induction frac P j arbitrary: j' rule: rewrite.induct)
  case (1 frac P kvs)
  then obtain vs where vs: "those (map (\<lambda>(k, v). map_option (Pair k) (rewrite frac (\<lambda>q. P (k # q)) v)) kvs) = Some vs"
    "j' = JObject (if vs = kvs then kvs else marshal vs)" by auto
  from 1 have "texts v' \<le> texts v" if "(k, v) \<in> set kvs" "rewrite frac (\<lambda>q. P (k # q)) v = Some v'" for k v v'
    using that by (auto simp: list_all_iff)
  from those_map_texts [OF vs(1) this] vs(2) texts_marshal [of vs] 1(3) show ?case by (auto simp del: texts.simps)
next
  case (2 frac P s)
  then show ?case by (auto simp: rewriteDuration_def split: if_splits option.splits)
qed auto

text \<open>One turn of the loop moves one path from the loop into the pass.\<close>

lemma rewrite_step:
  "unique_keys j \<Longrightarrow> Option.bind (normalizePath frac j p) (rewrite frac P) = rewrite frac (\<lambda>q. q = p \<or> P q) j"
proof (induction frac j p arbitrary: P rule: normalizePath.induct)
  case (1 frac v)
  show ?case
    by (cases v) (auto simp: rewriteDuration_def split: option.split)
next
  case (2 frac v seg segs)
  show ?case
  proof (cases v)
    case (JObject obj)
    let ?f = "\<lambda>P (k, v). map_option (Pair k) (rewrite frac (\<lambda>q. P (k # q)) v)"
    let ?P = "\<lambda>q. q = seg # segs \<or> P q"
    have d: "distinct (map fst obj)" using 2 JObject by simp
    have other: "?f ?P (k, x) = ?f P (k, x)" if "k \<noteq> seg" for k x using that by simp
    show ?thesis
    proof (cases "member seg obj")
      case None
      then have "k \<noteq> seg" if "(k, x) \<in> set obj" for k x using that by (auto simp: member_None rev_image_eqI)
      with other have "map (?f ?P) obj = map (?f P) obj" by (intro map_cong) fastforce+
      then have "rewrite frac P v = rewrite frac ?P v" unfolding JObject rewrite.simps by (simp only:)
      with None JObject show ?thesis by (simp del: rewrite.simps)
    next
      case (Some child)
      then have mem: "(seg, child) \<in> set obj" by (rule member_exists)
      then have u: "unique_keys child" using 2 JObject by (auto simp: list_all_iff)
      with 2(1) [OF JObject Some] have ih: "Option.bind (normalizePath frac child segs) (rewrite frac (\<lambda>q. P (seg # q)))
          = rewrite frac (\<lambda>q. ?P (seg # q)) child"
        by simp
      show ?thesis
      proof (cases "normalizePath frac child segs")
        case None
        with ih have "?f ?P (seg, child) = None" by simp
        then have "None \<in> set (map (?f ?P) obj)" using mem by force
        with those_None have "those (map (?f ?P) obj) = None" by blast
        with None Some JObject show ?thesis by simp
      next
        case c: (Some c)
        let ?U = "put_member seg c obj"
        have "map (?f P) ?U = map (?f ?P) obj"
        proof -
          have "?f P (k, if k = seg then c else x) = ?f ?P (k, x)" if "(k, x) \<in> set obj" for k x
            using that ih c other [of k x] eq_key_imp_eq_value [OF d mem, of x] by (cases "k = seg") auto
          then show ?thesis unfolding put_member_def by auto
        qed
        then have same: "those (map (?f P) ?U) = those (map (?f ?P) obj)" by simp
        show ?thesis
        proof (cases "c = child")
          case True
          then have "?U = obj" using d mem unfolding put_member_def by (intro map_idI) (auto dest: eq_key_imp_eq_value)
          with same True c Some JObject show ?thesis by simp
        next
          case False
          have n: "normalizePath frac (JObject obj) (seg # segs) = Some (JObject (marshal ?U))" using False c Some by simp
          have du: "distinct (map fst ?U)" using d by (simp add: keys_put)
          have l: "rewrite frac P (JObject (marshal ?U)) =
              map_option (\<lambda>vs. JObject (if vs = marshal ?U then marshal ?U else marshal vs)) (map_option marshal (those (map (?f ?P) obj)))"
            unfolding rewrite.simps those_marshal [OF du] same ..
          have r: "vs \<noteq> obj" if vs: "those (map (?f ?P) obj) = Some vs" for vs
          proof
            assume "vs = obj"
            then have "?f ?P (seg, child) = Some (seg, child)"
              using vs mem by (induction obj arbitrary: vs) (auto split: option.splits)
            with ih c have "rewrite frac (\<lambda>q. P (seg # q)) c = Some child" by auto
            from rewrite_texts [OF this normalizePath_unique [OF c u]] normalizePath_texts [OF c u] False show False by simp
          qed
          show ?thesis unfolding JObject n bind.simps l
            using r by (cases "those (map (?f ?P) obj)") (auto simp: marshal_idem)
        qed
      qed
    qed
  qed auto
qed

definition duration_at :: "string list \<Rightarrow> string list \<Rightarrow> bool" where
  "duration_at keys q \<longleftrightarrow> q \<in> Split (CHR ''.'') ` set keys"

lemma normalizeDurations_rewrite:
  "unique_keys raw \<Longrightarrow> (case normalizeDurations frac order raw of Inl _ \<Rightarrow> None | Inr j \<Rightarrow> Some j) = rewrite frac (duration_at order) raw"
proof (induction frac order raw rule: normalizeDurations.induct)
  case (1 frac raw)
  show ?case by (simp add: duration_at_def rewrite_nothing)
next
  case (2 frac path paths raw)
  have "duration_at (path # paths) = (\<lambda>q. q = Split (CHR ''.'') path \<or> duration_at paths q)"
    by (auto simp: duration_at_def fun_eq_iff)
  with 2 rewrite_step [OF 2(2), of frac "Split (CHR ''.'') path" "duration_at paths"] normalizePath_unique
  show ?case by (auto split: option.split)
qed

text \<open>
  C31. The order of the map does not show. A section is rewritten path by path in the random order in
  which Go walks the map of duration keys; whatever that order is, it amounts to one pass over the
  value that replaces each text at a duration key by its nanoseconds, puts the members of an object it
  changed in order and leaves everything else - and it fails exactly when one of these texts is no
  duration.
\<close>

theorem durations_in_any_order:
  assumes "set order = set (durationKeys t)" "unique_keys raw"
  shows "(case normalizeDurations frac order raw of Inl _ \<Rightarrow> None | Inr j \<Rightarrow> Some j) = rewrite frac (duration_at (durationKeys t)) raw"
proof -
  have "duration_at order = duration_at (durationKeys t)" using assms(1) by (simp add: duration_at_def fun_eq_iff)
  with normalizeDurations_rewrite [OF assms(2)] show ?thesis by simp
qed

definition sample_type :: gotype where
  "sample_type = GPointer (GStruct
     [Field True ''Secret'' ''secret'' False GOther,
      Field True ''TTL'' ''access_ttl,omitempty'' False GDuration,
      Field True ''Retry'' ''retry'' False (GStruct [Field True ''Max'' [] False (GPointer GDuration)])])"

definition sample_section :: json where
  "sample_section = JObject [(''secret'', JString ''1h''), (''retry'', JObject [(''Max'', JString ''1h'')])]"

lemma sample_keys: "durationKeys sample_type = [''access_ttl'', ''retry.Max'']"
  by (simp add: sample_type_def durationKeys.simps struct_of_def tag_name_def)

theorem durations_in_any_order_witness:
  "(case normalizeDurations exact_fraction [''retry.Max'', ''access_ttl''] sample_section of Inl _ \<Rightarrow> None | Inr j \<Rightarrow> Some j)
     = rewrite exact_fraction (duration_at [''access_ttl'', ''retry.Max'']) sample_section"
proof (rule durations_in_any_order [of _ sample_type, unfolded sample_keys])
  show "unique_keys sample_section" by (simp add: sample_section_def)
qed auto

end
