(* ===== verification/Provision.thy ===== *)
theory Provision
  imports Appconfig
begin

text \<open>
  Getting at the backends: \<open>pkg/postgres\<close> opens the pool and creates a database that is missing,
  \<open>pkg/dbschema\<close> applies the schema under a lock, \<open>pkg/redis\<close> connects, and the sections of the
  configuration they read. The servers are a parameter that answers commands; the commands that were
  sent are kept.
\<close>

section \<open>Commands\<close>

datatype db_error = ServerError (sqlstate: string) (message: string) (position: nat) | OtherError string | WrapError string db_error

text \<open>\<open>errors.As(err, &pgErr)\<close>\<close>

fun as_server :: "db_error \<Rightarrow> (string \<times> string \<times> nat) option" where
  "as_server (ServerError code msg pos) = Some (code, msg, pos)"
| "as_server (OtherError s) = None"
| "as_server (WrapError s e) = as_server e"

datatype command =
    OpenPool string | PingPool | DropPool
  | Connect string | Exec string | AskExists string | Pause | Disconnect
  | Acquire | Lock | Apply string | EndApply | Unlock | Release
  | PingCache string | Hangup

type_synonym 's dbms = "command \<Rightarrow> 's \<Rightarrow> (db_error + bool) \<times> 's"

record 's wire =
  backend :: 's
  sent :: "command list"

definition send :: "'s dbms \<Rightarrow> command \<Rightarrow> ('s wire, db_error, bool) act" where
  "send srv c w = (case srv c (backend w) of (r, b) \<Rightarrow> (r, w\<lparr>backend := b, sent := sent w @ [c]\<rparr>))"

text \<open>\<open>defer\<close> of a command whose answer nobody looks at.\<close>

definition deferred :: "'s dbms \<Rightarrow> command \<Rightarrow> ('s wire, db_error, 'a) act \<Rightarrow> ('s wire, db_error, 'a) act" where
  "deferred srv c m = attempt m (\<lambda>r. attempt (send srv c) (\<lambda>_. lift r))"

section \<open>pkg/postgres\<close>

record postgres_config =
  DSN :: string
  AutoCreate :: bool

definition undefinedDatabase :: string where "undefinedDatabase = ''3D000''"
definition insufficientPriv :: string where "insufficientPriv = ''42501''"
definition createAttempts :: nat where "createAttempts = 3"

definition has_state :: "string \<Rightarrow> db_error \<Rightarrow> bool" where
  "has_state code e \<longleftrightarrow> (case as_server e of None \<Rightarrow> False | Some (c, _) \<Rightarrow> c = code)"

definition isMissingDatabase :: "db_error \<Rightarrow> bool" where
  "isMissingDatabase e \<longleftrightarrow> has_state undefinedDatabase e"

definition open_pool :: "'s dbms \<Rightarrow> string \<Rightarrow> ('s wire, db_error, unit) act" where
  "open_pool srv dsn =
     andthen (map_err (WrapError ''postgres: open pool'') (send srv (OpenPool dsn))) (\<lambda>_.
     attempt (send srv PingPool) (\<lambda>r. case r of
       Inl err \<Rightarrow> attempt (send srv DropPool) (\<lambda>_. raise (WrapError ''postgres: ping'' err))
     | Inr _ \<Rightarrow> ret ()))"

text \<open>What the program takes from \<open>net/url\<close> and \<open>pgx\<close>: the path of a URL, the URL with another path, and a quoted name.\<close>

record urls =
  path_of :: "string \<Rightarrow> string option"
  with_path :: "string \<Rightarrow> string \<Rightarrow> string"
  quoted :: "string \<Rightarrow> string"

definition databaseExists :: "'s dbms \<Rightarrow> string \<Rightarrow> ('s wire, db_error, bool) act" where
  "databaseExists srv name = send srv (AskExists name)"

text \<open>The attempts that are left, whether one was made, and the error of the last.\<close>

fun create_loop :: "'s dbms \<Rightarrow> string \<Rightarrow> string \<Rightarrow> nat \<Rightarrow> bool \<Rightarrow> db_error \<Rightarrow> ('s wire, db_error, unit) act" where
  "create_loop srv stmt name 0 again lastErr = raise (WrapError ''postgres: create database'' lastErr)"
| "create_loop srv stmt name (Suc k) again lastErr =
     andthen (if again then send srv Pause else ret True) (\<lambda>_.
     attempt (send srv (Exec stmt)) (\<lambda>r. case r of
       Inr _ \<Rightarrow> ret ()
     | Inl err \<Rightarrow>
         if has_state insufficientPriv err then
           raise (OtherError ''postgres: database does not exist and this role may not create it'')
         else attempt (databaseExists srv name) (\<lambda>q. case q of
           Inl checkErr \<Rightarrow> raise (WrapError ''postgres: create database failed and checking whether it exists also failed'' checkErr)
         | Inr there \<Rightarrow> if there then ret () else create_loop srv stmt name k True err)))"

definition createDatabase :: "'s dbms \<Rightarrow> urls \<Rightarrow> string \<Rightarrow> ('s wire, db_error, unit) act" where
  "createDatabase srv u dsn =
     (case path_of u dsn of
        None \<Rightarrow> raise (OtherError ''postgres: POSTGRES_URL is not a valid URL'')
      | Some path \<Rightarrow>
          let name = (case CutPrefix path ''/'' of None \<Rightarrow> path | Some n \<Rightarrow> n) in
          if name = [] then raise (OtherError ''postgres: POSTGRES_URL names no database'')
          else andthen (map_err (WrapError ''postgres: database does not exist and connecting to the maintenance database failed'')
                 (send srv (Connect (with_path u dsn ''/postgres'')))) (\<lambda>_.
               deferred srv Disconnect
                 (create_loop srv (''CREATE DATABASE '' @ quoted u name) name createAttempts False (OtherError []))))"

definition New_pool :: "'s dbms \<Rightarrow> urls \<Rightarrow> postgres_config \<Rightarrow> ('s wire, db_error, unit) act" where
  "New_pool srv u cfg =
     attempt (open_pool srv (DSN cfg)) (\<lambda>r. case r of
       Inr _ \<Rightarrow> ret ()
     | Inl err \<Rightarrow>
         if \<not> AutoCreate cfg \<or> \<not> isMissingDatabase err then raise err
         else andthen (createDatabase srv u (DSN cfg)) (\<lambda>_. open_pool srv (DSN cfg)))"

section \<open>pkg/dbschema\<close>

definition describe :: "db_error \<Rightarrow> db_error" where
  "describe err =
     (case as_server err of
        Some (_, msg, pos) \<Rightarrow> if pos > 0 then OtherError (msg @ '' (at character '' @ print_nat pos @ '')'') else err
      | None \<Rightarrow> err)"

text \<open>\<open>Ensure\<close>: \<open>Some reason\<close> when it is skipped.\<close>

definition Ensure :: "'s dbms \<Rightarrow> bool \<Rightarrow> string \<Rightarrow> ('s wire, db_error, string option) act" where
  "Ensure srv auto_schema def =
     (if \<not> auto_schema then ret (Some ''DB_AUTO_SCHEMA is false'')
      else andthen (map_err (WrapError ''dbschema: acquire connection'') (send srv Acquire)) (\<lambda>_.
        deferred srv Release (
          andthen (map_err (WrapError ''dbschema: lock'') (send srv Lock)) (\<lambda>_.
          deferred srv Unlock (
            andthen (map_err (\<lambda>e. WrapError ''dbschema: apply'' (describe e)) (send srv (Apply def))) (\<lambda>_.
            andthen (map_err (\<lambda>e. WrapError ''dbschema: apply'' (describe e)) (send srv EndApply)) (\<lambda>_.
            ret None)))))))"

section \<open>pkg/redis\<close>

definition New_redis :: "'s dbms \<Rightarrow> (string \<Rightarrow> bool) \<Rightarrow> string \<Rightarrow> ('s wire, db_error, unit) act" where
  "New_redis srv valid_url url =
     (if \<not> valid_url url then raise (OtherError ''redis: parse url'')
      else attempt (send srv (PingCache url)) (\<lambda>r. case r of
          Inl err \<Rightarrow> attempt (send srv Hangup) (\<lambda>_. raise (WrapError ''redis: ping'' err))
        | Inr _ \<Rightarrow> ret ()))"

section \<open>Their configuration\<close>

text \<open>A section over its defaults, and then what has to be there.\<close>

datatype load_error = Malformed config_error | Required string | Unacceptable error

definition load_section ::
  "fraction \<Rightarrow> string list \<Rightarrow> (json \<Rightarrow> 'c \<Rightarrow> string + 'c) \<Rightarrow> config \<Rightarrow> string \<Rightarrow> 'c \<Rightarrow> load_error + 'c" where
  "load_section frac order unmarshal c name dst =
     (case Section frac order unmarshal c name dst of Inl e \<Rightarrow> Inl (Malformed e) | Inr v \<Rightarrow> Inr v)"

definition LoadConfig_postgres :: "fraction \<Rightarrow> (json \<Rightarrow> postgres_config \<Rightarrow> string + postgres_config) \<Rightarrow> config \<Rightarrow> load_error + postgres_config" where
  "LoadConfig_postgres frac unmarshal root =
     (case load_section frac [] unmarshal root ''db'' \<lparr>DSN = [], AutoCreate = True\<rparr> of
        Inl e \<Rightarrow> Inl e
      | Inr cfg \<Rightarrow> if DSN cfg = [] then Inl (Required ''db.url'') else Inr cfg)"

definition LoadConfig_dbschema :: "fraction \<Rightarrow> (json \<Rightarrow> bool \<Rightarrow> string + bool) \<Rightarrow> config \<Rightarrow> load_error + bool" where
  "LoadConfig_dbschema frac unmarshal root = load_section frac [] unmarshal root ''db'' True"

definition LoadConfig_redis :: "fraction \<Rightarrow> (json \<Rightarrow> string \<Rightarrow> string + string) \<Rightarrow> config \<Rightarrow> load_error + string" where
  "LoadConfig_redis frac unmarshal root =
     (case load_section frac [] unmarshal root ''redis'' [] of
        Inl e \<Rightarrow> Inl e
      | Inr url \<Rightarrow> if url = [] then Inl (Required ''redis.url'') else Inr url)"

section \<open>What is sent\<close>

text \<open>\<open>sends m C\<close>: whatever \<open>m\<close> answers, \<open>C\<close> holds of the answer and of the commands it sent.\<close>

definition sends :: "('s wire, 'e, 'a) act \<Rightarrow> ('e + 'a \<Rightarrow> command list \<Rightarrow> bool) \<Rightarrow> bool" where
  "sends m C \<longleftrightarrow> (\<forall>w. \<exists>cs. sent (snd (m w)) = sent w @ cs \<and> C (fst (m w)) cs)"

lemma sends_send: "(\<And>r. C r [c]) \<Longrightarrow> sends (send srv c) C"
  by (auto simp: sends_def send_def split: prod.split)

lemma sends_done [simp]:
  "sends (ret x) C \<longleftrightarrow> C (Inr x) []" "sends (raise e) C \<longleftrightarrow> C (Inl e) []" "sends (lift r) C \<longleftrightarrow> C r []"
  by (simp_all add: sends_def)

lemma sends_attempt:
  assumes "sends m D" "\<And>r cs. D r cs \<Longrightarrow> sends (k r) (\<lambda>q ds. C q (cs @ ds))"
  shows "sends (attempt m k) C"
  unfolding sends_def
proof
  fix w
  from assms(1) obtain cs where cs: "sent (snd (m w)) = sent w @ cs" "D (fst (m w)) cs" unfolding sends_def by blast
  from assms(2) [OF cs(2)] obtain ds where "sent (snd (k (fst (m w)) (snd (m w)))) = sent (snd (m w)) @ ds"
    "C (fst (k (fst (m w)) (snd (m w)))) (cs @ ds)" unfolding sends_def by blast
  with cs show "\<exists>cs. sent (snd (attempt m k w)) = sent w @ cs \<and> C (fst (attempt m k w)) cs"
    by (intro exI [of _ "cs @ ds"]) (simp add: attempt_simp)
qed

lemma sends_andthen:
  assumes "sends m D" "\<And>e cs. D (Inl e) cs \<Longrightarrow> C (Inl e) cs" "\<And>x cs. D (Inr x) cs \<Longrightarrow> sends (k x) (\<lambda>q ds. C q (cs @ ds))"
  shows "sends (andthen m k) C"
  unfolding andthen_def by (rule sends_attempt [OF assms(1)]) (auto intro: assms(2,3) split: sum.split)

lemma sends_map_err:
  assumes "sends m (\<lambda>r. C (case r of Inl e \<Rightarrow> Inl (g e) | Inr x \<Rightarrow> Inr x))" shows "sends (map_err g m) C"
  unfolding map_err_def by (rule sends_attempt [OF assms]) (auto split: sum.splits)

lemma sends_deferred:
  assumes "sends m (\<lambda>r cs. C r (cs @ [c]))" shows "sends (deferred srv c m) C"
  unfolding deferred_def
  by (rule sends_attempt [OF assms], rule sends_attempt [where D = "\<lambda>_ ds. ds = [c]"])
    (auto intro: sends_send)

lemma sends_weaken: "sends m D \<Longrightarrow> (\<And>r cs. D r cs \<Longrightarrow> C r cs) \<Longrightarrow> sends m C"
  unfolding sends_def by blast


lemma sends_open_pool:
  "sends (open_pool srv dsn) (\<lambda>r cs. cs \<in> {[OpenPool dsn], [OpenPool dsn, PingPool], [OpenPool dsn, PingPool, DropPool]} \<and>
     (\<forall>x. r = Inr x \<longrightarrow> last cs = PingPool))"
  unfolding open_pool_def
  by (rule sends_andthen [OF sends_map_err [OF sends_send [where C = "\<lambda>r cs. cs = [OpenPool dsn]"]]], simp, simp,
      rule sends_attempt [OF sends_send [where C = "\<lambda>r cs. cs = [PingPool]"]], simp)
    (auto split: sum.split intro!: sends_attempt [OF sends_send [where C = "\<lambda>r cs. cs = [DropPool]"]])

definition execs :: "command list \<Rightarrow> nat" where
  "execs cs = length (filter (\<lambda>c. case c of Exec _ \<Rightarrow> True | _ \<Rightarrow> False) cs)"

lemma execs_simps [simp]: "execs [] = 0" "execs (c # cs) = (case c of Exec _ \<Rightarrow> 1 | _ \<Rightarrow> 0) + execs cs" "execs (cs @ ds) = execs cs + execs ds"
  by (auto simp: execs_def split: command.split)

fun over_maintenance :: "command \<Rightarrow> bool" where
  "over_maintenance (Exec _) = True" | "over_maintenance (AskExists _) = True" | "over_maintenance Pause = True"
| "over_maintenance _ = False"

lemma sends_create_loop:
  "sends (create_loop srv stmt name k again lastErr) (\<lambda>r cs. execs cs \<le> k \<and> list_all over_maintenance cs)"
proof (induction k arbitrary: again lastErr)
  case (Suc k)
  have pause: "sends (if again then send srv Pause else ret True) (\<lambda>r cs. execs cs = 0 \<and> list_all over_maintenance cs)"
    by (auto intro: sends_send)
  have ex: "sends (send srv (Exec stmt)) (\<lambda>r cs. cs = [Exec stmt])" by (rule sends_send) simp
  have ask: "sends (databaseExists srv name) (\<lambda>r cs. cs = [AskExists name])"
    unfolding databaseExists_def by (rule sends_send) simp
  have IH: "sends (create_loop srv stmt name k True e) (\<lambda>r ds. execs ds \<le> k \<and> list_all over_maintenance ds)" for e
    by (rule Suc.IH)
  have rest: "sends (case r of Inr _ \<Rightarrow> ret ()
     | Inl err \<Rightarrow> if has_state insufficientPriv err then raise (f err)
         else attempt (databaseExists srv name) (\<lambda>q. case q of Inl e \<Rightarrow> raise (g e)
           | Inr there \<Rightarrow> if there then ret () else create_loop srv stmt name k True err))
     (\<lambda>r ds. execs ds \<le> k \<and> list_all over_maintenance ds)" for r :: "db_error + bool" and f g
    by (auto split: sum.split intro!: sends_attempt [OF ask] sends_weaken [OF IH])
  show ?case
    unfolding create_loop.simps
    by (rule sends_andthen [OF pause], simp, rule sends_attempt [OF ex], rule sends_weaken [OF rest]) auto
qed simp

text \<open>The maintenance database: connected, used, and left.\<close>

definition maintenance :: "command list \<Rightarrow> bool" where
  "maintenance cs \<longleftrightarrow> cs = [] \<or> (\<exists>url. cs = [Connect url]) \<or> (\<exists>url ds. cs = Connect url # ds @ [Disconnect] \<and> list_all over_maintenance ds)"

lemma sends_createDatabase:
  "sends (createDatabase srv u dsn) (\<lambda>r cs. execs cs \<le> createAttempts \<and> maintenance cs)"
proof -
  have con: "sends (send srv (Connect url)) (\<lambda>r cs. cs = [Connect url])" for url by (rule sends_send) simp
  have use: "sends (deferred srv Disconnect (create_loop srv stmt name createAttempts False e))
      (\<lambda>r cs. execs cs \<le> createAttempts \<and> (\<exists>ds. cs = ds @ [Disconnect] \<and> list_all over_maintenance ds))" for stmt name e
    by (rule sends_deferred, rule sends_weaken [OF sends_create_loop]) simp
  have "sends (andthen (map_err f (send srv (Connect url))) (\<lambda>_. deferred srv Disconnect (create_loop srv stmt name createAttempts False e)))
      (\<lambda>r cs. execs cs \<le> createAttempts \<and> maintenance cs)" for f url stmt name e
    by (rule sends_andthen [OF sends_map_err [where C = "\<lambda>r cs. cs = [Connect url]"], OF con], simp add: maintenance_def,
        rule sends_weaken [OF use]) (auto simp: maintenance_def)
  then show ?thesis
    unfolding createDatabase_def Let_def by (auto simp: maintenance_def split: option.split)
qed

lemma sendsD: "sends m C \<Longrightarrow> m w = (r, w') \<Longrightarrow> \<exists>cs. sent w' = sent w @ cs \<and> C r cs"
  unfolding sends_def by (metis fst_conv snd_conv)

text \<open>
  C33. A database is created only when it is missing. Opening the pool touches the maintenance database
  only if automatic creation is on and the server just answered that the configured database does not
  exist; it then sends CREATE DATABASE at most three times and leaves that connection again. A success
  ends with an answered ping of the configured database, whoever created it.
\<close>

theorem created_only_when_missing:
  assumes "New_pool srv u cfg w = (r, w')"
  shows "\<exists>before mid after. sent w' = sent w @ before @ mid @ after \<and> maintenance mid \<and> execs (before @ mid @ after) \<le> 3 \<and>
    list_all (\<lambda>c. c \<in> {OpenPool (DSN cfg), PingPool, DropPool}) (before @ after) \<and> (r = Inr () \<longrightarrow> last (before @ mid @ after) = PingPool) \<and>
    (mid \<noteq> [] \<longrightarrow> AutoCreate cfg \<and> (\<exists>e w1. open_pool srv (DSN cfg) w = (Inl e, w1) \<and> isMissingDatabase e))"
proof -
  let ?open = "open_pool srv (DSN cfg)"
  obtain q w1 where q: "?open w = (q, w1)" by fastforce
  from sendsD [OF sends_open_pool q] obtain bs where bs: "sent w1 = sent w @ bs" "execs bs = 0"
    "list_all (\<lambda>c. c \<in> {OpenPool (DSN cfg), PingPool, DropPool}) bs" "\<forall>x. q = Inr x \<longrightarrow> last bs = PingPool" by auto
  show ?thesis
  proof (cases "\<exists>e. q = Inl e \<and> AutoCreate cfg \<and> isMissingDatabase e")
    case False
    then have "r = q" "w' = w1" using assms q by (cases q; auto simp: New_pool_def attempt_simp split: if_splits)+
    with bs show ?thesis by (intro exI [of _ bs] exI [of _ "[]"]) (auto simp: maintenance_def)
  next
    case True
    then obtain e where e: "q = Inl e" "AutoCreate cfg" "isMissingDatabase e" by blast
    obtain p w2 where p: "createDatabase srv u (DSN cfg) w1 = (p, w2)" by fastforce
    from sendsD [OF sends_createDatabase p] obtain ms where ms: "sent w2 = sent w1 @ ms" "execs ms \<le> 3" "maintenance ms"
      by (auto simp: createAttempts_def)
    have new: "New_pool srv u cfg w = (case p of Inl x \<Rightarrow> (Inl x, w2) | Inr _ \<Rightarrow> ?open w2)"
      using q e p by (auto simp: New_pool_def attempt_simp andthen_simp split: sum.split)
    show ?thesis
    proof (cases p)
      case (Inl x)
      with new assms bs ms e q show ?thesis by (intro exI [of _ bs] exI [of _ ms] exI [of _ "[]"]) auto
    next
      case (Inr x)
      with new assms have o: "?open w2 = (r, w')" by simp
      from sendsD [OF sends_open_pool o] obtain cs where cs: "sent w' = sent w2 @ cs" "execs cs = 0" "cs \<noteq> []"
        "list_all (\<lambda>c. c \<in> {OpenPool (DSN cfg), PingPool, DropPool}) cs" "\<forall>x. r = Inr x \<longrightarrow> last cs = PingPool" by auto
      with bs ms e q show ?thesis by (intro exI [of _ bs] exI [of _ ms] exI [of _ cs]) auto
    qed
  qed
qed

lemma sends_Ensure:
  "sends (Ensure srv True def) (\<lambda>r cs.
     cs \<in> {[Acquire], [Acquire, Lock, Release], [Acquire, Lock, Apply def, Unlock, Release], [Acquire, Lock, Apply def, EndApply, Unlock, Release]} \<and>
     (r = Inr None \<longrightarrow> cs = [Acquire, Lock, Apply def, EndApply, Unlock, Release]))"
proof -
  have one: "sends (map_err f (send srv c)) (\<lambda>r cs. cs = [c])" for f c by (rule sends_map_err, rule sends_send) simp
  show ?thesis
    unfolding Ensure_def
    by (simp, rule sends_andthen [OF one], simp, rule sends_deferred, rule sends_andthen [OF one], simp,
        rule sends_deferred, rule sends_andthen [OF one], simp, rule sends_andthen [OF one], simp, simp)
qed

text \<open>
  The schema is applied under its lock, and the lock is given back. What \<open>Ensure\<close> sends is one of four
  sequences: once the advisory lock is held it is released on the same connection before that
  connection goes back to the pool, also when the schema is refused half-way; the schema is sent at
  most once; and a success means it was applied in full while the lock was held.
\<close>

theorem schema_lock_released:
  assumes "Ensure srv True def w = (r, w')"
  shows "\<exists>cs. sent w' = sent w @ cs \<and>
    cs \<in> {[Acquire], [Acquire, Lock, Release], [Acquire, Lock, Apply def, Unlock, Release], [Acquire, Lock, Apply def, EndApply, Unlock, Release]} \<and>
    (r = Inr None \<longrightarrow> cs = [Acquire, Lock, Apply def, EndApply, Unlock, Release])"
  by (rule sendsD [OF sends_Ensure assms])

section \<open>A server without the database\<close>

text \<open>Its state is whether the database exists.\<close>

fun bare_server :: "bool dbms" where
  "bare_server PingPool there = (if there then Inr True else Inl (ServerError undefinedDatabase ''no database'' 0), there)"
| "bare_server (Exec _) there = (Inr True, True)"
| "bare_server (Apply _) there = (if there then Inr True else Inl (OtherError ''gone''), there)"
| "bare_server _ there = (Inr True, there)"

definition plain_urls :: urls where
  "plain_urls = \<lparr>path_of = (\<lambda>_. Some ''/goauth''), with_path = (\<lambda>_ p. p), quoted = (\<lambda>n. n)\<rparr>"

definition bare :: "bool wire" where "bare = \<lparr>backend = False, sent = []\<rparr>"

definition bare_config :: postgres_config where "bare_config = \<lparr>DSN = ''dsn'', AutoCreate = True\<rparr>"

theorem created_only_when_missing_witness:
  "sent (snd (New_pool bare_server plain_urls bare_config bare)) =
     [OpenPool ''dsn'', PingPool, DropPool, Connect ''/postgres'', Exec ''CREATE DATABASE goauth'', Disconnect, OpenPool ''dsn'', PingPool]
   \<and> (\<exists>e w1. open_pool bare_server ''dsn'' bare = (Inl e, w1) \<and> isMissingDatabase e)"
proof
  show s: "sent (snd (New_pool bare_server plain_urls bare_config bare)) =
     [OpenPool ''dsn'', PingPool, DropPool, Connect ''/postgres'', Exec ''CREATE DATABASE goauth'', Disconnect, OpenPool ''dsn'', PingPool]"
    by code_simp
  obtain r w' where e: "New_pool bare_server plain_urls bare_config bare = (r, w')" by fastforce
  from created_only_when_missing [OF e] obtain a m b where abm: "sent w' = a @ m @ b"
    "list_all (\<lambda>c. c \<in> {OpenPool ''dsn'', PingPool, DropPool}) (a @ b)"
    "m \<noteq> [] \<longrightarrow> (\<exists>e w1. open_pool bare_server ''dsn'' bare = (Inl e, w1) \<and> isMissingDatabase e)"
    by (auto simp: bare_def bare_config_def)
  have "Disconnect \<in> set (a @ m @ b)" using s e abm(1) by simp
  then have "m \<noteq> []" using abm(2) by (auto simp: list_all_iff)
  with abm(3) show "\<exists>e w1. open_pool bare_server ''dsn'' bare = (Inl e, w1) \<and> isMissingDatabase e" by blast
qed

theorem schema_lock_released_witness:
  "sent (snd (Ensure bare_server True ''CREATE'' bare)) = [Acquire, Lock, Apply ''CREATE'', Unlock, Release]"
proof -
  obtain r w' where e: "Ensure bare_server True ''CREATE'' bare = (r, w')" by fastforce
  have n: "length (sent (snd (Ensure bare_server True ''CREATE'' bare))) = 5" by code_simp
  from schema_lock_released [OF e] e n show ?thesis by (auto simp: bare_def)
qed

end
