(* ===== verification/Settings.thy ===== *)
theory Settings
  imports Provision Routes Bootstrap Jobs
begin

text \<open>
  The settings of every package: what \<open>encoding/json\<close> does with the configuration structs, and each
  package's \<open>LoadConfig\<close> - its section, its defaults, its checks. A struct is the list of its fields
  that have a JSON key, a field tagged \<open>-\<close> is left out. An array is decoded into fresh elements.
\<close>

section \<open>Decoding into a struct\<close>

datatype 'c slot =
    Text "string \<Rightarrow> 'c \<Rightarrow> 'c"
  | Number "int \<Rightarrow> 'c \<Rightarrow> 'c"
  | Switch "bool \<Rightarrow> 'c \<Rightarrow> 'c"
  | Period "duration \<Rightarrow> 'c \<Rightarrow> 'c"
  | Texts "string list \<Rightarrow> 'c \<Rightarrow> 'c"
  | Rule_of "'c \<Rightarrow> rule" "rule \<Rightarrow> 'c \<Rightarrow> 'c"
  | Custom "fraction \<Rightarrow> json \<Rightarrow> 'c \<Rightarrow> 'c option"

datatype 'c json_field = Json (go_name: string) (tag: string) (slot: "'c slot")

definition json_key :: "'c json_field \<Rightarrow> string" where
  "json_key f = (if tag f = [] then go_name f else tag f)"

text \<open>Keys match up to case; beyond ASCII two runes fold to a letter of a key: the long s and the Kelvin sign.\<close>

definition fold_key :: "string \<Rightarrow> string" where
  "fold_key k = concat (map (\<lambda>(r, bytes).
     if r = 0x17F then ''s'' else if r = 0x212A then ''k'' else map lower_byte bytes) (runes k))"

definition text_element :: "json \<Rightarrow> string option" where
  "text_element j = (case j of JString s \<Rightarrow> Some s | JNull \<Rightarrow> Some [] | _ \<Rightarrow> None)"

text \<open>\<open>null\<close> empties a slice and leaves anything else as it is.\<close>

definition set_slot :: "fraction \<Rightarrow> 'c slot \<Rightarrow> json \<Rightarrow> 'c \<Rightarrow> 'c option" where
  "set_slot frac sl v d =
     (case sl of
        Text f \<Rightarrow> (case v of JString s \<Rightarrow> Some (f s d) | JNull \<Rightarrow> Some d | _ \<Rightarrow> None)
      | Number f \<Rightarrow> (case v of JNumber n \<Rightarrow> map_option (\<lambda>i. f i d) (Atoi n) | JNull \<Rightarrow> Some d | _ \<Rightarrow> None)
      | Switch f \<Rightarrow> (case v of JBool b \<Rightarrow> Some (f b d) | JNull \<Rightarrow> Some d | _ \<Rightarrow> None)
      | Period f \<Rightarrow> (case v of JNumber n \<Rightarrow> map_option (\<lambda>i. f i d) (Atoi n) | JNull \<Rightarrow> Some d | _ \<Rightarrow> None)
      | Texts f \<Rightarrow> (case v of JArray js \<Rightarrow> map_option (\<lambda>ts. f ts d) (those (map text_element js)) | JNull \<Rightarrow> Some (f [] d) | _ \<Rightarrow> None)
      | Rule_of g f \<Rightarrow> (case v of JString s \<Rightarrow> map_option (\<lambda>r. f r d) (UnmarshalText frac s (g d)) | JNull \<Rightarrow> Some d | _ \<Rightarrow> None)
      | Custom h \<Rightarrow> h frac v d)"

definition set_member :: "fraction \<Rightarrow> 'c json_field list \<Rightarrow> string \<times> json \<Rightarrow> 'c \<Rightarrow> 'c option" where
  "set_member frac fs kv d =
     (case find (\<lambda>f. fold_key (json_key f) = fold_key (fst kv)) fs of
        None \<Rightarrow> Some d
      | Some f \<Rightarrow> set_slot frac (slot f) (snd kv) d)"

fun set_members :: "fraction \<Rightarrow> 'c json_field list \<Rightarrow> (string \<times> json) list \<Rightarrow> 'c \<Rightarrow> 'c option" where
  "set_members frac fs [] d = Some d"
| "set_members frac fs (kv # kvs) d = Option.bind (set_member frac fs kv d) (set_members frac fs kvs)"

definition unmarshal :: "fraction \<Rightarrow> 'c json_field list \<Rightarrow> json \<Rightarrow> 'c \<Rightarrow> string + 'c" where
  "unmarshal frac fs j d =
     (case j of
        JObject kvs \<Rightarrow> (case set_members frac fs kvs d of None \<Rightarrow> Inl ''json: cannot unmarshal'' | Some d' \<Rightarrow> Inr d')
      | JNull \<Rightarrow> Inr d
      | _ \<Rightarrow> Inl ''json: cannot unmarshal'')"

text \<open>The type of the struct as \<open>reflect\<close> shows it; a rule is a struct of its own.\<close>

definition go_type :: "'c slot \<Rightarrow> gotype" where
  "go_type sl =
     (case sl of
        Period _ \<Rightarrow> GDuration
      | Rule_of _ _ \<Rightarrow> GStruct [Field True ''Limit'' [] False GOther, Field True ''Window'' [] False GDuration]
      | _ \<Rightarrow> GOther)"

definition struct_type :: "'c json_field list \<Rightarrow> gotype" where
  "struct_type fs = GPointer (GStruct (map (\<lambda>f. Field True (go_name f) (tag f) False (go_type (slot f))) fs))"

text \<open>What reading a section depends on: the fraction of a second, and the order in which the map of keys is walked.\<close>

record reader =
  frac_of :: fraction
  walk :: "string list \<Rightarrow> string list"

definition read_section :: "reader \<Rightarrow> 'c json_field list \<Rightarrow> config \<Rightarrow> string \<Rightarrow> 'c \<Rightarrow> load_error + 'c" where
  "read_section rd fs c name dst =
     load_section (frac_of rd) (walk rd (durationKeys (struct_type fs))) (unmarshal (frac_of rd) fs) c name dst"

section \<open>The packages under pkg\<close>

definition token_fields :: "token_config json_field list" where
  "token_fields =
     [Json ''PrivateKey'' ''private_key'' (Text (\<lambda>x. PrivateKey_update (\<lambda>_. x))),
      Json ''PreviousPublicKeys'' ''previous_public_keys'' (Texts (\<lambda>x. PreviousPublicKeys_update (\<lambda>_. x))),
      Json ''Issuer'' ''issuer'' (Text (\<lambda>x. Issuer_update (\<lambda>_. x))),
      Json ''Audience'' ''audience'' (Text (\<lambda>x. Audience_update (\<lambda>_. x))),
      Json ''AccessTTL'' ''access_ttl'' (Period (\<lambda>x. AccessTTL_update (\<lambda>_. x))),
      Json ''RefreshTTL'' ''refresh_ttl'' (Period (\<lambda>x. RefreshTTL_update (\<lambda>_. x)))]"

definition token_defaults :: token_config where
  "token_defaults = \<lparr>PrivateKey = [], PreviousPublicKeys = [], Issuer = ''goauth'', Audience = ''goauth'',
     AccessTTL = 15 * Minute, RefreshTTL = 720 * Hour\<rparr>"

definition LoadConfig_token :: "reader \<Rightarrow> config \<Rightarrow> load_error + token_config" where
  "LoadConfig_token rd c =
     (case read_section rd token_fields c ''token'' token_defaults of
        Inl e \<Rightarrow> Inl e
      | Inr cfg \<Rightarrow> if PrivateKey cfg = [] then Inl (Required ''token.private_key'') else Inr cfg)"

definition ratelimit_fields :: "ratelimit_config json_field list" where
  "ratelimit_fields =
     [Json ''KeyPrefix'' ''key_prefix'' (Text (\<lambda>x. KeyPrefix_update (\<lambda>_. x))),
      Json ''LoginIP'' ''login_ip'' (Rule_of LoginIP (\<lambda>x. LoginIP_update (\<lambda>_. x))),
      Json ''LoginPair'' ''login_pair'' (Rule_of LoginPair (\<lambda>x. LoginPair_update (\<lambda>_. x))),
      Json ''Register'' ''register'' (Rule_of ratelimit_config.Register (\<lambda>x. ratelimit_config.Register_update (\<lambda>_. x))),
      Json ''BackoffAfter'' ''backoff_after'' (Number (\<lambda>x. BackoffAfter_update (\<lambda>_. x))),
      Json ''BackoffBase'' ''backoff_base'' (Period (\<lambda>x. BackoffBase_update (\<lambda>_. x))),
      Json ''BackoffMax'' ''backoff_max'' (Period (\<lambda>x. BackoffMax_update (\<lambda>_. x))),
      Json ''FailureWindow'' ''failure_window'' (Period (\<lambda>x. FailureWindow_update (\<lambda>_. x))),
      Json ''FailClosed'' ''fail_closed'' (Switch (\<lambda>x. rl_FailClosed_update (\<lambda>_. x)))]"

definition LoadConfig_ratelimit :: "reader \<Rightarrow> config \<Rightarrow> load_error + ratelimit_config" where
  "LoadConfig_ratelimit rd c = read_section rd ratelimit_fields c ''ratelimit'' ratelimit_defaults"

definition realip_fields :: "realip_config json_field list" where
  "realip_fields =
     [Json ''TrustedProxies'' ''trusted_proxies'' (Texts (\<lambda>x. TrustedProxies_update (\<lambda>_. x))),
      Json ''ClientIPHeader'' ''client_ip_header'' (Text (\<lambda>x. ClientIPHeader_update (\<lambda>_. x)))]"

definition LoadConfig_realip :: "reader \<Rightarrow> config \<Rightarrow> load_error + realip_config" where
  "LoadConfig_realip rd c = read_section rd realip_fields c ''realip'' \<lparr>TrustedProxies = [], ClientIPHeader = []\<rparr>"

definition webhook_fields :: "webhook_config json_field list" where
  "webhook_fields =
     [Json ''URL'' ''url'' (Text (\<lambda>x. wh_url_update (\<lambda>_. x))),
      Json ''Secret'' ''secret'' (Text (\<lambda>x. wh_secret_update (\<lambda>_. x))),
      Json ''APIKey'' ''api_key'' (Text (\<lambda>x. wh_api_key_update (\<lambda>_. x))),
      Json ''Timeout'' ''timeout'' (Period (\<lambda>x. wh_timeout_update (\<lambda>_. x)))]"

definition LoadConfig_webhook :: "reader \<Rightarrow> config \<Rightarrow> load_error + webhook_config" where
  "LoadConfig_webhook rd c =
     read_section rd webhook_fields c ''webhook'' \<lparr>wh_url = [], wh_secret = [], wh_api_key = [], wh_timeout = 10 * Second\<rparr>"

definition cookie_fields :: "cookie_config json_field list" where
  "cookie_fields =
     [Json ''Enabled'' ''enabled'' (Switch (\<lambda>x. cookies_enabled_update (\<lambda>_. x))),
      Json ''Secure'' ''secure'' (Switch (\<lambda>x. cookies_secure_update (\<lambda>_. x))),
      Json ''SameSite'' ''samesite'' (Text (\<lambda>x. cookies_same_site_update (\<lambda>_. x)))]"

definition LoadConfig_authcookie :: "reader \<Rightarrow> ext \<Rightarrow> config \<Rightarrow> load_error + cookie_config" where
  "LoadConfig_authcookie rd e c =
     (case read_section rd cookie_fields c ''authcookie''
             \<lparr>cookies_enabled = False, cookies_secure = True, cookies_same_site = ''strict''\<rparr> of
        Inl err \<Rightarrow> Inl err
      | Inr read \<Rightarrow>
          let cfg = read\<lparr>cookies_same_site := ToLower (unicode_lower e) (TrimSpace (cookies_same_site read))\<rparr> in
          if cookies_same_site cfg \<noteq> ''strict'' \<and> cookies_same_site cfg \<noteq> ''lax''
          then Inl (Unacceptable (Opaque ''authcookie: samesite'')) else Inr cfg)"

definition cors_fields :: "cors_config json_field list" where
  "cors_fields =
     [Json ''AllowDomains'' ''allow_domains'' (Texts (\<lambda>x. AllowDomains_update (\<lambda>_. x))),
      Json ''MaxAge'' ''max_age'' (Period (\<lambda>x. cors_max_age_update (\<lambda>_. x))),
      Json ''AllowCredentials'' [] (Switch (\<lambda>x. AllowCredentials_update (\<lambda>_. x)))]"

definition LoadConfig_cors :: "reader \<Rightarrow> ext \<Rightarrow> (string \<Rightarrow> url_parts option) \<Rightarrow> config \<Rightarrow> load_error + cors_config" where
  "LoadConfig_cors rd e up c =
     (case read_section rd cors_fields c ''cors'' \<lparr>AllowDomains = [], cors_max_age = 12 * Hour, AllowCredentials = False\<rparr> of
        Inl err \<Rightarrow> Inl err
      | Inr cfg \<Rightarrow> (case parse_origins e up [] False (AllowDomains cfg) of Inl err \<Rightarrow> Inl (Unacceptable err) | Inr _ \<Rightarrow> Inr cfg))"

definition NewWithCookies :: "ext \<Rightarrow> (string \<Rightarrow> url_parts option) \<Rightarrow> cors_config \<Rightarrow> cookie_config \<Rightarrow> error + cors_middleware" where
  "NewWithCookies e up cfg ck = New_cors e up (cfg\<lparr>AllowCredentials := cookies_enabled ck\<rparr>)"

text \<open>The backends of \<open>Provision\<close>, none of which has a duration.\<close>

definition postgres_fields :: "postgres_config json_field list" where
  "postgres_fields =
     [Json ''DSN'' ''url'' (Text (\<lambda>x. DSN_update (\<lambda>_. x))),
      Json ''AutoCreate'' ''auto_create'' (Switch (\<lambda>x. AutoCreate_update (\<lambda>_. x)))]"

definition dbschema_fields :: "bool json_field list" where
  "dbschema_fields = [Json ''AutoSchema'' ''auto_schema'' (Switch (\<lambda>b _. b))]"

definition redis_fields :: "string json_field list" where
  "redis_fields = [Json ''URL'' ''url'' (Text (\<lambda>s _. s))]"

section \<open>The packages under internal\<close>

record middleware_config =
  mw_token :: string
  mw_reauth_window :: duration

definition middleware_fields :: "middleware_config json_field list" where
  "middleware_fields =
     [Json ''AdminToken'' ''token'' (Text (\<lambda>x. mw_token_update (\<lambda>_. x))),
      Json ''ReauthWindow'' ''reauth_window'' (Period (\<lambda>x. mw_reauth_window_update (\<lambda>_. x)))]"

definition LoadConfig_middleware :: "reader \<Rightarrow> config \<Rightarrow> load_error + middleware_config" where
  "LoadConfig_middleware rd c = read_section rd middleware_fields c ''admin'' \<lparr>mw_token = [], mw_reauth_window = 15 * Minute\<rparr>"

record register_config =
  reg_mode :: string
  reg_min_password_len :: int
  reg_require_email :: bool

definition register_fields :: "register_config json_field list" where
  "register_fields =
     [Json ''Mode'' ''registration_mode'' (Text (\<lambda>x. reg_mode_update (\<lambda>_. x))),
      Json ''MinPasswordLength'' ''min_password_len'' (Number (\<lambda>x. reg_min_password_len_update (\<lambda>_. x))),
      Json ''RequireEmail'' ''registration_require_email'' (Switch (\<lambda>x. reg_require_email_update (\<lambda>_. x)))]"

definition LoadConfig_register :: "reader \<Rightarrow> config \<Rightarrow> load_error + register_config" where
  "LoadConfig_register rd c =
     (case read_section rd register_fields c ''auth''
             \<lparr>reg_mode = ModeClosed, reg_min_password_len = 12, reg_require_email = False\<rparr> of
        Inl e \<Rightarrow> Inl e
      | Inr cfg \<Rightarrow> if reg_mode cfg \<in> {ModeClosed, ModeOpen} then Inr cfg
          else Inl (Unacceptable (Opaque ''auth_register: auth.registration_mode'')))"

text \<open>The password floor, as four use cases read it for themselves.\<close>

definition floor_fields :: "int json_field list" where
  "floor_fields = [Json ''MinPasswordLength'' ''min_password_len'' (Number (\<lambda>n _. n))]"

definition LoadConfig_password_change :: "reader \<Rightarrow> config \<Rightarrow> load_error + int" where
  "LoadConfig_password_change rd c = read_section rd floor_fields c ''auth'' 12"

definition LoadConfig_user_create :: "reader \<Rightarrow> config \<Rightarrow> load_error + int" where
  "LoadConfig_user_create rd c = read_section rd floor_fields c ''auth'' 12"

definition LoadConfig_set_password :: "reader \<Rightarrow> config \<Rightarrow> load_error + int" where
  "LoadConfig_set_password rd c = read_section rd floor_fields c ''auth'' 12"

definition LoadConfig_auth_token :: "reader \<Rightarrow> config \<Rightarrow> load_error + bool" where
  "LoadConfig_auth_token rd c = read_section rd [Json ''FailClosed'' ''fail_closed'' (Switch (\<lambda>b _. b))] c ''ratelimit'' True"

record settings_config =
  set_mode :: string
  set_min_password_len :: int
  set_issuer :: string

definition settings_fields :: "settings_config json_field list" where
  "settings_fields =
     [Json ''RegistrationMode'' ''registration_mode'' (Text (\<lambda>x. set_mode_update (\<lambda>_. x))),
      Json ''MinPasswordLength'' ''min_password_len'' (Number (\<lambda>x. set_min_password_len_update (\<lambda>_. x)))]"

definition issuer_fields :: "string json_field list" where
  "issuer_fields = [Json ''Issuer'' ''issuer'' (Text (\<lambda>s _. s))]"

definition LoadConfig_settings :: "reader \<Rightarrow> config \<Rightarrow> load_error + settings_config" where
  "LoadConfig_settings rd c =
     (case read_section rd settings_fields c ''auth'' \<lparr>set_mode = ''closed'', set_min_password_len = 12, set_issuer = ''goauth''\<rparr> of
        Inl e \<Rightarrow> Inl e
      | Inr cfg \<Rightarrow>
          (case read_section rd issuer_fields c ''token'' (set_issuer cfg) of
             Inl e \<Rightarrow> Inl e
           | Inr iss \<Rightarrow> Inr (cfg\<lparr>set_issuer := iss\<rparr>)))"

definition seed_fields :: "seed_config json_field list" where
  "seed_fields =
     [Json ''Username'' ''username'' (Text (\<lambda>x. sc_username_update (\<lambda>_. x))),
      Json ''Password'' ''password'' (Text (\<lambda>x. sc_password_update (\<lambda>_. x))),
      Json ''Email'' ''email'' (Text (\<lambda>x. sc_email_update (\<lambda>_. x)))]"

definition LoadConfig_seed_super_admin :: "reader \<Rightarrow> config \<Rightarrow> load_error + seed_config" where
  "LoadConfig_seed_super_admin rd c =
     (case read_section rd seed_fields c ''seed''
             \<lparr>sc_username = [], sc_password = [], sc_email = [], sc_min_password_len = 12\<rparr> of
        Inl e \<Rightarrow> Inl e
      | Inr cfg \<Rightarrow>
          (case read_section rd floor_fields c ''auth'' (sc_min_password_len cfg) of
             Inl e \<Rightarrow> Inl e
           | Inr n \<Rightarrow> Inr (cfg\<lparr>sc_min_password_len := n\<rparr>)))"

definition role_seed_fields :: "role_seed json_field list" where
  "role_seed_fields =
     [Json ''Name'' ''name'' (Text (\<lambda>x. rs_name_update (\<lambda>_. x))),
      Json ''Rank'' ''rank'' (Number (\<lambda>x. rs_rank_update (\<lambda>_. x))),
      Json ''Permissions'' ''permissions'' (Texts (\<lambda>x. rs_permissions_update (\<lambda>_. x))),
      Json ''IsSystem'' ''is_system'' (Switch (\<lambda>x. rs_is_system_update (\<lambda>_. x)))]"

definition role_seed_element :: "fraction \<Rightarrow> json \<Rightarrow> role_seed option" where
  "role_seed_element frac j =
     (case unmarshal frac role_seed_fields j \<lparr>rs_name = [], rs_rank = 0, rs_permissions = [], rs_is_system = False\<rparr> of
        Inl _ \<Rightarrow> None | Inr r \<Rightarrow> Some r)"

definition roles_slot :: "fraction \<Rightarrow> json \<Rightarrow> role_seed list \<Rightarrow> role_seed list option" where
  "roles_slot frac v d =
     (case v of JArray js \<Rightarrow> those (map (role_seed_element frac) js) | JNull \<Rightarrow> Some [] | _ \<Rightarrow> None)"

definition LoadConfig_seed_roles :: "reader \<Rightarrow> config \<Rightarrow> load_error + role_seed list" where
  "LoadConfig_seed_roles rd c =
     (case read_section rd [Json ''Roles'' ''roles'' (Custom roles_slot)] c ''seed'' [] of
        Inl e \<Rightarrow> Inl e
      | Inr roles \<Rightarrow> (case check_seeds roles of Inl e \<Rightarrow> Inl (Unacceptable e) | Inr _ \<Rightarrow> Inr roles))"

definition audit_cleaner_fields :: "audit_cleaner_config json_field list" where
  "audit_cleaner_fields =
     [Json ''Retention'' ''retention'' (Period (\<lambda>x. ac_retention_update (\<lambda>_. x))),
      Json ''MaxRows'' ''max_rows'' (Number (\<lambda>x. ac_max_rows_update (\<lambda>_. x))),
      Json ''Interval'' ''cleanup_interval'' (Period (\<lambda>x. ac_interval_update (\<lambda>_. x)))]"

definition LoadConfig_audit_cleaner :: "reader \<Rightarrow> config \<Rightarrow> load_error + audit_cleaner_config" where
  "LoadConfig_audit_cleaner rd c = read_section rd audit_cleaner_fields c ''audit'' audit_cleaner_defaults"

definition LoadConfig_session_cleaner :: "reader \<Rightarrow> config \<Rightarrow> load_error + duration" where
  "LoadConfig_session_cleaner rd c = read_section rd [Json ''Interval'' ''cleanup_interval'' (Period (\<lambda>n _. n))] c ''sessions'' Hour"

definition dispatcher_fields :: "dispatcher_config json_field list" where
  "dispatcher_fields =
     [Json ''Interval'' ''interval'' (Period (\<lambda>x. dc_interval_update (\<lambda>_. x))),
      Json ''BatchSize'' ''batch_size'' (Number (\<lambda>x. BatchSize_update (\<lambda>_. x))),
      Json ''MaxAttempts'' ''max_attempts'' (Number (\<lambda>x. MaxAttempts_update (\<lambda>_. x))),
      Json ''BackoffBase'' ''backoff_base'' (Period (\<lambda>x. dc_base_update (\<lambda>_. x))),
      Json ''BackoffMax'' ''backoff_max'' (Period (\<lambda>x. dc_max_update (\<lambda>_. x))),
      Json ''Timeout'' ''timeout'' (Period (\<lambda>x. dc_timeout_update (\<lambda>_. x)))]"

definition LoadConfig_dispatcher :: "reader \<Rightarrow> config \<Rightarrow> load_error + dispatcher_config" where
  "LoadConfig_dispatcher rd c = read_section rd dispatcher_fields c ''webhook'' dispatcher_defaults"

definition outbox_cleaner_fields :: "outbox_cleaner_config json_field list" where
  "outbox_cleaner_fields =
     [Json ''Interval'' ''cleanup_interval'' (Period (\<lambda>x. oc_interval_update (\<lambda>_. x))),
      Json ''Retention'' ''retention'' (Period (\<lambda>x. oc_retention_update (\<lambda>_. x))),
      Json ''MaxAge'' ''max_age'' (Period (\<lambda>x. oc_max_age_update (\<lambda>_. x)))]"

definition LoadConfig_outbox_cleaner :: "reader \<Rightarrow> config \<Rightarrow> load_error + outbox_cleaner_config" where
  "LoadConfig_outbox_cleaner rd c = read_section rd outbox_cleaner_fields c ''outbox'' outbox_cleaner_defaults"

section \<open>cmd\<close>

record app_config =
  Addr :: string
  ENV :: string
  AdminAddr :: string

definition app_fields :: "app_config json_field list" where
  "app_fields =
     [Json ''Addr'' ''addr'' (Text (\<lambda>x. Addr_update (\<lambda>_. x))),
      Json ''AdminAddr'' ''admin_addr'' (Text (\<lambda>x. AdminAddr_update (\<lambda>_. x)))]"

definition LoadConfig_app :: "reader \<Rightarrow> config \<Rightarrow> load_error + app_config" where
  "LoadConfig_app rd c =
     read_section rd app_fields c ''app'' \<lparr>Addr = '':8080'', ENV = Env c, AdminAddr = ''127.0.0.1:8081''\<rparr>"

end
