(* ===== verification/Initialize.thy ===== *)
theory Initialize
  imports Settings Lifecycle RoutesLaws
begin

text \<open>
  \<open>InitializeApp\<close> (\<open>cmd/wire_gen.go\<close>): from the path of the configuration file to an application that
  can run. Each provider in the order in which it is called, an error ends it. What is not under
  \<open>src/\<close> - the file system, the servers, the external libraries - is the host. Then what the
  settings of an application that was built are known to satisfy.
\<close>

section \<open>The host\<close>

record ('r, 's) platform =
  pf_wire :: "'s wire"
  pf_world :: "'r world"

record ('r, 's) host =
  ht_read :: "string \<Rightarrow> string option"
  ht_parse :: "string \<Rightarrow> (string \<times> (string \<times> json) list) option"
  ht_reader :: reader
  ht_logger :: "string \<Rightarrow> bool"
  ht_ext :: ext
  ht_server :: "'s dbms"
  ht_urls :: urls
  ht_redis_url :: "string \<Rightarrow> bool"
  ht_redis :: "'r redis"
  ht_url_parse :: "string \<Rightarrow> url_parts option"
  ht_network :: network
  ht_decoders :: decoders
  ht_no_route :: "http_request \<Rightarrow> payload response"
  ht_ping_pg :: "'r world \<Rightarrow> bool"
  ht_ping_redis :: "'r world \<Rightarrow> bool"
  ht_apply :: "bool \<Rightarrow> ('r, unit) io"

datatype init_error = BadFile config_error | BadSetting load_error | BadBackend db_error | BadSetup error

definition on_wire :: "('s wire, db_error, 'a) act \<Rightarrow> (('r, 's) platform, init_error, 'a) act" where
  "on_wire m p = (case m (pf_wire p) of (r, w) \<Rightarrow> (map_sum BadBackend (\<lambda>x. x) r, p\<lparr>pf_wire := w\<rparr>))"

definition on_world :: "('r, 'a) io \<Rightarrow> (('r, 's) platform, init_error, 'a) act" where
  "on_world m p = (case m (pf_world p) of (r, w) \<Rightarrow> (map_sum BadSetup (\<lambda>x. x) r, p\<lparr>pf_world := w\<rparr>))"

definition setting :: "load_error + 'a \<Rightarrow> ('s, init_error, 'a) act" where
  "setting r = map_err BadSetting (lift r)"

definition setup_step :: "error + 'a \<Rightarrow> ('s, init_error, 'a) act" where
  "setup_step r = map_err BadSetup (lift r)"

section \<open>InitializeApp\<close>

record 'r installation =
  in_server :: "'r server"
  in_wiring :: "'r wiring"
  in_app :: app_config

text \<open>
  The use cases share one \<open>app\<close>; the floor of the password length in it is the one registration reads.
  That the other readers of a setting see the same is shown in the theory \<open>Policy\<close>.
\<close>

definition InitializeApp :: "('r, 's) host \<Rightarrow> string \<Rightarrow> (('r, 's) platform, init_error, 'r installation) act" where
  "InitializeApp h path =
     (let rd = ht_reader h; frac = frac_of rd; e = ht_ext h; srv = ht_server h; up = ht_url_parse h in
      andthen (map_err BadFile (lift (Load path (ht_read h path) (ht_parse h)))) (\<lambda>c.
      andthen (if ht_logger h (Env c) then ret () else raise (BadSetup (Opaque ''logger''))) (\<lambda>_.
      andthen (setting (LoadConfig_realip rd c)) (\<lambda>realip.
      andthen (case New_resolver e realip of None \<Rightarrow> raise (BadSetup (Opaque ''realip'')) | Some r \<Rightarrow> ret r) (\<lambda>resolver.
      andthen (setting (LoadConfig_redis frac (unmarshal frac redis_fields) c)) (\<lambda>redis_url.
      andthen (on_wire (New_redis srv (ht_redis_url h) redis_url)) (\<lambda>_.
      andthen (setting (LoadConfig_ratelimit rd c)) (\<lambda>limits.
      andthen (setting (LoadConfig_token rd c)) (\<lambda>tok.
      andthen (setup_step (New_signer e tok)) (\<lambda>signer.
      andthen (setting (LoadConfig_postgres frac (unmarshal frac postgres_fields) c)) (\<lambda>db.
      andthen (on_wire (New_pool srv (ht_urls h) db)) (\<lambda>_.
      andthen (setting (LoadConfig_webhook rd c)) (\<lambda>wh.
      andthen (setting (LoadConfig_authcookie rd e c)) (\<lambda>ck.
      andthen (setting (LoadConfig_middleware rd c)) (\<lambda>mw.
      andthen (setting (LoadConfig_cors rd e up c)) (\<lambda>cors.
      andthen (setup_step (NewWithCookies e up cors ck)) (\<lambda>corsMiddleware.
      andthen (setting (LoadConfig_settings rd c)) (\<lambda>_.
      andthen (on_world (New_hasher e)) (\<lambda>hasher.
      andthen (setting (LoadConfig_auth_token rd c)) (\<lambda>failClosed.
      andthen (setting (LoadConfig_register rd c)) (\<lambda>reg.
      andthen (setting (LoadConfig_password_change rd c)) (\<lambda>_.
      andthen (setting (LoadConfig_user_create rd c)) (\<lambda>_.
      andthen (setting (LoadConfig_set_password rd c)) (\<lambda>_.
      andthen (setting (LoadConfig_dbschema frac (unmarshal frac dbschema_fields) c)) (\<lambda>autoSchema.
      andthen (setting (LoadConfig_seed_roles rd c)) (\<lambda>roles.
      andthen (setting (LoadConfig_seed_super_admin rd c)) (\<lambda>seed.
      andthen (setting (LoadConfig_audit_cleaner rd c)) (\<lambda>ac.
      andthen (setting (LoadConfig_session_cleaner rd c)) (\<lambda>si.
      andthen (setting (LoadConfig_dispatcher rd c)) (\<lambda>dc.
      andthen (setting (LoadConfig_outbox_cleaner rd c)) (\<lambda>oc.
      andthen (setting (LoadConfig_app rd c)) (\<lambda>app.
      let a = \<lparr>pg = \<lparr>env = e, emitEvents = Enabled_webhook wh\<rparr>, hashing = hasher, signing = signer,
           limiting = \<lparr>client = ht_redis h, rl_cfg = limits, lim_env = e\<rparr>, fail_closed = failClosed,
           min_password_len = reg_min_password_len reg, registration_mode = reg_mode reg, require_email = reg_require_email reg,
           reauth_window = mw_reauth_window mw, admin_token = mw_token mw, cookies = ck\<rparr>
      in ret \<lparr>in_server = \<lparr>srv_app = a, srv_resolver = resolver, srv_cors = corsMiddleware, srv_decode = ht_decoders h,
           srv_no_route = ht_no_route h, srv_ping_pg = ht_ping_pg h, srv_ping_redis = ht_ping_redis h\<rparr>,
           in_wiring = NewApp a (ht_network h) ac si wh dc oc (ht_apply h autoSchema) roles seed,
           in_app = app\<rparr>))))))))))))))))))))))))))))))))"

section \<open>What a result says\<close>

text \<open>\<open>yields m Q\<close>: every result of \<open>m\<close> satisfies \<open>Q\<close>.\<close>

definition yields :: "('s, 'e, 'a) act \<Rightarrow> ('a \<Rightarrow> bool) \<Rightarrow> bool" where
  "yields m Q \<longleftrightarrow> (\<forall>s x t. m s = (Inr x, t) \<longrightarrow> Q x)"

named_theorems yields_rules "introduction rules for yields"

lemma yields_andthen [yields_rules]: "yields m P \<Longrightarrow> (\<And>x. P x \<Longrightarrow> yields (k x) Q) \<Longrightarrow> yields (andthen m k) Q"
  unfolding yields_def andthen_Inr by blast

lemma yields_ret: "Q x \<Longrightarrow> yields (ret x) Q"
  by (simp add: yields_def)

lemma yields_known [yields_rules]:
  "yields (lift r) (\<lambda>x. r = Inr x)" "yields (setting r') (\<lambda>x. r' = Inr x)" "yields (setup_step r'') (\<lambda>x. r'' = Inr x)"
  "yields (map_err f (lift r)) (\<lambda>x. r = Inr x)"
  by (auto simp: yields_def setting_def setup_step_def map_err_Inr)

lemma yields_on_wire [yields_rules]: "yields (on_wire m) (\<lambda>_. True)"
  by (simp add: yields_def)

lemma yields_on_world: "yields m Q \<Longrightarrow> yields (on_world m) Q"
  unfolding yields_def on_world_def
proof (intro allI impI)
  fix s :: "('a, 'c) platform" and x t
  assume "\<forall>s x t. m s = (Inr x, t) \<longrightarrow> Q x" "(case m (pf_world s) of (r, w) \<Rightarrow> (map_sum BadSetup (\<lambda>x. x) r, s\<lparr>pf_world := w\<rparr>)) = (Inr x, t)"
  then show "Q x" by (cases "m (pf_world s)"; cases "fst (m (pf_world s))") auto
qed

lemma yields_hasher [yields_rules]: "yields (on_world (New_hasher e)) (\<lambda>hs. hp hs = DefaultParams)"
  by (rule yields_on_world) (auto simp: New_hasher_def yields_def andthen_Inr)

lemma yields_choice [yields_rules]:
  "yields (if b then ret () else raise x) (\<lambda>_. True)" "yields (case r of None \<Rightarrow> raise x | Some y \<Rightarrow> ret y) (\<lambda>y. r = Some y)"
  by (auto simp: yields_def split: option.splits)

section \<open>What each setting guarantees\<close>

lemma set_members_keep:
  assumes "set_members frac fs kvs d = Some d'" "P d" "\<And>f v d d'. f \<in> set fs \<Longrightarrow> set_slot frac (slot f) v d = Some d' \<Longrightarrow> P d \<Longrightarrow> P d'"
  shows "P d'"
  using assms(1,2)
proof (induction kvs arbitrary: d)
  case (Cons kv kvs)
  then obtain d1 where d1: "set_member frac fs kv d = Some d1" "set_members frac fs kvs d1 = Some d'"
    by (auto simp: bind_eq_Some_conv)
  have "P d1" using d1(1) Cons.prems(2) assms(3)
    by (auto simp: set_member_def find_Some_iff in_set_conv_nth split: option.splits) (metis nth_mem)
  with Cons.IH d1(2) show ?case by blast
qed simp

lemma read_section_keep:
  assumes "read_section rd fs c name d = Inr d'" "P d"
    and "\<And>f v d d'. f \<in> set fs \<Longrightarrow> set_slot (frac_of rd) (slot f) v d = Some d' \<Longrightarrow> P d \<Longrightarrow> P d'"
  shows "P d'"
  using assms(1,2) set_members_keep [of "frac_of rd" fs _ d d' P, OF _ assms(2,3)]
  by (auto simp: read_section_def load_section_def Section_def unmarshal_def split: option.splits sum.splits json.splits)

definition limits_enforced :: "ratelimit_config \<Rightarrow> bool" where
  "limits_enforced l \<longleftrightarrow> Enabled (LoginIP l) \<and> Enabled (LoginPair l) \<and> Enabled (ratelimit_config.Register l)"

lemma ratelimit_enforced:
  assumes "LoadConfig_ratelimit rd c = Inr l"
  shows "limits_enforced l"
  using assms unfolding LoadConfig_ratelimit_def
proof (rule read_section_keep)
  show "limits_enforced ratelimit_defaults"
    by (simp add: limits_enforced_def ratelimit_defaults_def Enabled_def Minute_def Hour_def Second_def)
  fix f v d d'
  assume "f \<in> set ratelimit_fields" "set_slot (frac_of rd) (slot f) v d = Some d'" "limits_enforced d"
  then show "limits_enforced d'"
    by (auto simp: ratelimit_fields_def set_slot_def limits_enforced_def split: json.splits)
      (blast intro: configured_rule_enforced)+
qed

lemma register_mode: "LoadConfig_register rd c = Inr reg \<Longrightarrow> reg_mode reg \<in> {ModeClosed, ModeOpen}"
  by (auto simp: LoadConfig_register_def split: sum.splits if_splits)

lemma cookie_same_site: "LoadConfig_authcookie rd e c = Inr ck \<Longrightarrow> cookies_same_site ck \<in> {''strict'', ''lax''}"
  by (auto simp: LoadConfig_authcookie_def Let_def split: sum.splits if_splits)

lemma signer_key: "New_signer e tok = Inr sg \<Longrightarrow> sg_cfg sg = tok \<and> decodeKey (PrivateKey tok) 32 = Inr (sg_priv sg)"
  by (auto simp: New_signer_def Let_def split: sum.splits)

lemma cors_with_cookies:
  "NewWithCookies e up cfg ck = Inr m \<Longrightarrow> credentials m = cookies_enabled ck \<and> \<not> (credentials m \<and> cors_any m)"
  by (auto simp: NewWithCookies_def New_cors_def split: sum.splits if_splits)

lemma resolver_header: "New_resolver e cfg = Some r \<Longrightarrow> trusted r = [] \<Longrightarrow> ip_header r = []"
  by (auto simp: New_resolver_def Let_def CanonicalHeaderKey_def split: option.splits if_splits)

definition seed_valid :: "role_seed \<Rightarrow> bool" where
  "seed_valid r \<longleftrightarrow> rs_name r \<in> set builtinNames \<or>
     ValidRoleName (rs_name r) \<and> ValidCustomRank (rs_rank r) \<and> ValidatePermissions (rs_permissions r) = Inr ()"

lemma check_seeds_valid: "check_seeds rs = Inr u \<Longrightarrow> list_all seed_valid rs"
  by (induction rs rule: check_seeds.induct) (auto simp: seed_valid_def split: if_splits sum.splits)

lemma seed_roles_valid: "LoadConfig_seed_roles rd c = Inr rs \<Longrightarrow> list_all seed_valid rs"
  by (auto simp: LoadConfig_seed_roles_def dest: check_seeds_valid split: sum.splits)

section \<open>An application that was built\<close>

definition well_set :: "'r installation \<Rightarrow> bool" where
  "well_set i \<longleftrightarrow>
     (let s = in_server i; a = srv_app s; c = in_wiring i in
      registration_mode a \<in> {ModeClosed, ModeOpen} \<and>
      cookies_same_site (cookies a) \<in> {''strict'', ''lax''} \<and>
      credentials (srv_cors s) = cookies_enabled (cookies a) \<and> \<not> (credentials (srv_cors s) \<and> cors_any (srv_cors s)) \<and>
      limits_enforced (rl_cfg (limiting a)) \<and>
      decodeKey (PrivateKey (sg_cfg (signing a))) 32 = Inr (sg_priv (signing a)) \<and>
      params_ok (hp (hashing a)) \<and>
      (trusted (srv_resolver s) = [] \<longrightarrow> ip_header (srv_resolver s) = []) \<and>
      list_all seed_valid (role_seeds c) \<and>
      the_app c = a \<and> admin_enabled c = (serve_private s \<noteq> None))"

text \<open>
  C34. An application that was built is well set. Whatever the configuration file says, if
  \<open>InitializeApp\<close> succeeds then registration is open or closed and nothing else, cookies are sent
  strict or lax, credentials go with cookies and never with the wildcard origin, all three rate limits
  are enforced, the signing key is a seed of 32 bytes, password hashing runs with costs it can work
  with, no forwarding header is read without a trusted proxy, every seeded role is valid, and the
  private listener runs exactly if it has a token.
\<close>

theorem installation_well_set:
  assumes "InitializeApp h path p = (Inr i, p')"
  shows "well_set i"
proof -
  have ok: "params_ok DefaultParams" by (simp add: params_ok_def params_fit_def DefaultParams_def)
  have "yields (InitializeApp h path) well_set"
    unfolding InitializeApp_def Let_def
    apply (rule yields_rules)+
    apply (rule yields_ret)
    apply (simp add: well_set_def NewApp_def serve_private_def ok)
    apply (intro conjI)
    subgoal by (drule register_mode) simp
    subgoal by (drule cookie_same_site) simp
    subgoal by (drule cors_with_cookies) simp
    subgoal by (drule cors_with_cookies) blast
    subgoal by (erule ratelimit_enforced)
    subgoal by (drule signer_key) simp
    subgoal by (blast intro: resolver_header)
    subgoal by (erule seed_roles_valid)
    done
  with assms show ?thesis unfolding yields_def by blast
qed

section \<open>A concrete host\<close>

definition sample_sections :: "(string \<times> json) list" where
  "sample_sections =
     [(''token'', JObject [(''private_key'', JString (replicate 43 (CHR ''A'') @ ''='')), (''Issuer'', JString ''panel''),
        (''access_ttl'', JNumber ''60'')]),
      (''db'', JObject [(''url'', JString ''postgres://h/goauth'')]),
      (''redis'', JObject [(''url'', JString ''redis://h'')]),
      (''auth'', JObject [(''registration_mode'', JString ''open''), (''min_password_len'', JNumber ''14'')]),
      (''seed'', JObject [(''roles'', JArray [JObject [(''name'', JString ''support''), (''rank'', JNumber ''20''),
        (''permissions'', JArray [JString ''users:read''])]])]),
      (''ratelimit'', JObject [(''fail_closed'', JBool False)])]"

definition plain_reader :: reader where "plain_reader = \<lparr>frac_of = exact_fraction, walk = (\<lambda>ks. ks)\<rparr>"

text \<open>Its database does not exist yet: it is created on the way.\<close>

definition sample_host :: "(unit, bool) host" where
  "sample_host =
     \<lparr>ht_read = (\<lambda>_. Some []), ht_parse = (\<lambda>_. Some (''production'', sample_sections)), ht_reader = plain_reader,
      ht_logger = (\<lambda>_. True), ht_ext = sample_env, ht_server = bare_server, ht_urls = plain_urls, ht_redis_url = (\<lambda>_. True),
      ht_redis = forgetful_redis, ht_url_parse = (\<lambda>_. None), ht_network = silent_network, ht_decoders = srv_decode sample_server,
      ht_no_route = srv_no_route sample_server, ht_ping_pg = (\<lambda>_. True), ht_ping_redis = (\<lambda>_. True), ht_apply = (\<lambda>_. ret ())\<rparr>"

definition fresh_platform :: "(unit, bool) platform" where
  "fresh_platform = \<lparr>pf_wire = bare, pf_world = sample_world\<rparr>"

lemma sample_built:
  "case fst (InitializeApp sample_host ''config.json'' fresh_platform) of Inl _ \<Rightarrow> False
   | Inr i \<Rightarrow> min_password_len (srv_app (in_server i)) = 14 \<and> length (role_seeds (in_wiring i)) = 1"
  by code_simp

theorem installation_well_set_witness:
  "\<exists>i p'. InitializeApp sample_host ''config.json'' fresh_platform = (Inr i, p') \<and> well_set i \<and>
     min_password_len (srv_app (in_server i)) = 14"
proof -
  obtain i p' where i: "InitializeApp sample_host ''config.json'' fresh_platform = (Inr i, p')"
    using sample_built by (cases "InitializeApp sample_host ''config.json'' fresh_platform") (auto split: sum.splits)
  with installation_well_set [OF i] sample_built show ?thesis by auto
qed

end
