(* ===== verification/Policy.thy ===== *)
theory Policy
  imports Initialize
begin

text \<open>
  Several packages read the same setting for themselves. Here they are shown to read the same value.
\<close>

section \<open>Two structs over one section\<close>

text \<open>A struct whose field follows a field of another struct.\<close>

definition follows :: "fraction \<Rightarrow> 'c json_field list \<Rightarrow> ('c \<Rightarrow> 'd) \<Rightarrow> 'd json_field list \<Rightarrow> bool" where
  "follows frac fs view gs \<longleftrightarrow>
     (\<forall>kv d d'. set_member frac fs kv d = Some d' \<longrightarrow> set_member frac gs kv (view d) = Some (view d'))"

lemma follows_members:
  "follows frac fs view gs \<Longrightarrow> set_members frac fs kvs d = Some d' \<Longrightarrow> set_members frac gs kvs (view d) = Some (view d')"
proof (induction kvs arbitrary: d)
  case (Cons kv kvs)
  then obtain d1 where "set_member frac fs kv d = Some d1" "set_members frac fs kvs d1 = Some d'"
    by (auto simp: bind_eq_Some_conv)
  moreover from this(1) Cons.prems(1) have "set_member frac gs kv (view d) = Some (view d1)" unfolding follows_def by blast
  ultimately show ?case using Cons by simp
qed simp

lemma follows_unmarshal:
  "follows frac fs view gs \<Longrightarrow> unmarshal frac fs j d = Inr d' \<Longrightarrow> unmarshal frac gs j (view d) = Inr (view d')"
  using follows_members by (auto simp: unmarshal_def split: json.splits option.splits) fastforce+

text \<open>The keys of a map come in some order, and all of them come.\<close>

definition fair :: "reader \<Rightarrow> bool" where
  "fair rd \<longleftrightarrow> (\<forall>ks. set (walk rd ks) = set ks)"

lemma walk_Nil: "fair rd \<Longrightarrow> walk rd [] = []"
  by (metis empty_set fair_def set_empty)

text \<open>Where neither struct has a duration, both see the section as it stands.\<close>

lemma read_follows:
  assumes "read_section rd fs c name d = Inr d'" "follows (frac_of rd) fs view gs" "fair rd"
    and "durationKeys (struct_type fs) = []" "durationKeys (struct_type gs) = []"
  shows "read_section rd gs c name (view d) = Inr (view d')"
  using assms follows_unmarshal [OF assms(2)]
  by (auto simp: read_section_def load_section_def Section_def walk_Nil split: option.splits sum.splits)

section \<open>A section that was normalised for one of them\<close>

text \<open>No two keys of the section are the same up to case.\<close>

definition plain_keys :: "config \<Rightarrow> string \<Rightarrow> bool" where
  "plain_keys c name \<longleftrightarrow> (\<forall>kvs. member name (sections c) = Some (JObject kvs) \<longrightarrow> distinct (map (fold_key \<circ> fst) kvs))"

abbreviation matches :: "'c json_field \<Rightarrow> string \<times> json \<Rightarrow> bool" where
  "matches f kv \<equiv> fold_key (json_key f) = fold_key (fst kv)"

lemma set_members_unmatched: "\<forall>kv\<in>set kvs. \<not> matches f kv \<Longrightarrow> set_members frac [f] kvs d = Some d"
  by (induction kvs) (auto simp: set_member_def)

lemma set_members_one:
  "distinct (map (fold_key \<circ> fst) kvs) \<Longrightarrow> set_members frac [f] kvs d =
     (case find (matches f) kvs of None \<Rightarrow> Some d | Some kv \<Rightarrow> set_slot frac (slot f) (snd kv) d)"
proof (induction kvs)
  case (Cons kv kvs)
  show ?case
  proof (cases "matches f kv")
    case True
    with Cons.prems have "\<forall>kv\<in>set kvs. \<not> matches f kv" by (auto simp: rev_image_eqI)
    then have "set_members frac [f] kvs d1 = Some d1" for d1 by (rule set_members_unmatched)
    with True show ?thesis by (cases "set_slot frac (slot f) (snd kv) d") (simp_all add: set_member_def)
  next
    case False
    with Cons show ?thesis by (simp add: set_member_def)
  qed
qed simp

lemma normalizePath_members:
  assumes "normalizePath frac (JObject kvs) p = Some j" "p \<noteq> []" "distinct (map fst kvs)"
  shows "\<exists>kvs'. j = JObject kvs' \<and> distinct (map fst kvs') \<and> fst ` set kvs' = fst ` set kvs \<and>
    (\<forall>k v. k \<noteq> hd p \<longrightarrow> ((k, v) \<in> set kvs' \<longleftrightarrow> (k, v) \<in> set kvs))"
proof -
  obtain seg segs where p: "p = seg # segs" using assms(2) by (cases p) auto
  consider "j = JObject kvs" | c where "j = JObject (marshal (put_member seg c kvs))"
    using assms(1) p by (auto split: option.splits if_splits)
  then show ?thesis
  proof cases
    case 2
    have d: "distinct (map fst (put_member seg c kvs))" using assms(3) by (simp add: keys_put)
    have "(k, v) \<in> set (put_member seg c kvs) \<longleftrightarrow> (k, v) \<in> set kvs" if "k \<noteq> seg" for k v
      using that by (force simp: put_member_def)
    moreover have "fst ` set (put_member seg c kvs) = fst ` set kvs"
      using arg_cong [OF keys_put [of seg c kvs], of set] by simp
    ultimately show ?thesis using 2 p set_marshal [OF d] by auto
  qed (use assms(3) in auto)
qed

lemma normalizeDurations_members:
  assumes "normalizeDurations frac paths (JObject kvs) = Inr j" "distinct (map fst kvs)"
  shows "\<exists>kvs'. j = JObject kvs' \<and> distinct (map fst kvs') \<and> fst ` set kvs' = fst ` set kvs \<and>
    (\<forall>k v. (\<forall>p\<in>set paths. k \<noteq> hd (Split (CHR ''.'') p)) \<longrightarrow> ((k, v) \<in> set kvs' \<longleftrightarrow> (k, v) \<in> set kvs))"
  using assms
proof (induction paths arbitrary: kvs)
  case (Cons p paths)
  then obtain j1 where j1: "normalizePath frac (JObject kvs) (Split (CHR ''.'') p) = Some j1"
    "normalizeDurations frac paths j1 = Inr j" by (auto split: option.splits)
  from normalizePath_members [OF j1(1) Split_nonempty Cons.prems(2)] obtain k1 where k1: "j1 = JObject k1" "distinct (map fst k1)"
    "fst ` set k1 = fst ` set kvs" "\<forall>k v. k \<noteq> hd (Split (CHR ''.'') p) \<longrightarrow> ((k, v) \<in> set k1 \<longleftrightarrow> (k, v) \<in> set kvs)"
    by auto
  with Cons.IH [of k1] j1(2) show ?case by auto
qed auto

lemma normalizeDurations_other: "(\<And>kvs. raw \<noteq> JObject kvs) \<Longrightarrow> normalizeDurations frac paths raw = Inr raw"
proof (induction paths)
  case (Cons p paths)
  have "normalizePath frac raw (Split (CHR ''.'') p) = Some raw"
    using Cons.prems by (cases "Split (CHR ''.'') p"; cases raw) (auto simp: Split_nonempty)
  with Cons show ?case by simp
qed simp

lemma find_match_unique:
  assumes "distinct (map (fold_key \<circ> fst) xs)" "distinct (map fst ys)" "fst ` set ys = fst ` set xs"
    and "\<And>k v. fold_key (json_key f) = fold_key k \<Longrightarrow> (k, v) \<in> set ys \<longleftrightarrow> (k, v) \<in> set xs"
  shows "find (matches f) ys = find (matches f) xs"
proof (cases "find (matches f) xs")
  case None
  then have "\<not> matches f kv" if "kv \<in> set xs" for kv using that unfolding find_None_iff by blast
  moreover have "\<exists>v. (fst kv, v) \<in> set xs" if "kv \<in> set ys" for kv
    using that assms(3) by (metis fst_conv image_iff prod.collapse)
  ultimately have "\<forall>kv\<in>set ys. \<not> matches f kv" by fastforce
  then have "find (matches f) ys = None" unfolding find_None_iff by blast
  with None show ?thesis by simp
next
  case (Some kv)
  then have kv: "kv \<in> set xs" "matches f kv" by (auto simp: find_Some_iff)
  have one: "y = kv" if "y \<in> set xs" "matches f y" for y
    using assms(1) kv that by (auto simp: distinct_map inj_on_def)
  have "y = kv" if "find (matches f) ys = Some y" for y
  proof -
    from that have "y \<in> set ys" "matches f y" by (auto simp: find_Some_iff)
    with one [of y] assms(4) [of "fst y" "snd y"] show ?thesis by simp
  qed
  moreover have "find (matches f) ys \<noteq> None"
    using kv assms(4) [of "fst kv" "snd kv"] unfolding find_None_iff by (metis prod.collapse)
  ultimately show ?thesis using Some by auto
qed

text \<open>One field, read from the section as it stands, against the field of a struct that has durations.\<close>

lemma read_one:
  assumes "read_section rd fs c name d = Inr d'" "follows (frac_of rd) fs view [g]" "fair rd" "plain_keys c name"
    and "durationKeys (struct_type [g]) = []"
    and "\<forall>p\<in>set (durationKeys (struct_type fs)). fold_key (hd (Split (CHR ''.'') p)) \<noteq> fold_key (json_key g)"
  shows "read_section rd [g] c name (view d) = Inr (view d')"
proof (cases "member name (sections c)")
  case None
  with assms(1) show ?thesis by (simp add: read_section_def load_section_def Section_def)
next
  case (Some raw)
  let ?paths = "walk rd (durationKeys (struct_type fs))"
  from assms(1) Some obtain raw' where n: "normalizeDurations (frac_of rd) ?paths raw = Inr raw'"
    and u: "unmarshal (frac_of rd) fs raw' d = Inr d'"
    by (auto simp: read_section_def load_section_def Section_def split: sum.splits)
  from follows_unmarshal [OF assms(2) u] have u': "unmarshal (frac_of rd) [g] raw' (view d) = Inr (view d')" .
  have "unmarshal (frac_of rd) [g] raw (view d) = Inr (view d')"
  proof (cases "\<exists>kvs. raw = JObject kvs")
    case True
    then obtain kvs where raw: "raw = JObject kvs" by blast
    with assms(4) Some have plain: "distinct (map (fold_key \<circ> fst) kvs)" by (simp add: plain_keys_def)
    then have inj: "distinct (map fst kvs)" "inj_on fold_key (fst ` set kvs)"
      unfolding map_map [symmetric] distinct_map [of fold_key] by simp_all
    from normalizeDurations_members [OF n [unfolded raw] inj(1)] obtain kvs' where k: "raw' = JObject kvs'"
      "distinct (map fst kvs')" "fst ` set kvs' = fst ` set kvs"
      "\<forall>k v. (\<forall>p\<in>set ?paths. k \<noteq> hd (Split (CHR ''.'') p)) \<longrightarrow> ((k, v) \<in> set kvs' \<longleftrightarrow> (k, v) \<in> set kvs)" by blast
    have "(k, v) \<in> set kvs' \<longleftrightarrow> (k, v) \<in> set kvs" if "fold_key (json_key g) = fold_key k" for k v
      using k(4) that assms(3,6) by (metis fair_def)
    from find_match_unique [OF plain k(2,3) this] have f: "find (matches g) kvs' = find (matches g) kvs" .
    have plain': "distinct (map (fold_key \<circ> fst) kvs')"
      unfolding map_map [symmetric] distinct_map [of fold_key] using inj(2) k(2,3) by simp
    have "set_members (frac_of rd) [g] kvs (view d) = set_members (frac_of rd) [g] kvs' (view d)"
      unfolding set_members_one [OF plain] set_members_one [OF plain'] f ..
    with u' raw k(1) show ?thesis by (simp add: unmarshal_def)
  next
    case False
    with normalizeDurations_other n have "raw' = raw" by fastforce
    with u' show ?thesis by simp
  qed
  with Some assms(3,5) show ?thesis by (simp add: read_section_def load_section_def Section_def walk_Nil)
qed


text \<open>
  The contract of a setting that two packages read: the second struct follows the first and has no
  duration; where the first has durations, the second is a single field whose key none of them has.
\<close>

locale same_setting =
  fixes fs :: "'c json_field list" and view :: "'c \<Rightarrow> 'd" and gs :: "'d json_field list"
  assumes along: "follows frac fs view gs"
    and plain: "durationKeys (struct_type gs) = []"
begin

lemma sees:
  assumes "read_section rd fs c name d = Inr d'" "fair rd" "durationKeys (struct_type fs) = []"
  shows "read_section rd gs c name (view d) = Inr (view d')"
  using read_follows [OF assms(1) along assms(2,3) plain] .

end

locale one_setting = same_setting fs view "[g]" for fs :: "'c json_field list" and view :: "'c \<Rightarrow> 'd" and g +
  assumes apart: "\<forall>p\<in>set (durationKeys (struct_type fs)). fold_key (hd (Split (CHR ''.'') p)) \<noteq> fold_key (json_key g)"
begin

lemma sees_normalised:
  assumes "read_section rd fs c name d = Inr d'" "fair rd" "plain_keys c name"
  shows "read_section rd [g] c name (view d) = Inr (view d')"
  using read_one [OF assms(1) along assms(2,3) plain apart] .

end

section \<open>The settings that several packages read\<close>

lemma folded:
  "fold_key ''registration_mode'' = ''registration_mode''" "fold_key ''min_password_len'' = ''min_password_len''"
  "fold_key ''registration_require_email'' = ''registration_require_email''" "fold_key ''private_key'' = ''private_key''"
  "fold_key ''previous_public_keys'' = ''previous_public_keys''" "fold_key ''issuer'' = ''issuer''"
  "fold_key ''audience'' = ''audience''" "fold_key ''access_ttl'' = ''access_ttl''" "fold_key ''refresh_ttl'' = ''refresh_ttl''"
  "fold_key ''key_prefix'' = ''key_prefix''" "fold_key ''login_ip'' = ''login_ip''" "fold_key ''login_pair'' = ''login_pair''"
  "fold_key ''register'' = ''register''" "fold_key ''backoff_after'' = ''backoff_after''" "fold_key ''backoff_base'' = ''backoff_base''"
  "fold_key ''backoff_max'' = ''backoff_max''" "fold_key ''failure_window'' = ''failure_window''"
  "fold_key ''fail_closed'' = ''fail_closed''"
  by code_simp+

lemma followsI:
  assumes "\<And>q v d d'. (case find (\<lambda>f. fold_key (json_key f) = q) fs of None \<Rightarrow> Some d | Some f \<Rightarrow> set_slot frac (slot f) v d) = Some d' \<Longrightarrow>
    (case find (\<lambda>g. fold_key (json_key g) = q) gs of None \<Rightarrow> Some (view d) | Some g \<Rightarrow> set_slot frac (slot g) v (view d)) = Some (view d')"
  shows "follows frac fs view gs"
  using assms unfolding follows_def set_member_def by blast

text \<open>One field follows a struct that has it too.\<close>

lemma follows_oneI:
  assumes "f0 \<in> set fs" "fold_key (json_key f0) = fold_key (json_key g)"
    and "\<And>f v d d'. f \<in> set fs \<Longrightarrow> set_slot frac (slot f) v d = Some d' \<Longrightarrow>
      if fold_key (json_key f) = fold_key (json_key g) then set_slot frac (slot g) v (view d) = Some (view d') else view d' = view d"
  shows "follows frac fs view [g]"
proof (rule followsI)
  fix q v d d'
  assume s: "(case find (\<lambda>f. fold_key (json_key f) = q) fs of None \<Rightarrow> Some d | Some f \<Rightarrow> set_slot frac (slot f) v d) = Some d'"
  show "(case find (\<lambda>g. fold_key (json_key g) = q) [g] of None \<Rightarrow> Some (view d) | Some g \<Rightarrow> set_slot frac (slot g) v (view d)) = Some (view d')"
  proof (cases "find (\<lambda>f. fold_key (json_key f) = q) fs")
    case None
    with assms(1,2) have "fold_key (json_key g) \<noteq> q" unfolding find_None_iff by metis
    with None s show ?thesis by simp
  next
    case (Some f)
    then have f: "f \<in> set fs" "fold_key (json_key f) = q" by (auto simp: find_Some_iff)
    from Some s have "set_slot frac (slot f) v d = Some d'" by simp
    from assms(3) [OF f(1) this] f(2) show ?thesis by (auto split: if_splits)
  qed
qed

lemmas member_simps = json_key_def folded set_slot_def

lemma follows_floor: "follows frac register_fields reg_min_password_len floor_fields"
  unfolding floor_fields_def
  by (rule follows_oneI [of "register_fields ! 1"]) (auto simp: member_simps register_fields_def split: json.splits)

lemma follows_settings:
  "follows frac register_fields (\<lambda>r. \<lparr>set_mode = reg_mode r, set_min_password_len = reg_min_password_len r, set_issuer = i\<rparr>) settings_fields"
proof (rule followsI)
  fix q v d d'
  assume s: "(case find (\<lambda>f. fold_key (json_key f) = q) register_fields of None \<Rightarrow> Some d | Some f \<Rightarrow> set_slot frac (slot f) v d) = Some d'"
  consider "q = ''registration_mode''" | "q = ''min_password_len''" | "q = ''registration_require_email''"
    | "''registration_mode'' \<noteq> q" "''min_password_len'' \<noteq> q" "''registration_require_email'' \<noteq> q" by blast
  then show "(case find (\<lambda>g. fold_key (json_key g) = q) settings_fields of None \<Rightarrow> Some \<lparr>set_mode = reg_mode d, set_min_password_len = reg_min_password_len d, set_issuer = i\<rparr>
      | Some g \<Rightarrow> set_slot frac (slot g) v \<lparr>set_mode = reg_mode d, set_min_password_len = reg_min_password_len d, set_issuer = i\<rparr>)
    = Some \<lparr>set_mode = reg_mode d', set_min_password_len = reg_min_password_len d', set_issuer = i\<rparr>"
    by cases (use s in \<open>auto simp: member_simps register_fields_def settings_fields_def split: json.splits\<close>)
qed

lemma follows_issuer: "follows frac token_fields Issuer issuer_fields"
  unfolding issuer_fields_def
  by (rule follows_oneI [of "token_fields ! 2"]) (auto simp: member_simps token_fields_def split: json.splits)

abbreviation fail_closed_fields :: "bool json_field list" where
  "fail_closed_fields \<equiv> [Json ''FailClosed'' ''fail_closed'' (Switch (\<lambda>b _. b))]"

lemma follows_fail_closed: "follows frac ratelimit_fields rl_FailClosed fail_closed_fields"
  by (rule follows_oneI [of "ratelimit_fields ! 8"]) (auto simp: member_simps ratelimit_fields_def split: json.splits)

lemmas key_simps = durationKeys.simps struct_type_def struct_of_def go_type_def tag_name_def

lemma no_durations:
  "durationKeys (struct_type register_fields) = []" "durationKeys (struct_type floor_fields) = []"
  "durationKeys (struct_type settings_fields) = []" "durationKeys (struct_type issuer_fields) = []"
  "durationKeys (struct_type fail_closed_fields) = []"
  by (simp_all add: key_simps register_fields_def floor_fields_def settings_fields_def issuer_fields_def)

lemma token_durations: "durationKeys (struct_type token_fields) = [''access_ttl'', ''refresh_ttl'']"
  by (simp add: key_simps token_fields_def)

lemma ratelimit_durations: "durationKeys (struct_type ratelimit_fields) =
    [''login_ip.Window'', ''login_pair.Window'', ''register.Window'', ''backoff_base'', ''backoff_max'', ''failure_window'']"
  by (simp add: key_simps ratelimit_fields_def)

interpretation password_floor: same_setting register_fields reg_min_password_len floor_fields
  by unfold_locales (rule follows_floor no_durations)+

interpretation public_settings: same_setting register_fields
    "\<lambda>r. \<lparr>set_mode = reg_mode r, set_min_password_len = reg_min_password_len r, set_issuer = i\<rparr>" settings_fields for i
  by unfold_locales (rule follows_settings no_durations)+

interpretation issuer: one_setting token_fields Issuer "Json ''Issuer'' ''issuer'' (Text (\<lambda>s _. s))"
  using follows_issuer no_durations(4) unfolding issuer_fields_def
  by unfold_locales (simp_all add: token_durations json_key_def folded)

interpretation fail_closed: one_setting ratelimit_fields rl_FailClosed "Json ''FailClosed'' ''fail_closed'' (Switch (\<lambda>b _. b))"
  using follows_fail_closed no_durations(5)
  by unfold_locales (simp_all add: ratelimit_durations json_key_def folded)

text \<open>
  C35. One policy, one place. Every package that decides about passwords reads the same minimum length,
  the public settings show the registration mode, the minimum length and the issuer that the service
  works with, and both parts that react to a dead Redis agree on whether to refuse - each from its own
  struct, in any order of the keys, as long as no section gives a key in two spellings.
\<close>

theorem one_policy:
  assumes "fair rd" "plain_keys c ''token''" "plain_keys c ''ratelimit''"
    and "LoadConfig_register rd c = Inr reg" "LoadConfig_token rd c = Inr tok" "LoadConfig_ratelimit rd c = Inr limits"
  shows "LoadConfig_password_change rd c = Inr (reg_min_password_len reg) \<and>
    LoadConfig_user_create rd c = Inr (reg_min_password_len reg) \<and>
    LoadConfig_set_password rd c = Inr (reg_min_password_len reg) \<and>
    (\<forall>seed. LoadConfig_seed_super_admin rd c = Inr seed \<longrightarrow> sc_min_password_len seed = reg_min_password_len reg) \<and>
    LoadConfig_settings rd c =
      Inr \<lparr>set_mode = reg_mode reg, set_min_password_len = reg_min_password_len reg, set_issuer = Issuer tok\<rparr> \<and>
    LoadConfig_auth_token rd c = Inr (rl_FailClosed limits)"
proof -
  let ?d = "\<lparr>reg_mode = ModeClosed, reg_min_password_len = 12, reg_require_email = False\<rparr>"
  have reg: "read_section rd register_fields c ''auth'' ?d = Inr reg"
    using assms(4) by (auto simp: LoadConfig_register_def split: sum.splits if_splits)
  have tok: "read_section rd token_fields c ''token'' token_defaults = Inr tok"
    using assms(5) by (auto simp: LoadConfig_token_def split: sum.splits if_splits)
  have "read_section rd floor_fields c ''auth'' 12 = Inr (reg_min_password_len reg)"
    using password_floor.sees [OF reg assms(1) no_durations(1)] by simp
  moreover have "read_section rd settings_fields c ''auth'' \<lparr>set_mode = ''closed'', set_min_password_len = 12, set_issuer = ''goauth''\<rparr>
      = Inr \<lparr>set_mode = reg_mode reg, set_min_password_len = reg_min_password_len reg, set_issuer = ''goauth''\<rparr>"
    using public_settings.sees [OF reg assms(1) no_durations(1)] by (simp add: ModeClosed_def)
  moreover have "read_section rd issuer_fields c ''token'' ''goauth'' = Inr (Issuer tok)"
    using issuer.sees_normalised [OF tok assms(1,2)] by (simp add: issuer_fields_def token_defaults_def)
  moreover have "LoadConfig_auth_token rd c = Inr (rl_FailClosed limits)"
    using fail_closed.sees_normalised [OF assms(6) [unfolded LoadConfig_ratelimit_def] assms(1,3)]
    by (simp add: LoadConfig_auth_token_def ratelimit_defaults_def)
  moreover have "sc_min_password_len s = 12" if "read_section rd seed_fields c ''seed''
      \<lparr>sc_username = [], sc_password = [], sc_email = [], sc_min_password_len = 12\<rparr> = Inr s" for s
    using that by (rule read_section_keep) (auto simp: seed_fields_def set_slot_def split: json.splits)
  ultimately show ?thesis
    by (auto simp: LoadConfig_password_change_def LoadConfig_user_create_def LoadConfig_set_password_def
        LoadConfig_settings_def LoadConfig_seed_super_admin_def split: sum.splits)
qed

definition sample_config :: config where "sample_config = \<lparr>Env = ''production'', sections = sample_sections\<rparr>"

theorem one_policy_witness:
  "LoadConfig_settings plain_reader sample_config =
     Inr \<lparr>set_mode = ''open'', set_min_password_len = 14, set_issuer = ''panel''\<rparr> \<and>
   LoadConfig_auth_token plain_reader sample_config = Inr False"
proof -
  let ?reg = "\<lparr>reg_mode = ''open'', reg_min_password_len = 14, reg_require_email = False\<rparr>"
  have reg: "LoadConfig_register plain_reader sample_config = Inr ?reg" by code_simp
  have "case LoadConfig_token plain_reader sample_config of Inl _ \<Rightarrow> False | Inr t \<Rightarrow> Issuer t = ''panel''" by code_simp
  then obtain tok where tok: "LoadConfig_token plain_reader sample_config = Inr tok" "Issuer tok = ''panel''"
    by (auto split: sum.splits)
  have "case LoadConfig_ratelimit plain_reader sample_config of Inl _ \<Rightarrow> False | Inr l \<Rightarrow> \<not> rl_FailClosed l" by code_simp
  then obtain l where l: "LoadConfig_ratelimit plain_reader sample_config = Inr l" "\<not> rl_FailClosed l"
    by (auto split: sum.splits)
  have fair: "fair plain_reader" by (simp add: fair_def plain_reader_def)
  have plain: "plain_keys sample_config ''token''" "plain_keys sample_config ''ratelimit''"
    unfolding plain_keys_def by (simp_all add: sample_config_def sample_sections_def member_def) code_simp+
  from one_policy [OF fair plain reg tok(1) l(1)] tok(2) l(2) show ?thesis by simp
qed

section \<open>A key in two spellings\<close>

text \<open>
  The hypothesis about spellings is needed. A section that a duration was rewritten in is marshalled
  with its keys in order, so that of two spellings another one comes last: the service signs with one
  issuer and publishes the other.
\<close>

definition two_spellings :: config where
  "two_spellings = \<lparr>Env = ''production'', sections = [(''token'', JObject
     [(''private_key'', JString ''key''), (''issuer'', JString ''one''), (''Issuer'', JString ''two''), (''access_ttl'', JString ''1h'')])]\<rparr>"

lemma two_spellings_disagree:
  "map_sum (\<lambda>_. ()) Issuer (LoadConfig_token plain_reader two_spellings) = Inr ''one''"
  "map_sum (\<lambda>_. ()) set_issuer (LoadConfig_settings plain_reader two_spellings) = Inr ''two''"
  by code_simp+

end
