(* ===== verification/Retries.thy ===== *)
theory Retries
  imports WebhookLaws Jobs
begin

text \<open>
  The retries of the webhook dispatcher end. Every event that a run counts - delivered, failed or given
  up - uses up one of the attempts the pending events are still owed.
\<close>

section \<open>What is still owed\<close>

definition owed_row :: "int \<Rightarrow> outbox_row \<Rightarrow> nat" where
  "owed_row limit r = (if pending r then nat (max 1 (limit - or_attempts r)) else 0)"

definition owed :: "int \<Rightarrow> db \<Rightarrow> nat" where
  "owed limit d = sum_list (map (owed_row limit) (ga_outbox d))"

lemma owed_row_zero [simp]: "owed_row limit r = 0 \<longleftrightarrow> \<not> pending r"
  by (auto simp: owed_row_def)

lemma owed_nothing: "owed limit d = 0 \<longleftrightarrow> \<not> list_ex pending (ga_outbox d)"
  by (auto simp: owed_def list_ex_iff)

lemma owed_map_le: "(\<And>r. r \<in> set (ga_outbox d) \<Longrightarrow> owed_row limit (f r) \<le> owed_row limit r) \<Longrightarrow> owed limit (map_outbox f d) \<le> owed limit d"
  unfolding owed_def by (simp add: comp_def sum_list_mono)

lemma owed_map_less:
  assumes "\<And>r. r \<in> set (ga_outbox d) \<Longrightarrow> owed_row limit (f r) \<le> owed_row limit r"
    and "r0 \<in> set (ga_outbox d)" "owed_row limit (f r0) < owed_row limit r0"
  shows "owed limit (map_outbox f d) < owed limit d"
proof -
  obtain xs ys where s: "ga_outbox d = xs @ r0 # ys" using split_list [OF assms(2)] by blast
  have "sum_list (map (\<lambda>r. owed_row limit (f r)) xs) \<le> sum_list (map (owed_row limit) xs)"
    "sum_list (map (\<lambda>r. owed_row limit (f r)) ys) \<le> sum_list (map (owed_row limit) ys)"
    using assms(1) s by (auto intro: sum_list_mono)
  with assms(3) show ?thesis by (simp add: owed_def s comp_def)
qed

text \<open>A mark uses up an attempt of the pending event it is for.\<close>

lemma owed_delivered: "owed_row limit (mark_delivered i now r) \<le> owed_row limit r"
  by (simp add: mark_delivered_def owed_row_def pending_def)

lemma owed_delivered_less: "pending r \<Longrightarrow> or_id r = i \<Longrightarrow> owed_row limit (mark_delivered i now r) < owed_row limit r"
  by (simp add: mark_delivered_def owed_row_def pending_def)

lemma owed_failed:
  assumes "or_id r = i \<Longrightarrow> pending r \<and> or_attempts r = n"
  shows "owed_row limit (mark_failed i err nx (if n + 1 \<ge> limit then Some now else None) r) \<le> owed_row limit r"
  using assms by (auto simp: mark_failed_def owed_row_def pending_def)

lemma owed_failed_less:
  assumes "or_id r = i" "pending r" "or_attempts r = n"
  shows "owed_row limit (mark_failed i err nx (if n + 1 \<ge> limit then Some now else None) r) < owed_row limit r"
  using assms by (auto simp: mark_failed_def owed_row_def pending_def)

section \<open>The loop over a batch\<close>

definition handled :: "dispatch_output \<Rightarrow> int" where
  "handled out = do_delivered out + do_failed out + do_gave_up out"

text \<open>The events still to come are pending rows that nobody has touched.\<close>

definition in_outbox :: "ext \<Rightarrow> outbox_row list \<Rightarrow> outbox_event \<Rightarrow> bool" where
  "in_outbox e rows ev \<longleftrightarrow> (\<exists>r\<in>set rows. uuid_parse e (ev_id ev) = Some (or_id r) \<and> pending r \<and> or_attempts r = ev_attempts ev)"

definition ready :: "ext \<Rightarrow> outbox_event list \<Rightarrow> outbox_row list \<Rightarrow> bool" where
  "ready e evs rows \<longleftrightarrow> distinct (map or_id rows) \<and> distinct (map (\<lambda>ev. uuid_parse e (ev_id ev)) evs) \<and>
     list_all (in_outbox e rows) evs"

lemma in_outbox_map:
  assumes "in_outbox e rows ev" "\<And>r. r \<in> set rows \<Longrightarrow> Some (or_id r) = uuid_parse e (ev_id ev) \<Longrightarrow> f r = r"
  shows "in_outbox e (map f rows) ev"
proof -
  obtain r where "r \<in> set rows" "uuid_parse e (ev_id ev) = Some (or_id r)" "pending r \<and> or_attempts r = ev_attempts ev"
    using assms(1) by (auto simp: in_outbox_def)
  then show ?thesis using assms(2) [of r] by (auto simp: in_outbox_def intro!: bexI [of _ r] image_eqI [of r f r])
qed

lemma ready_map:
  assumes "ready e (ev # evs) rows" "uuid_parse e (ev_id ev) = Some i"
    and "\<And>r. or_id (f r) = or_id r" "\<And>r. or_id r \<noteq> i \<Longrightarrow> f r = r"
  shows "ready e evs (map f rows)"
proof -
  have "in_outbox e (map f rows) ev'" if "ev' \<in> set evs" for ev'
  proof (rule in_outbox_map)
    show "in_outbox e rows ev'" using assms(1) that by (simp add: ready_def list_all_iff)
    fix r :: outbox_row assume "Some (or_id r) = uuid_parse e (ev_id ev')"
    moreover have "uuid_parse e (ev_id ev') \<noteq> Some i"
      using assms(1,2) imageI [OF that, of "\<lambda>ev. uuid_parse e (ev_id ev)"] by (auto simp: ready_def)
    ultimately show "f r = r" using assms(4) [of r] by metis
  qed
  then show ?thesis using assms(1,3) by (simp add: ready_def list_all_iff comp_def)
qed

lemma MarkOutboxDelivered_Inr:
  assumes "MarkOutboxDelivered a s w = (Inr u, w')" "uuid_parse (env a) s = Some i"
  shows "\<exists>now. db w' = map_outbox (mark_delivered i now) (db w)"
proof -
  have "query a None (q_MarkOutboxDelivered i) w = (Inr u, w')"
    using assms by (simp add: MarkOutboxDelivered_def parse_id_def andthen_simp)
  then show ?thesis
  proof (rule query_Inr)
    fix now v
    assume "q_MarkOutboxDelivered i now v (db w) = Inr (u, db w')"
    then show ?thesis by (intro exI [of _ now]) (simp add: q_MarkOutboxDelivered_def mark_delivered_def [abs_def])
  qed
qed

lemma MarkOutboxFailed_Inr:
  assumes "MarkOutboxFailed a s reason nx g w = (Inr u, w')" "uuid_parse (env a) s = Some i" "\<exists>r\<in>set (ga_outbox (db w)). or_id r = i"
  shows "\<exists>err n now. db w' = map_outbox (mark_failed i err n (if g then Some now else None)) (db w)"
proof -
  let ?err = "text_in (truncate_to reason 500)"
  have "query a None (q_MarkOutboxFailed i ?err (ts nx) g) w = (Inr u, w')"
    using assms(1,2) by (simp add: MarkOutboxFailed_def parse_id_def andthen_simp)
  then show ?thesis
  proof (rule query_Inr)
    fix now v
    assume q: "q_MarkOutboxFailed i ?err (ts nx) g now v (db w) = Inr (u, db w')"
    then obtain n where "ts nx = Some n" using assms(3)
      by (cases "ts nx") (auto simp: q_MarkOutboxFailed_def list_ex_iff split: if_splits)
    with q have "db w' = map_outbox (mark_failed i ?err n (if g then Some now else None)) (db w)"
      by (simp add: q_MarkOutboxFailed_def mark_failed_def [abs_def] split: if_splits)
    then show ?thesis by blast
  qed
qed

lemma deliver_Inr:
  assumes "deliver a net wh cfg ev out w = (Inr out', w')" "uuid_parse (sys a) (ev_id ev) = Some i"
    and "\<exists>r\<in>set (ga_outbox (db w)). or_id r = i"
  shows "handled out' = handled out + 1 \<and>
    (\<exists>err n now. db w' = map_outbox (mark_delivered i now) (db w) \<or>
       db w' = map_outbox (mark_failed i err n (if ev_attempts ev + 1 \<ge> MaxAttempts cfg then Some now else None)) (db w))"
proof -
  obtain q w1 where s: "Send (sys a) net wh (ev_id ev) (ev_event ev) (ev_attempts ev + 1) (raw_payload net ev) w = (q, w1)"
    by fastforce
  note d = frameD [OF frame_Send s]
  show ?thesis
  proof (cases q)
    case (Inr u)
    with assms(1) s obtain v where m: "MarkOutboxDelivered (pg a) (ev_id ev) w1 = (Inr v, w')" and o: "handled out' = handled out + 1"
      by (auto simp: deliver_def attempt_simp act_inv map_err_Inr handled_def)
    from MarkOutboxDelivered_Inr [OF m assms(2)] d o show ?thesis by auto
  next
    case (Inl err)
    let ?g = "ev_attempts ev + 1 \<ge> MaxAttempts cfg"
    from assms(1) s Inl obtain now w2 v where n: "(Now w1 :: (error + instant) \<times> _) = (Inr now, w2)"
      and m: "MarkOutboxFailed (pg a) (ev_id ev) (error_text err) (now + backoff (sys a) cfg (ev_attempts ev + 1)) ?g w2 = (Inr v, w')"
      and o: "handled out' = handled out + 1"
      by (auto simp: deliver_def record_failure_def Let_def attempt_simp act_inv map_err_Inr handled_def split: if_splits)
    have d2: "db w2 = db w" using frameD [OF frame_Now [of db, simplified] n] d by simp
    from MarkOutboxFailed_Inr [OF m assms(2)] assms(3) o show ?thesis unfolding d2 by blast
  qed
qed

lemma deliver_owes:
  assumes "ready (sys a) (ev # evs) (ga_outbox (db w))" "deliver a net wh cfg ev out w = (r, w')"
  shows "owed (MaxAttempts cfg) (db w') \<le> owed (MaxAttempts cfg) (db w)"
    and "r = Inr out' \<Longrightarrow> ready (sys a) evs (ga_outbox (db w')) \<and> handled out' = handled out + 1 \<and>
      owed (MaxAttempts cfg) (db w') < owed (MaxAttempts cfg) (db w)"
proof -
  let ?L = "MaxAttempts cfg" and ?rows = "ga_outbox (db w)"
  let ?failed = "\<lambda>i err n now. mark_failed i err n (if ev_attempts ev + 1 \<ge> ?L then Some now else None)"
  obtain r0 where r0: "r0 \<in> set ?rows" "uuid_parse (sys a) (ev_id ev) = Some (or_id r0)" "pending r0" "or_attempts r0 = ev_attempts ev"
    using assms(1) by (auto simp: ready_def in_outbox_def)
  have only: "q = r0" if "q \<in> set ?rows" "or_id q = or_id r0" for q
    using assms(1) that r0(1) by (auto simp: ready_def dest: distinct_map_inj)
  have le: "owed_row ?L (?failed (or_id r0) err n now q) \<le> owed_row ?L q" if "q \<in> set ?rows" for err n now q
    using only [OF that] r0 by (intro owed_failed) auto
  from deliver_effect [OF assms(2)] show "owed ?L (db w') \<le> owed ?L (db w)"
  proof (elim disjE exE conjE)
    fix i err n now
    assume "uuid_parse (sys a) (ev_id ev) = Some i" "db w' = map_outbox (?failed i err n now) (db w)"
    with r0(2) le show ?thesis by (simp only: option.inject) (auto intro!: owed_map_le)
  qed (auto intro: owed_map_le owed_delivered)
  assume "r = Inr out'"
  with assms(2) have d: "deliver a net wh cfg ev out w = (Inr out', w')" by simp
  from r0(1) have "\<exists>r\<in>set ?rows. or_id r = or_id r0" by blast
  from deliver_Inr [OF d r0(2) this] obtain err n now where h: "handled out' = handled out + 1"
    and f: "db w' = map_outbox (mark_delivered (or_id r0) now) (db w) \<or> db w' = map_outbox (?failed (or_id r0) err n now) (db w)"
    by blast
  from f have "ready (sys a) evs (ga_outbox (db w')) \<and> owed ?L (db w') < owed ?L (db w)"
  proof
    assume e: "db w' = map_outbox (mark_delivered (or_id r0) now) (db w)"
    have "owed ?L (db w') < owed ?L (db w)"
      unfolding e using owed_delivered r0(1) owed_delivered_less [OF r0(3) refl] by (rule owed_map_less)
    with e show ?thesis using ready_map [OF assms(1) r0(2), of "mark_delivered (or_id r0) now"] by (simp add: mark_delivered_def)
  next
    assume e: "db w' = map_outbox (?failed (or_id r0) err n now) (db w)"
    have "owed ?L (db w') < owed ?L (db w)"
      unfolding e using le r0(1) owed_failed_less [OF refl r0(3,4)] by (rule owed_map_less)
    with e show ?thesis using ready_map [OF assms(1) r0(2), of "?failed (or_id r0) err n now"] by (simp add: mark_failed_def)
  qed
  with h show "ready (sys a) evs (ga_outbox (db w')) \<and> handled out' = handled out + 1 \<and> owed ?L (db w') < owed ?L (db w)"
    by blast
qed

text \<open>What a result counts as handled; a run that was aborted reports nothing.\<close>

definition reported :: "error + dispatch_output \<Rightarrow> int" where
  "reported r = (case r of Inl _ \<Rightarrow> 0 | Inr out \<Rightarrow> handled out)"

lemma fold_owes:
  assumes "ready (sys a) evs (ga_outbox (db w))" "fold_act (deliver a net wh cfg) evs out w = (r, w')" "0 \<le> handled out"
  shows "reported r + int (owed (MaxAttempts cfg) (db w')) \<le> handled out + int (owed (MaxAttempts cfg) (db w))"
  using assms
proof (induction evs arbitrary: out w)
  case (Cons ev evs)
  obtain q w1 where d: "deliver a net wh cfg ev out w = (q, w1)" by fastforce
  show ?case
  proof (cases q)
    case (Inl e)
    with Cons.prems(2) d have "r = Inl e" "w' = w1" by (simp_all add: andthen_simp)
    with deliver_owes(1) [OF Cons.prems(1) d] Cons.prems(3) show ?thesis by (simp add: reported_def)
  next
    case (Inr out1)
    with Cons.prems(2) d have "fold_act (deliver a net wh cfg) evs out1 w1 = (r, w')" by (simp add: andthen_simp)
    with Cons.IH [of w1 out1] deliver_owes(2) [OF Cons.prems(1) d Inr] Cons.prems(3) show ?thesis by force
  qed
qed (auto simp: reported_def)

section \<open>Rounds\<close>

lemma claim_ready:
  assumes "ClaimDueOutboxEvents a lim ls w = (Inr evs, w')" "db_ok (db w)" "uuid_law (env a)"
  shows "ready (env a) evs (ga_outbox (db w'))"
proof -
  from assms(1) obtain rows where q: "query a None (q_ClaimDueOutboxEvents (int32 lim) (int32 (whole_seconds ls))) w = (Inr rows, w')"
    and evs: "evs = map (toDomainEvent (env a)) rows"
    by (auto simp: ClaimDueOutboxEvents_def act_inv)
  from q obtain now u where st: "q_ClaimDueOutboxEvents (int32 lim) (int32 (whole_seconds ls)) now u (db w) = Inr (rows, db w')"
    by (rule query_Inr)
  have "distinct (map or_id (ga_outbox (db w')))"
    using claim_effect [OF assms(1)] assms(2) by (auto simp: db_ok_def outbox_ok_def comp_def if_distrib [of or_id] cong: if_cong)
  moreover have "distinct (map (\<lambda>ev. uuid_parse (env a) (ev_id ev)) evs)"
    using claim_fresh [OF assms] by (simp add: fresh_batch_def)
  moreover have "in_outbox (env a) (ga_outbox (db w')) ev" if "ev \<in> set evs" for ev
  proof -
    let ?n = "now + int32 (whole_seconds ls) * Second" and ?ids = "set (claimed_ids (int32 lim) now (db w))"
    from st that evs obtain r where r: "r \<in> set (ga_outbox (db w))" "or_id r \<in> ?ids" "ev = toDomainEvent (env a) (r\<lparr>or_next := ?n\<rparr>)"
      by (auto simp: q_ClaimDueOutboxEvents_def Let_def split: if_splits)
    from st have "map_outbox (\<lambda>r. if or_id r \<in> ?ids then r\<lparr>or_next := ?n\<rparr> else r) (db w) = db w'"
      by (simp add: q_ClaimDueOutboxEvents_def Let_def split: if_splits)
    from arg_cong [OF this, of ga_outbox]
    have "ga_outbox (db w') = map (\<lambda>r. if or_id r \<in> ?ids then r\<lparr>or_next := ?n\<rparr> else r) (ga_outbox (db w))" by simp
    with r(1,2) have "r\<lparr>or_next := ?n\<rparr> \<in> set (ga_outbox (db w'))" by force
    moreover from r(1,2) assms(2) have "pending r"
      by (auto simp: claimed_ids_def due_def db_ok_def outbox_ok_def dest!: in_set_takeD dest: distinct_map_inj)
    moreover have "uuid_parse (env a) (ev_id (toDomainEvent (env a) (r\<lparr>or_next := ?n\<rparr>))) = Some (or_id r)"
      using assms(3) by (simp add: toDomainEvent_def uuid_law_def)
    ultimately show ?thesis unfolding in_outbox_def r(3)
      by (intro bexI [of _ "r\<lparr>or_next := ?n\<rparr>"]) (simp_all add: toDomainEvent_def pending_def)
  qed
  ultimately show ?thesis by (simp add: ready_def list_all_iff)
qed

lemma round_owes:
  assumes "Execute_dispatch a net wh cfg w = (r, w')" "db_ok (db w)" "uuid_law (sys a)"
  shows "reported r + int (owed (MaxAttempts cfg) (db w')) \<le> int (owed (MaxAttempts cfg) (db w))"
proof (cases "Enabled_webhook wh")
  case True
  obtain q w1 where c: "ClaimDueOutboxEvents (pg a) (BatchSize cfg) (dc_timeout cfg * 2 + 30 * Second) w = (q, w1)"
    by fastforce
  have le: "owed (MaxAttempts cfg) (db w1) \<le> owed (MaxAttempts cfg) (db w)"
    using claim_effect [OF c] by (auto intro!: owed_map_le simp: owed_row_def pending_def)
  show ?thesis
  proof (cases q)
    case (Inr evs)
    with assms(1) True c have f: "fold_act (deliver a net wh cfg) evs dispatched w1 = (r, w')"
      by (simp add: Execute_dispatch_def andthen_simp map_err_simp)
    have "handled dispatched = 0" by (simp add: handled_def dispatched_def)
    with fold_owes [OF claim_ready [OF c [unfolded Inr] assms(2,3)] f] le show ?thesis by simp
  next
    case (Inl e)
    with assms(1) True c have "r = Inl (Wrap ''webhook_dispatcher: claim'' e)" "w' = w1"
      by (simp_all add: Execute_dispatch_def andthen_simp map_err_simp)
    with le show ?thesis by (simp add: reported_def)
  qed
qed (use assms in \<open>auto simp: Execute_dispatch_def reported_def handled_def dispatched_def\<close>)

text \<open>Rounds of the dispatcher over one outbox, each at its own time and with its own network, and how many events they handled.\<close>

inductive rounds :: "'r app \<Rightarrow> webhook_config \<Rightarrow> dispatcher_config \<Rightarrow> db \<Rightarrow> int \<Rightarrow> db \<Rightarrow> bool"
  for a :: "'r app" and wh :: webhook_config and cfg :: dispatcher_config and d :: db where
  none: "rounds a wh cfg d 0 d"
| another: "rounds a wh cfg d n (db w) \<Longrightarrow> Execute_dispatch a net wh cfg w = (r, w') \<Longrightarrow> rounds a wh cfg d (n + reported r) (db w')"

text \<open>
  C36. Retries end. However often the dispatcher runs over an outbox, at whatever times, against
  whatever receiver, the deliveries, failures and abandonments it reports are together no more than
  the attempts that the pending events were still owed; and when that many have been reported,
  nothing is pending any more.
\<close>

theorem retries_end:
  assumes "rounds a wh cfg d n d'" "db_ok d" "uuid_law (sys a)"
  shows "n \<le> int (owed (MaxAttempts cfg) d) \<and> (n = int (owed (MaxAttempts cfg) d) \<longrightarrow> \<not> list_ex pending (ga_outbox d'))"
proof -
  have "db_ok d' \<and> n + int (owed (MaxAttempts cfg) d') \<le> int (owed (MaxAttempts cfg) d)"
    using assms
  proof (induction rule: rounds.induct)
    case (another n w net r w')
    then have ok: "db_ok (db w)" by blast
    from keepsD [OF keeps_jobs(4) another.hyps(2) ok] round_owes [OF another.hyps(2) ok] another show ?case by force
  qed simp
  then show ?thesis using owed_nothing [of "MaxAttempts cfg" d'] by auto
qed

theorem retries_end_witness:
  "reported (fst (Execute_dispatch sample_app (answering 418 ''no'') sample_webhook impatient eventful_world)) \<le> 2"
proof -
  let ?x = "Execute_dispatch sample_app (answering 418 ''no'') sample_webhook impatient eventful_world"
  have "rounds sample_app sample_webhook impatient (db eventful_world) (0 + reported (fst ?x)) (db (snd ?x))"
    by (rule rounds.another [OF rounds.none]) simp
  moreover have "db_ok (db eventful_world)" by code_simp
  moreover have "owed (MaxAttempts impatient) (db eventful_world) = 2" by code_simp
  ultimately show ?thesis using retries_end [of sample_app sample_webhook impatient "db eventful_world"] sample_uuid_law by force
qed

end
