(* ===== verification/PasswordhashLaws.thy ===== *)
theory PasswordhashLaws
  imports Sample
begin

text \<open>
  The round trip of a stored password hash: what \<open>Hash\<close> prints, \<open>decode\<close> reads and \<open>Verify\<close> checks.
\<close>

text \<open>
  C37. A stored hash speaks for its password. The text that \<open>Hash\<close> produces decodes to the costs it was
  made with, its salt and its key; the same password verifies against it, and any other password
  verifies exactly if argon2 derives the same key from it with that salt and those costs.
\<close>

theorem stored_hash_verifies:
  assumes "Hash e p pw w = (Inr h, w')" "params_ok p" "argon2_law e"
  shows "\<exists>salt key. decode h = Inr (p\<lparr>SaltLength := length salt\<rparr>, salt, key) \<and> Verify e h pw = Inr True \<and>
    (\<forall>other. Verify e h other = Inr (argon2_idkey e other salt (Iterations p) (Memory p) (Parallelism p) (KeyLength p) = Some key))"
proof -
  let ?derive = "\<lambda>q salt. argon2_idkey e q salt (Iterations p) (Memory p) (Parallelism p) (KeyLength p)"
  from assms(1) obtain salt key where k: "?derive pw salt = Some key" and h: "h = phc p salt key" by (rule Hash_Inr)
  have total: "\<exists>got. ?derive q salt = Some got \<and> length got = KeyLength p" for q
    using assms(2,3) by (simp add: params_ok_def argon2_law_def)
  from total [of pw] k have len: "length key = KeyLength p" by simp
  have fit: "params_fit p" using assms(2) by (simp add: params_ok_def)
  have "Verify e h other = Inr (?derive other salt = Some key)" for other
    using total [of other] by (auto simp: h Verify_phc [OF fit] len)
  moreover have "decode h = Inr (p\<lparr>SaltLength := length salt\<rparr>, salt, key)"
    using decode_phc [OF fit, of salt key] len by (simp add: h)
  ultimately show ?thesis using k by auto
qed

definition cheap :: params where
  "cheap = \<lparr>Memory = 1, Iterations = 1, Parallelism = 1, SaltLength = 0, KeyLength = 8\<rparr>"

theorem stored_hash_verifies_witness:
  "Verify sample_env (projr (fst (Hash sample_env cheap ''secret'' sample_world))) ''secret'' = Inr True \<and>
   Verify sample_env (projr (fst (Hash sample_env cheap ''secret'' sample_world))) ''guess'' = Inr False"
proof -
  have ok: "params_ok cheap" by code_simp
  have law: "argon2_law sample_env" by (auto simp: argon2_law_def sample_env_def)
  have "case fst (Hash sample_env cheap ''secret'' sample_world) of Inl _ \<Rightarrow> False
      | Inr h \<Rightarrow> Verify sample_env h ''guess'' = Inr False" by code_simp
  then obtain h w' where h: "Hash sample_env cheap ''secret'' sample_world = (Inr h, w')" "Verify sample_env h ''guess'' = Inr False"
    by (cases "Hash sample_env cheap ''secret'' sample_world") (auto split: sum.splits)
  from stored_hash_verifies [OF h(1) ok law] h show ?thesis by auto
qed

end
