(* ===== verification/Spec2Isabelle.thy ===== *)
theory Spec2Isabelle
  imports Races RealIPLaws RoutesLaws WebhookLaws Jobs Bootstrap AuthclientLaws Logins Secrets Policy Retries PasswordhashLaws
begin

text \<open>
  \<^bold>\<open>Goauth\<close>, an authentication service in Go: it keeps accounts and roles in Postgres, signs access
  tokens with Ed25519, rotates refresh tokens, limits logins through Redis, and delivers events to a
  webhook. This development models the program and proves what makes it correct.

  \<^bold>\<open>How the parts interact.\<close> A request enters through a router (\<open>internal/controller\<close>), passes CORS, the
  client address and the guards of \<open>internal/middleware\<close>, and reaches the handler of a use case
  (\<open>internal/usecases\<close>). The use case validates, asks the services of \<open>internal/service\<close> (audit, rank
  guard, token issuer) and calls the repositories of \<open>internal/adapter/postgres\<close>, which run the SQL of
  \<open>generated/\<close> and map storage errors to those of \<open>internal/domain\<close>; \<open>internal/apierr\<close> turns these into
  answers. Beside the requests run the jobs of \<open>internal/orchestrators/cron\<close>; before them the boot of
  \<open>internal/orchestrators/bootstrap\<close>. \<open>cmd\<close> builds all of it from one configuration file and runs it. A
  consuming service uses \<open>pkg/authclient\<close>.

  \<^bold>\<open>The model.\<close> An operation is a function from the state to an error or a value and the next state
  (\<open>act\<close> in \<open>Prelude\<close>); an error undoes nothing by itself. The state is a \<open>world\<close>: the tables, the Redis
  state, the clock and its coming readings, the coming faults of the database, and counters of the
  random and network draws. So a theorem over all worlds is one over all clocks, faults and answers.
  A transaction takes the tables back when it fails. Integers are unbounded, with the conversions to 32
  and 64 bits written out where the code relies on them; addresses are words. A Go string is a list of
  bytes.

  \<^bold>\<open>The theories and what they model.\<close>
  \<^item> \<open>Prelude\<close>, \<open>GoText\<close>, \<open>Decimal\<close>, \<open>Base64\<close>, \<open>Runtime\<close>, \<open>Machine\<close>: the vocabulary - actions and the rules
    \<open>keeps\<close>, \<open>frame\<close>, \<open>never\<close>; Go's strings, numbers and base64; the external libraries (\<open>ext\<close>); state
    machines as locales, \<open>invariant_of\<close> and \<open>simulation\<close>.
  \<^item> \<open>Domain\<close> (\<open>internal/domain\<close>), \<open>Tables\<close> (\<open>generated/*.sql.go\<close>: each statement with its constraints),
    \<open>Storage\<close> (well-formed tables, \<open>db_ok\<close>), \<open>World\<close> (transactions, faults), \<open>Adapter\<close> (the repositories),
    \<open>Specs\<close> (what an answer of a repository means).
  \<^item> \<open>Passwordhash\<close>, \<open>Token\<close>, \<open>Ratelimit\<close>, \<open>Durations\<close>, \<open>Http\<close>, \<open>RealIP\<close>, \<open>Cors\<close>, \<open>Webhook\<close>, \<open>Authclient\<close>: the packages of
    \<open>pkg\<close> of these names (\<open>Http\<close>: \<open>http_server\<close>, \<open>authcookie\<close> and \<open>internal/apierr\<close>; \<open>Webhook\<close>: with the
    dispatcher).
  \<^item> \<open>Services\<close>, \<open>AuthToken\<close>, \<open>Account\<close>, \<open>AdminUsers\<close>, \<open>AdminRoles\<close>: \<open>internal/service\<close> and the use cases with their
    handlers; \<open>Middleware\<close> and \<open>Routes\<close>: the guards and the two routers.
  \<^item> \<open>Jobs\<close> (the cleaners and the schedule), \<open>Bootstrap\<close> (seeding), \<open>Lifecycle\<close> (\<open>cmd/app.go\<close> and the loops of
    \<open>cron.go\<close> as a step relation).
  \<^item> \<open>Appconfig\<close> (\<open>pkg/appconfig\<close>), \<open>Settings\<close> (\<open>encoding/json\<close> into the configuration structs and every
    \<open>LoadConfig\<close>), \<open>Provision\<close> (\<open>pkg/postgres\<close>, \<open>pkg/dbschema\<close>, \<open>pkg/redis\<close>), \<open>Initialize\<close>
    (\<open>cmd/wire_gen.go\<close>).
  \<^item> \<open>Sample\<close>: a small concrete installation on which every theorem with hypotheses is exercised.

  \<^bold>\<open>What is shown.\<close>
  \<^item> \<open>Grants\<close>, \<open>Races\<close>, \<open>Logins\<close>: a replay of a refresh token ends its login, two rotations have one winner;
    every run of requests refines an abstract machine in which a login has one live token.
  \<^item> \<open>Secrets\<close>: for the life of a process the tables hold passwords and refresh tokens only as hashes, and
    a refresh token that was exchanged once is refused ever after. Both are instances of one contract on
    the rows that carry a secret (\<open>secret_rows\<close>); the second supposes that the random source does not
    draw the same 32 bytes again, the first asks nothing of it.
  \<^item> \<open>AccountLaws\<close>, \<open>AdminLaws\<close>, \<open>RoleLaws\<close>: what each use case does to the tables on success and on refusal,
    that nobody but a superadmin acts on an equal rank, nobody on a higher one, and nobody grants what he
    does not hold - as the use case sees its caller; \<open>role_handler_ignores_caller\<close> shows that over HTTP the
    role operations see every caller as the machine.
  \<^item> \<open>Service\<close>, \<open>Lifecycle\<close>: whatever is asked, whatever job runs, from the boot to the end of a process, the
    tables keep their constraints and, while requests act one at a time, the last active superadmin
    stays. \<open>world_law\<close> and \<open>database_law\<close> are the interface: what the boot, the requests and the jobs each
    keep, the process keeps. The way down closes the pool only after the jobs, the listeners and the
    requests that are within their time, and can always be brought to its end.
  \<^item> \<open>RoutesLaws\<close>, \<open>RealIPLaws\<close>, \<open>Cors\<close>: what gets past the guards, which address is believed, which origins
    are answered.
  \<^item> \<open>WebhookLaws\<close>, \<open>Retries\<close>, \<open>Jobs\<close>: no event is removed or rewritten by the dispatcher, one given up was
    tried as often as the limit, retries end; cleaners remove only what is past its retention or beyond
    the newest entries the row cap keeps.
  \<^item> \<open>AuthclientLaws\<close>, \<open>PasswordhashLaws\<close>, \<open>Durations\<close>: what a consumer accepts and how often it asks; round
    trips of stored hashes and of rate limit rules.
  \<^item> \<open>Appconfig\<close>, \<open>Provision\<close>, \<open>Initialize\<close>, \<open>Policy\<close>: the random order of a Go map does not show; databases are
    created only when missing and locks are given back; an application that was built is well set; the
    packages that read a setting for themselves agree on it (\<open>same_setting\<close>, \<open>one_setting\<close>).

  \<^bold>\<open>Parameters and hypotheses.\<close> What is not under \<open>src/\<close> is an argument: the libraries of \<open>ext\<close> (UUIDs,
  argon2, SHA-256, Ed25519, JWT, mail addresses, Unicode case, \<open>ILIKE\<close>), the Redis commands, the webhook's
  network, the database server of \<open>Provision\<close>, the JSON text. Theorems name the documented behaviour they
  rely on: \<open>uuid_law\<close> and \<open>uuid_fresh\<close>, \<open>argon2_law\<close>, \<open>jwt_parse_sound\<close>, that the MAC does not collide on
  the two messages compared (\<open>hmac_separates\<close>), that a token is not drawn twice (\<open>never_redrawn\<close>), exact floating point products below \<open>2 ^ 53\<close> (\<open>frac_exact\<close>).

  \<^bold>\<open>Bounds.\<close> No definition has fuel: every loop of the program that is modelled runs over a list, a
  string, a type, or a number of attempts, and its function has a termination proof. The loops that may
  run forever - the process and its jobs - are the relation \<open>app_step\<close>.

  \<^bold>\<open>Concurrency.\<close> A request or a job acts on the tables in one step, except in \<open>Races\<close>, where the reads and
  the write of a request are steps of their own and others run between them: there one guard holds and
  one fails. In \<open>Lifecycle\<close> the outside may move the clock, the faults, the caches and the random source
  between two steps, but not the tables, and a draw that was taken is not taken again (\<open>meanwhile\<close>). In
  \<open>Authclient\<close> one verification runs at a time.

  \<^bold>\<open>Not modelled.\<close> Log lines and their text; the JSON text of requests and answers (bodies are values);
  row scanning and the \<open>pgx\<close> types; the refusal of text that is not valid UTF-8 by any statement but the one
  that records a failed delivery, where the text is not the program's own (\<open>q_MarkOutboxFailed\<close>); timeouts through \<open>context\<close>, which show as faults of the call they
  end; \<open>main.go\<close> (a flag, a version line, an exit code), the schema text in \<open>schema/\<close>, the construction
  of the logger, the \<open>wire.go\<close> templates from which \<open>wire_gen.go\<close> is generated, and
  \<open>internal/adapter/redis\<close>, which no part of the program uses.
\<close>

end
